theory Spec2Isabelle
  imports Main "HOL-Library.Signed_Division" "HOL-Library.Sublist"
begin

section \<open>Data model of package mikrotik\<close>

text \<open>
  The structs of the source become records with the source's field names. Several
  structs share field names (\<open>Name\<close>, \<open>Login\<close>, \<open>Comment\<close>, ...); such a field is
  written with its record as qualifier, \<open>TTask.Name\<close>, \<open>THost.Login\<close>.
  Go's \<open>int64\<close> fields are \<open>int\<close>s; the wrap-around of 64-bit arithmetic is written
  out with \<open>int64\<close> below wherever the source computes with them.
\<close>

type_synonym TListOfStrings = "string list"

record TParam =
  Name :: string
  Value :: string
  Note :: string

type_synonym TParams = "TParam list"

record TUser =
  Login :: string
  Pass :: string
  Group :: string
  Address :: string
  Comment :: string
  Alias :: string
  Key :: string

type_synonym TUsers = "TUser list"

record TSchedule =
  Name :: string
  Disabled :: string
  StartDate :: string
  StartTime :: string
  Interval :: string
  Policy :: string
  Comment :: string
  Script :: string
  Alias :: string
  OnEvent :: string

type_synonym TSchedules = "TSchedule list"

record TTask =
  Name :: string
  Start :: int
  Delay :: int
  Expired :: int
  Alert :: int
  Note :: string

record TGroup =
  Name :: string
  Skin :: string
  Comment :: string
  Policy :: string

type_synonym TGroups = "TGroup list"

text \<open>
  \<open>THost\<close> without its \<open>connections\<close> field: the configuration of a host is fixed
  after \<open>LoadConfig\<close>, so the model passes it as an argument, and keeps the one field
  that the methods mutate, \<open>host.connections\<close>, in the state they thread.
\<close>

record THost =
  Name :: string
  IP :: string
  Login :: string
  Pass :: string
  PortAPI :: int
  PortSSH :: int
  BackupFolder :: string
  TaskName :: string
  UsersAliases :: TListOfStrings
  SchedulesAliases :: TListOfStrings
  UsersAllowed :: TListOfStrings
  LastSeen :: int
  Task :: TTask
  Users :: TUsers
  Groups :: TGroups
  Schedules :: TSchedules

section \<open>64-bit arithmetic\<close>

text \<open>The value an \<open>int64\<close> variable holds after an operation whose exact result is \<open>x\<close>.\<close>

definition int64 :: "int \<Rightarrow> int" where
  "int64 x = signed_take_bit 63 x"

text \<open>
  Go's \<open>/\<close> on integers truncates towards zero (\<open>sdiv\<close>), unlike HOL's \<open>div\<close>; the one
  overflowing quotient, \<open>MinInt64 / -1\<close>, wraps. The caller checks for a zero divisor.
\<close>

definition go_div64 :: "int \<Rightarrow> int \<Rightarrow> int" where
  "go_div64 a b = int64 (a sdiv b)"

section \<open>The next scheduled instant\<close>

text \<open>
  \<open>GetNextTime\<close>: \<open>now\<close> is the value \<open>time.Now().Unix()\<close> returns. An integer division
  by zero is a run-time panic in Go: the model's result is \<open>None\<close> then.
\<close>

definition GetNextTime :: "int \<Rightarrow> THost \<Rightarrow> int option" where
  "GetNextTime now host =
     (let start = Start (Task host);
          delay = Delay (Task host)
      in if delay = 0 then None
         else Some (int64 (int64 (int64 (go_div64 (int64 (now - start)) delay + 1) * delay) + start)))"

text \<open>A task and a host to evaluate the definitions on.\<close>

definition task_of :: "int \<Rightarrow> int \<Rightarrow> int \<Rightarrow> TTask" where
  "task_of start delay expired =
     \<lparr>TTask.Name = ''hourly'', Start = start, Delay = delay, Expired = expired,
      Alert = 0, Note = ''''\<rparr>"

definition host_of :: "TTask \<Rightarrow> TUsers \<Rightarrow> TGroups \<Rightarrow> TSchedules \<Rightarrow> THost" where
  "host_of t us gs ss =
     \<lparr>THost.Name = ''r1'', IP = ''10.0.0.1'', Login = ''admin'', Pass = ''secret'',
      PortAPI = 8728, PortSSH = 22, BackupFolder = ''backup/'', TaskName = ''hourly'',
      UsersAliases = [], SchedulesAliases = [], UsersAllowed = [''ops''], LastSeen = 0,
      Task = t, Users = us, Groups = gs, Schedules = ss\<rparr>"

section \<open>Errors, library calls and the state of a run\<close>

text \<open>
  A Go \<open>error\<close> value. The source creates three with \<open>errors.New\<close>; every other error
  comes out of a library call (routeros, ssh, sftp, os, io) and carries its message.
\<close>

datatype error =
    LibError string
  | AllAttemptsUsed
  | ParamDoesNotExist
  | TaskDoesNotExist

fun Error :: "error \<Rightarrow> string" where
  "Error (LibError s) = s"
| "Error AllAttemptsUsed = ''CmdImportSshKeys: all attempts used''"
| "Error ParamDoesNotExist = ''param does not exist''"
| "Error TaskDoesNotExist = ''task does not exist''"

text \<open>A client of one of the three protocols (\<open>*routeros.Client\<close>, \<open>*ssh.Client\<close>,
  \<open>*sftp.Client\<close>); \<open>None\<close> is the nil pointer.\<close>

type_synonym handle = nat

record tConnections =
  ssh :: "handle option"
  sftp :: "handle option"
  api :: "handle option"

text \<open>A reply of the control-plane protocol: \<open>res.Re\<close>, a list of sentences, each with
  its \<open>Map\<close> from keys to values. Reading a key a Go map does not have gives \<open>""\<close>.\<close>

type_synonym sentence = "(string \<times> string) list"
type_synonym reply = "sentence list"

definition Map_get :: "sentence \<Rightarrow> string \<Rightarrow> string" where
  "Map_get m k = (case map_of m k of None \<Rightarrow> [] | Some v \<Rightarrow> v)"

text \<open>What \<open>os.FileInfo\<close> tells the source about a directory entry.\<close>

record FileInfo =
  FName :: string
  IsDir :: bool

text \<open>The \<open>ssh.ClientConfig\<close> that \<open>GetSshClientConfig\<close> builds.\<close>

record ClientConfig =
  User :: string
  AuthPassword :: string
  InsecureIgnoreHostKey :: bool

text \<open>
  Everything outside the program: the device, the network, the local disk. The model
  does not fix how they behave. It takes each library call the source makes as a
  function on a state \<open>'d\<close> of the outside world, which answers the call and moves to a
  new state; failures are answers. File handles are named by the path they were opened
  on.
\<close>

record 'd env =
  routeros_Dial :: "string \<Rightarrow> string \<Rightarrow> string \<Rightarrow> 'd \<Rightarrow> (error + handle) \<times> 'd"
  routeros_Run :: "handle \<Rightarrow> string list \<Rightarrow> 'd \<Rightarrow> (error + reply) \<times> 'd"
  routeros_Close :: "handle \<Rightarrow> 'd \<Rightarrow> 'd"
  ssh_Dial :: "string \<Rightarrow> ClientConfig \<Rightarrow> 'd \<Rightarrow> (error + handle) \<times> 'd"
  ssh_Close :: "handle \<Rightarrow> 'd \<Rightarrow> 'd"
  sftp_NewClient :: "handle \<Rightarrow> 'd \<Rightarrow> (error + handle) \<times> 'd"
  sftp_Close :: "handle \<Rightarrow> 'd \<Rightarrow> 'd"
  sftp_ReadDir :: "handle \<Rightarrow> string \<Rightarrow> 'd \<Rightarrow> (error + FileInfo list) \<times> 'd"
  sftp_MkdirAll :: "handle \<Rightarrow> string \<Rightarrow> 'd \<Rightarrow> error option \<times> 'd"
  sftp_Create :: "handle \<Rightarrow> string \<Rightarrow> 'd \<Rightarrow> error option \<times> 'd"
  sftp_Open :: "handle \<Rightarrow> string \<Rightarrow> 'd \<Rightarrow> error option \<times> 'd"
  sftp_Remove :: "handle \<Rightarrow> string \<Rightarrow> 'd \<Rightarrow> error option \<times> 'd"
  sftp_File_Close :: "string \<Rightarrow> 'd \<Rightarrow> error option \<times> 'd"
  os_Open :: "string \<Rightarrow> 'd \<Rightarrow> error option \<times> 'd"
  os_MkdirAll :: "string \<Rightarrow> 'd \<Rightarrow> error option \<times> 'd"
  os_Create :: "string \<Rightarrow> 'd \<Rightarrow> error option \<times> 'd"
  os_File_Sync :: "string \<Rightarrow> 'd \<Rightarrow> error option \<times> 'd"
  os_File_Close :: "string \<Rightarrow> 'd \<Rightarrow> error option \<times> 'd"
  io_Copy_upload :: "string \<Rightarrow> string \<Rightarrow> 'd \<Rightarrow> error option \<times> 'd"
  io_Copy_download :: "string \<Rightarrow> string \<Rightarrow> 'd \<Rightarrow> error option \<times> 'd"
  time_Sleep :: "int \<Rightarrow> 'd \<Rightarrow> 'd"
  time_Now_Unix :: "'d \<Rightarrow> int \<times> 'd"
  rand_Password :: "nat \<Rightarrow> 'd \<Rightarrow> string \<times> 'd"

text \<open>
  What a run leaves behind, in order: the dials and closes of sessions, the commands
  sent over the control-plane session with their outcome (\<open>True\<close> for success), and the
  sleeps with their duration in nanoseconds.
\<close>

datatype proto = API | SSH | SFTP

datatype event =
    Dial proto bool
  | Close proto
  | Cmd "string list" bool
  | Sleep int

text \<open>
  The state the methods of a host thread: \<open>host.connections\<close>, the outside world, the
  events so far, and the lines written with \<open>log.Println\<close>.
\<close>

record 'd world =
  connections :: tConnections
  dev :: 'd
  trace :: "event list"
  logs :: "string list"

definition logln :: "string \<Rightarrow> 'd world \<Rightarrow> 'd world" where
  "logln s w = w\<lparr>logs := logs w @ [s]\<rparr>"

definition emit :: "event \<Rightarrow> 'd world \<Rightarrow> 'd world" where
  "emit e w = w\<lparr>trace := trace w @ [e]\<rparr>"

text \<open>A library call that answers with an error or nothing, run on the outside world.\<close>

definition call :: "('d \<Rightarrow> error option \<times> 'd) \<Rightarrow> 'd world \<Rightarrow> error option \<times> 'd world" where
  "call f w = (case f (dev w) of (r, d) \<Rightarrow> (r, w\<lparr>dev := d\<rparr>))"

text \<open>\<open>time.Sleep\<close> of a duration in nanoseconds.\<close>

definition Sleep_ns :: "'d env \<Rightarrow> int \<Rightarrow> 'd world \<Rightarrow> 'd world" where
  "Sleep_ns env ns w = emit (Sleep ns) (w\<lparr>dev := time_Sleep env ns (dev w)\<rparr>)"

text \<open>\<open>connApi.Run\<close>: one command over the control-plane session.\<close>

definition connApi_Run :: "'d env \<Rightarrow> handle \<Rightarrow> string list \<Rightarrow> 'd world \<Rightarrow> (error + reply) \<times> 'd world" where
  "connApi_Run env c args w =
     (case routeros_Run env c args (dev w) of
        (Inl err, d) \<Rightarrow> (Inl err, emit (Cmd args False) (w\<lparr>dev := d\<rparr>))
      | (Inr res, d) \<Rightarrow> (Inr res, emit (Cmd args True) (w\<lparr>dev := d\<rparr>)))"

subsection \<open>Formatting\<close>

text \<open>The verb \<open>%d\<close> of \<open>fmt.Sprintf\<close>.\<close>

function dec :: "nat \<Rightarrow> string" where
  "dec n = (if n < 10 then [''0123456789'' ! n]
            else dec (n div 10) @ [''0123456789'' ! (n mod 10)])"
  by pat_completeness auto
termination
  by (relation "measure id") auto

definition Itoa :: "int \<Rightarrow> string" where
  "Itoa i = (if i < 0 then CHR ''-'' # dec (nat (- i)) else dec (nat i))"

text \<open>\<open>strings.Replace(s, old, new, -1)\<close> for a non-empty \<open>old\<close>: every non-overlapping
  occurrence, from the left.\<close>

function strings_ReplaceAll :: "string \<Rightarrow> string \<Rightarrow> string \<Rightarrow> string" where
  "strings_ReplaceAll [] old new = []"
| "strings_ReplaceAll (c # cs) old new =
     (if old \<noteq> [] \<and> take (length old) (c # cs) = old
      then new @ strings_ReplaceAll (drop (length old) (c # cs)) old new
      else c # strings_ReplaceAll cs old new)"
  by pat_completeness auto
termination
  by (relation "measure (\<lambda>(s, old, new). length s)") auto

section \<open>The three sessions of a host\<close>

definition GetSshClientConfig :: "THost \<Rightarrow> ClientConfig" where
  "GetSshClientConfig host =
     \<lparr>User = THost.Login host, AuthPassword = THost.Pass host, InsecureIgnoreHostKey = True\<rparr>"

text \<open>
  Each dial assigns its result to the field of \<open>host.connections\<close> before the error is
  looked at; the three libraries return a nil client with an error.
\<close>

definition GetConnectionSSH :: "'d env \<Rightarrow> THost \<Rightarrow> 'd world \<Rightarrow> (error + handle) \<times> 'd world" where
  "GetConnectionSSH env host w =
     (case ssh (connections w) of
        None \<Rightarrow>
          (let w1 = logln (''['' @ IP host @ ''] connection via SSH'') w in
           case ssh_Dial env (IP host @ '':'' @ Itoa (PortSSH host)) (GetSshClientConfig host) (dev w1) of
             (Inl err, d) \<Rightarrow>
               (Inl err, emit (Dial SSH False)
                  (w1\<lparr>dev := d, connections := (connections w1)\<lparr>ssh := None\<rparr>\<rparr>))
           | (Inr c, d) \<Rightarrow>
               (Inr c, emit (Dial SSH True)
                  (w1\<lparr>dev := d, connections := (connections w1)\<lparr>ssh := Some c\<rparr>\<rparr>)))
      | Some c \<Rightarrow> (Inr c, w))"

definition GetConnectionSFTP :: "'d env \<Rightarrow> THost \<Rightarrow> 'd world \<Rightarrow> (error + handle) \<times> 'd world" where
  "GetConnectionSFTP env host w =
     (case sftp (connections w) of
        None \<Rightarrow>
          (case GetConnectionSSH env host w of
             (Inl err, w1) \<Rightarrow> (Inl err, w1)
           | (Inr connSSH, w1) \<Rightarrow>
               (let w2 = logln (''['' @ IP host @ ''] connection via SFTP'') w1 in
                case sftp_NewClient env connSSH (dev w2) of
                  (Inl err, d) \<Rightarrow>
                    (Inl err, emit (Dial SFTP False)
                       (w2\<lparr>dev := d, connections := (connections w2)\<lparr>sftp := None\<rparr>\<rparr>))
                | (Inr c, d) \<Rightarrow>
                    (Inr c, emit (Dial SFTP True)
                       (w2\<lparr>dev := d, connections := (connections w2)\<lparr>sftp := Some c\<rparr>\<rparr>))))
      | Some c \<Rightarrow> (Inr c, w))"

definition GetConnectionAPI :: "'d env \<Rightarrow> THost \<Rightarrow> 'd world \<Rightarrow> (error + handle) \<times> 'd world" where
  "GetConnectionAPI env host w =
     (case api (connections w) of
        None \<Rightarrow>
          (let w1 = logln (''['' @ IP host @ ''] connection via API'') w in
           case routeros_Dial env (IP host @ '':'' @ Itoa (PortAPI host))
                  (THost.Login host) (THost.Pass host) (dev w1) of
             (Inl err, d) \<Rightarrow>
               (Inl err, emit (Dial API False)
                  (w1\<lparr>dev := d, connections := (connections w1)\<lparr>api := None\<rparr>\<rparr>))
           | (Inr c, d) \<Rightarrow>
               (Inr c, emit (Dial API True)
                  (w1\<lparr>dev := d, connections := (connections w1)\<lparr>api := Some c\<rparr>\<rparr>)))
      | Some c \<Rightarrow> (Inr c, w))"

text \<open>\<open>Disconnect\<close> closes what is open, control-plane first, and drops the errors of
  the closes.\<close>

definition Disconnect_api :: "'d env \<Rightarrow> THost \<Rightarrow> 'd world \<Rightarrow> 'd world" where
  "Disconnect_api env host w =
     (case api (connections w) of
        None \<Rightarrow> w
      | Some c \<Rightarrow>
          (let w1 = logln (''['' @ IP host @ ''] disconnection via API'') w in
           emit (Close API)
             (w1\<lparr>dev := routeros_Close env c (dev w1),
                 connections := (connections w1)\<lparr>api := None\<rparr>\<rparr>)))"

definition Disconnect_sftp :: "'d env \<Rightarrow> THost \<Rightarrow> 'd world \<Rightarrow> 'd world" where
  "Disconnect_sftp env host w =
     (case sftp (connections w) of
        None \<Rightarrow> w
      | Some c \<Rightarrow>
          (let w1 = logln (''['' @ IP host @ ''] disconnection via SFTP'') w in
           emit (Close SFTP)
             (w1\<lparr>dev := sftp_Close env c (dev w1),
                 connections := (connections w1)\<lparr>sftp := None\<rparr>\<rparr>)))"

definition Disconnect_ssh :: "'d env \<Rightarrow> THost \<Rightarrow> 'd world \<Rightarrow> 'd world" where
  "Disconnect_ssh env host w =
     (case ssh (connections w) of
        None \<Rightarrow> w
      | Some c \<Rightarrow>
          (let w1 = logln (''['' @ IP host @ ''] disconnection via SSH'') w in
           emit (Close SSH)
             (w1\<lparr>dev := ssh_Close env c (dev w1),
                 connections := (connections w1)\<lparr>ssh := None\<rparr>\<rparr>)))"

definition Disconnect :: "'d env \<Rightarrow> THost \<Rightarrow> 'd world \<Rightarrow> 'd world" where
  "Disconnect env host w = Disconnect_ssh env host (Disconnect_sftp env host (Disconnect_api env host w))"

section \<open>Lookups in the declared state\<close>

primrec TListOfStrings_IsContain :: "TListOfStrings \<Rightarrow> string \<Rightarrow> bool" where
  "TListOfStrings_IsContain [] s = False"
| "TListOfStrings_IsContain (element # users) s =
     (if element = s then True else TListOfStrings_IsContain users s)"

primrec TGroups_IsContain :: "TGroups \<Rightarrow> string \<Rightarrow> bool" where
  "TGroups_IsContain [] grp = False"
| "TGroups_IsContain (element # groups) grp =
     (if TGroup.Name element = grp then True else TGroups_IsContain groups grp)"

primrec TUsers_IsContain :: "TUsers \<Rightarrow> string \<Rightarrow> bool" where
  "TUsers_IsContain [] user = False"
| "TUsers_IsContain (element # users) user =
     (if TUser.Login element = user then True else TUsers_IsContain users user)"

primrec TSchedules_IsContain :: "TSchedules \<Rightarrow> string \<Rightarrow> bool" where
  "TSchedules_IsContain [] name = False"
| "TSchedules_IsContain (schedule # schedules) name =
     (if TSchedule.Name schedule = name then True else TSchedules_IsContain schedules name)"

primrec TParams_GetByName :: "TParams \<Rightarrow> string \<Rightarrow> error + TParam" where
  "TParams_GetByName [] name = Inl ParamDoesNotExist"
| "TParams_GetByName (param # params) name =
     (if TParam.Name param = name then Inr param else TParams_GetByName params name)"

text \<open>\<open>GetUsersAllowed\<close>: the host's own login, then the extra logins, then the declared
  users' logins.\<close>

definition GetUsersAllowed :: "THost \<Rightarrow> TListOfStrings" where
  "GetUsersAllowed host =
     ([] @ [THost.Login host]) @ UsersAllowed host @ map TUser.Login (Users host)"

section \<open>Queries and commands on the device\<close>

definition user_of_sentence :: "sentence \<Rightarrow> TUser" where
  "user_of_sentence el =
     \<lparr>TUser.Login = Map_get el ''name'', Pass = '''', Group = Map_get el ''group'',
      Address = Map_get el ''address'', Comment = Map_get el ''comment'', Alias = '''',
      Key = ''''\<rparr>"

definition GetUsers :: "'d env \<Rightarrow> THost \<Rightarrow> 'd world \<Rightarrow> (error + TUsers) \<times> 'd world" where
  "GetUsers env host w =
     (case GetConnectionAPI env host w of
        (Inl err, w1) \<Rightarrow> (Inl err, w1)
      | (Inr connApi, w1) \<Rightarrow>
          (case connApi_Run env connApi [''/user/print''] w1 of
             (Inl err, w2) \<Rightarrow> (Inl err, w2)
           | (Inr res, w2) \<Rightarrow> (Inr (map user_of_sentence res), w2)))"

definition schedule_of_sentence :: "sentence \<Rightarrow> TSchedule" where
  "schedule_of_sentence el =
     \<lparr>TSchedule.Name = Map_get el ''name'', Disabled = '''',
      StartDate = Map_get el ''start-date'', StartTime = Map_get el ''start-time'',
      Interval = Map_get el ''interval'', Policy = Map_get el ''policy'',
      Comment = Map_get el ''comment'', Script = '''', Alias = '''',
      OnEvent = Map_get el ''on-event''\<rparr>"

definition GetSchedules :: "'d env \<Rightarrow> THost \<Rightarrow> 'd world \<Rightarrow> (error + TSchedules) \<times> 'd world" where
  "GetSchedules env host w =
     (case GetConnectionAPI env host w of
        (Inl err, w1) \<Rightarrow> (Inl err, w1)
      | (Inr connApi, w1) \<Rightarrow>
          (case connApi_Run env connApi [''/system/scheduler/print''] w1 of
             (Inl err, w2) \<Rightarrow> (Inl err, w2)
           | (Inr res, w2) \<Rightarrow> (Inr (map schedule_of_sentence res), w2)))"

definition group_of_sentence :: "sentence \<Rightarrow> TGroup" where
  "group_of_sentence el =
     \<lparr>TGroup.Name = Map_get el ''name'', Skin = Map_get el ''skin'',
      Comment = Map_get el ''comment'', Policy = Map_get el ''policy''\<rparr>"

definition GetGroups :: "'d env \<Rightarrow> THost \<Rightarrow> 'd world \<Rightarrow> (error + TGroups) \<times> 'd world" where
  "GetGroups env host w =
     (case GetConnectionAPI env host w of
        (Inl err, w1) \<Rightarrow> (Inl err, w1)
      | (Inr connApi, w1) \<Rightarrow>
          (case connApi_Run env connApi [''/user/group/print''] w1 of
             (Inl err, w2) \<Rightarrow> (Inl err, w2)
           | (Inr res, w2) \<Rightarrow> (Inr (map group_of_sentence res), w2)))"

text \<open>\<open>GeneratePassword(length)\<close> draws from \<open>math/rand\<close>; the model asks the outside
  world for the password.\<close>

definition GeneratePassword :: "'d env \<Rightarrow> nat \<Rightarrow> TUser \<Rightarrow> 'd world \<Rightarrow> TUser \<times> 'd world" where
  "GeneratePassword env n user w =
     (case rand_Password env n (dev w) of
        (p, d) \<Rightarrow> (user\<lparr>TUser.Pass := p\<rparr>, w\<lparr>dev := d\<rparr>))"

definition MakeUser_cmd :: "TUser \<Rightarrow> string list" where
  "MakeUser_cmd user =
     [''/user/add'', ''=name='' @ TUser.Login user, ''=password='' @ TUser.Pass user,
      ''=group='' @ TUser.Group user, ''=address='' @ TUser.Address user,
      ''=comment='' @ TUser.Comment user, ''=disabled=no'']"

text \<open>The first lines of \<open>MakeUser\<close>: a user declared without a password gets a
  generated one (in the copy \<open>MakeUser\<close> works on).\<close>

definition MakeUser_password :: "'d env \<Rightarrow> THost \<Rightarrow> TUser \<Rightarrow> 'd world \<Rightarrow> TUser \<times> 'd world" where
  \<open>MakeUser_password env host user w =
     (if TUser.Pass user = ''''
      then (case GeneratePassword env 512 user w of
              (u, w1) \<Rightarrow>
                (u, logln (''['' @ IP host @ ''] user "'' @ TUser.Login u
                            @ ''" password is empty and has been generated'') w1))
      else (user, w))\<close>

definition MakeUser :: "'d env \<Rightarrow> THost \<Rightarrow> TUser \<Rightarrow> 'd world \<Rightarrow> error option \<times> 'd world" where
  \<open>MakeUser env host user0 w0 =
     (case MakeUser_password env host user0
             (logln (''['' @ IP host @ ''] adding user "'' @ TUser.Login user0 @ ''"'') w0) of
        (user, w1) \<Rightarrow>
          (case GetConnectionAPI env host w1 of
             (Inl err, w2) \<Rightarrow> (Some err, w2)
           | (Inr connApi, w2) \<Rightarrow>
               (case connApi_Run env connApi (MakeUser_cmd user) w2 of
                  (Inl err, w3) \<Rightarrow> (Some err, w3)
                | (Inr res, w3) \<Rightarrow> (None, w3))))\<close>

definition MakeGroup_cmd :: "TGroup \<Rightarrow> string list" where
  "MakeGroup_cmd grp =
     [''/user/group/add'', ''=name='' @ TGroup.Name grp, ''=skin='' @ TGroup.Skin grp,
      ''=comment='' @ TGroup.Comment grp, ''=policy='' @ TGroup.Policy grp]"

definition MakeGroup :: "'d env \<Rightarrow> THost \<Rightarrow> TGroup \<Rightarrow> 'd world \<Rightarrow> error option \<times> 'd world" where
  \<open>MakeGroup env host grp w0 =
     (let w1 = logln (''['' @ IP host @ ''] adding group "'' @ TGroup.Name grp @ ''"'') w0
      in case GetConnectionAPI env host w1 of
           (Inl err, w2) \<Rightarrow> (Some err, w2)
         | (Inr connApi, w2) \<Rightarrow>
             (case connApi_Run env connApi (MakeGroup_cmd grp) w2 of
                (Inl err, w3) \<Rightarrow> (Some err, w3)
              | (Inr res, w3) \<Rightarrow> (None, w3)))\<close>

definition MakeSchedule_cmd :: "TSchedule \<Rightarrow> string list" where
  "MakeSchedule_cmd schedule =
     [''/system/scheduler/add'', ''=name='' @ TSchedule.Name schedule,
      ''=disabled='' @ Disabled schedule, ''=start-date='' @ StartDate schedule,
      ''=start-time='' @ StartTime schedule, ''=interval='' @ Interval schedule,
      ''=policy='' @ TSchedule.Policy schedule, ''=comment='' @ TSchedule.Comment schedule,
      ''=on-event='' @ OnEvent schedule]"

definition MakeSchedule :: "'d env \<Rightarrow> THost \<Rightarrow> TSchedule \<Rightarrow> 'd world \<Rightarrow> error option \<times> 'd world" where
  \<open>MakeSchedule env host schedule w0 =
     (let w1 = logln (''['' @ IP host @ ''] adding schedule "'' @ TSchedule.Name schedule @ ''"'') w0
      in case GetConnectionAPI env host w1 of
           (Inl err, w2) \<Rightarrow> (Some err, w2)
         | (Inr connApi, w2) \<Rightarrow>
             (case connApi_Run env connApi (MakeSchedule_cmd schedule) w2 of
                (Inl err, w3) \<Rightarrow> (Some err, logln (Error err) w3)
              | (Inr res, w3) \<Rightarrow> (None, w3)))\<close>

definition RemoveUser :: "'d env \<Rightarrow> THost \<Rightarrow> string \<Rightarrow> 'd world \<Rightarrow> error option \<times> 'd world" where
  \<open>RemoveUser env host user w0 =
     (case GetConnectionAPI env host w0 of
        (Inl err, w1) \<Rightarrow> (Some err, w1)
      | (Inr connApi, w1) \<Rightarrow>
          (let w2 = logln (''['' @ IP host @ ''] delete user "'' @ user @ ''"'') w1
           in case connApi_Run env connApi [''/user/remove'', ''=numbers='' @ user] w2 of
                (Inl err, w3) \<Rightarrow> (Some err, w3)
              | (Inr res, w3) \<Rightarrow> (None, w3)))\<close>

definition RemoveGroup :: "'d env \<Rightarrow> THost \<Rightarrow> string \<Rightarrow> 'd world \<Rightarrow> error option \<times> 'd world" where
  \<open>RemoveGroup env host grp w0 =
     (case GetConnectionAPI env host w0 of
        (Inl err, w1) \<Rightarrow> (Some err, w1)
      | (Inr connApi, w1) \<Rightarrow>
          (let w2 = logln (''['' @ IP host @ ''] delete group "'' @ grp @ ''"'') w1
           in case connApi_Run env connApi [''/user/group/remove'', ''=numbers='' @ grp] w2 of
                (Inl err, w3) \<Rightarrow> (Some err, w3)
              | (Inr res, w3) \<Rightarrow> (None, w3)))\<close>

definition RemoveSchedule :: "'d env \<Rightarrow> THost \<Rightarrow> string \<Rightarrow> 'd world \<Rightarrow> error option \<times> 'd world" where
  \<open>RemoveSchedule env host schedule w0 =
     (case GetConnectionAPI env host w0 of
        (Inl err, w1) \<Rightarrow> (Some err, w1)
      | (Inr connApi, w1) \<Rightarrow>
          (let w2 = logln (''['' @ IP host @ ''] delete schedule "'' @ schedule @ ''"'') w1
           in case connApi_Run env connApi [''/system/scheduler/remove'', ''=numbers='' @ schedule] w2 of
                (Inl err, w3) \<Rightarrow> (Some err, w3)
              | (Inr res, w3) \<Rightarrow> (None, w3)))\<close>

text \<open>The three membership tests on the live state. A query that fails makes them
  answer \<open>false\<close>: they have no error result.\<close>

definition IsContainUser :: "'d env \<Rightarrow> THost \<Rightarrow> TUser \<Rightarrow> 'd world \<Rightarrow> bool \<times> 'd world" where
  "IsContainUser env host user w =
     (case GetUsers env host w of
        (Inl err, w1) \<Rightarrow> (False, w1)
      | (Inr usersInside, w1) \<Rightarrow> (TUsers_IsContain usersInside (TUser.Login user), w1))"

definition IsContainGroup :: "'d env \<Rightarrow> THost \<Rightarrow> TGroup \<Rightarrow> 'd world \<Rightarrow> bool \<times> 'd world" where
  "IsContainGroup env host grp w =
     (case GetGroups env host w of
        (Inl err, w1) \<Rightarrow> (False, w1)
      | (Inr groupsInside, w1) \<Rightarrow> (TGroups_IsContain groupsInside (TGroup.Name grp), w1))"

definition IsContainSchedule :: "'d env \<Rightarrow> THost \<Rightarrow> TSchedule \<Rightarrow> 'd world \<Rightarrow> bool \<times> 'd world" where
  "IsContainSchedule env host schedule w =
     (case GetSchedules env host w of
        (Inl err, w1) \<Rightarrow> (False, w1)
      | (Inr schedulesInside, w1) \<Rightarrow>
          (TSchedules_IsContain schedulesInside (TSchedule.Name schedule), w1))"

section \<open>Reconciliation\<close>

subsection \<open>Removing what is not declared\<close>

fun CleanUsers_loop :: "'d env \<Rightarrow> THost \<Rightarrow> TListOfStrings \<Rightarrow> TUsers \<Rightarrow> 'd world \<Rightarrow> error option \<times> 'd world" where
  "CleanUsers_loop env host usersPass [] w = (None, w)"
| "CleanUsers_loop env host usersPass (user # users) w =
     (if \<not> TListOfStrings_IsContain usersPass (TUser.Login user)
      then (case RemoveUser env host (TUser.Login user) w of
              (Some err, w1) \<Rightarrow> (Some err, w1)
            | (None, w1) \<Rightarrow> CleanUsers_loop env host usersPass users w1)
      else CleanUsers_loop env host usersPass users w)"

definition CleanUsers :: "'d env \<Rightarrow> THost \<Rightarrow> 'd world \<Rightarrow> error option \<times> 'd world" where
  "CleanUsers env host w =
     (let usersPass = GetUsersAllowed host
      in case GetUsers env host w of
           (Inl err, w1) \<Rightarrow> (Some err, w1)
         | (Inr users, w1) \<Rightarrow> CleanUsers_loop env host usersPass users w1)"

fun CleanGroups_loop :: "'d env \<Rightarrow> THost \<Rightarrow> TGroups \<Rightarrow> 'd world \<Rightarrow> error option \<times> 'd world" where
  "CleanGroups_loop env host [] w = (None, w)"
| "CleanGroups_loop env host (grp # groups) w =
     (if \<not> TGroups_IsContain (Groups host) (TGroup.Name grp)
      then (case RemoveGroup env host (TGroup.Name grp) w of
              (Some err, w1) \<Rightarrow> (Some err, w1)
            | (None, w1) \<Rightarrow> CleanGroups_loop env host groups w1)
      else CleanGroups_loop env host groups w)"

definition CleanGroups :: "'d env \<Rightarrow> THost \<Rightarrow> 'd world \<Rightarrow> error option \<times> 'd world" where
  "CleanGroups env host w =
     (case GetGroups env host w of
        (Inl err, w1) \<Rightarrow> (Some err, w1)
      | (Inr groups, w1) \<Rightarrow> CleanGroups_loop env host groups w1)"

fun CleanSchedules_loop :: "'d env \<Rightarrow> THost \<Rightarrow> TSchedules \<Rightarrow> 'd world \<Rightarrow> error option \<times> 'd world" where
  "CleanSchedules_loop env host [] w = (None, w)"
| "CleanSchedules_loop env host (schedule # schedules) w =
     (if \<not> TSchedules_IsContain (Schedules host) (TSchedule.Name schedule)
      then (case RemoveSchedule env host (TSchedule.Name schedule) w of
              (Some err, w1) \<Rightarrow> (Some err, w1)
            | (None, w1) \<Rightarrow> CleanSchedules_loop env host schedules w1)
      else CleanSchedules_loop env host schedules w)"

definition CleanSchedules :: "'d env \<Rightarrow> THost \<Rightarrow> 'd world \<Rightarrow> error option \<times> 'd world" where
  "CleanSchedules env host w =
     (case GetSchedules env host w of
        (Inl err, w1) \<Rightarrow> (Some err, w1)
      | (Inr schedules, w1) \<Rightarrow> CleanSchedules_loop env host schedules w1)"

subsection \<open>Keys\<close>

definition UploadKey :: "'d env \<Rightarrow> TParams \<Rightarrow> THost \<Rightarrow> string \<Rightarrow> 'd world \<Rightarrow> error option \<times> 'd world" where
  \<open>UploadKey env params host key w0 =
     (let w1 = logln (''['' @ IP host @ ''] uploading key "'' @ key @ ''"'') w0
      in case GetConnectionSFTP env host w1 of
           (Inl err, w2) \<Rightarrow> (Some err, w2)
         | (Inr connSftp, w2) \<Rightarrow>
             (case call (sftp_Create env connSftp key) w2 of
                (Some err, w3) \<Rightarrow> (Some err, w3)
              | (None, w3) \<Rightarrow>
                  (case TParams_GetByName params ''dir_ssh-pub-keys'' of
                     Inl err \<Rightarrow> (Some err, w3)
                   | Inr dirKeys \<Rightarrow>
                       (case call (os_Open env (Value dirKeys @ key)) w3 of
                          (Some err, w4) \<Rightarrow> (Some err, w4)
                        | (None, w4) \<Rightarrow>
                            (case call (io_Copy_upload env key (Value dirKeys @ key)) w4 of
                               (Some err, w5) \<Rightarrow> (Some err, w5)
                             | (None, w5) \<Rightarrow> (None, w5))))))\<close>

definition ImportSshKey_cmd :: "TUser \<Rightarrow> string list" where
  "ImportSshKey_cmd user =
     [''/user/ssh-keys/import'', ''=public-key-file='' @ Key user, ''=user='' @ TUser.Login user]"

text \<open>
  The loop of \<open>ImportSshKey\<close>, from the counter \<open>i\<close> on. \<open>delay\<close> is the
  \<open>time.Duration\<close> the caller passes, a number of nanoseconds that the source multiplies
  by \<open>time.Millisecond\<close>. The counter is a Go \<open>int\<close>; it stays below \<open>2 ^ 63\<close>, and so
  never wraps, as long as \<open>attempts < 2 ^ 63 - 1\<close>.
\<close>

function ImportSshKey_loop ::
  "'d env \<Rightarrow> THost \<Rightarrow> TUser \<Rightarrow> int \<Rightarrow> int \<Rightarrow> int \<Rightarrow> 'd world \<Rightarrow> error option \<times> 'd world" where
  \<open>ImportSshKey_loop env host user delay attempts i w =
     (if i \<le> attempts
      then (case GetConnectionAPI env host w of
              (Inl err, w1) \<Rightarrow> (Some err, w1)
            | (Inr connApi, w1) \<Rightarrow>
                (case connApi_Run env connApi (ImportSshKey_cmd user)
                        (Sleep_ns env (int64 (delay * 1000000)) w1) of
                   (Inl err, w2) \<Rightarrow>
                     ImportSshKey_loop env host user delay attempts (i + 1)
                       (logln (''['' @ IP host @ ''] '' @ Itoa i @ '' try and ''
                                @ Itoa (int64 (i * delay)) @ '' milisecond later'')
                          (logln (''['' @ IP host @ ''] ['' @ TUser.Login user @ ''] error: "''
                                   @ Error err @ ''"'') w2))
                 | (Inr res, w2) \<Rightarrow>
                     (None, logln (''['' @ IP host @ ''] key "'' @ Key user
                                    @ ''" imported for user "'' @ TUser.Login user @ ''"'') w2)))
      else (Some AllAttemptsUsed, w))\<close>
  by pat_completeness auto
termination
  by (relation "measure (\<lambda>(env, host, user, delay, attempts, i, w). nat (attempts + 1 - i))") auto

definition ImportSshKey ::
  "'d env \<Rightarrow> THost \<Rightarrow> TUser \<Rightarrow> int \<Rightarrow> int \<Rightarrow> 'd world \<Rightarrow> error option \<times> 'd world" where
  \<open>ImportSshKey env host user delay attempts w =
     ImportSshKey_loop env host user delay attempts 1
       (logln (''['' @ IP host @ ''] try import key "'' @ Key user @ ''" for user "''
                @ TUser.Login user @ ''"'') w)\<close>

subsection \<open>Adding what is declared\<close>

fun AddUsers_loop :: "'d env \<Rightarrow> TParams \<Rightarrow> THost \<Rightarrow> TUsers \<Rightarrow> 'd world \<Rightarrow> error option \<times> 'd world" where
  \<open>AddUsers_loop env params host [] w = (None, w)\<close>
| \<open>AddUsers_loop env params host (user # users) w =
     (case IsContainUser env host user w of
        (True, w1) \<Rightarrow>
          AddUsers_loop env params host users
            (logln (''['' @ IP host @ ''] host already contain user "'' @ TUser.Login user @ ''"'') w1)
      | (False, w1) \<Rightarrow>
          (case MakeUser env host user w1 of
             (Some err, w2) \<Rightarrow>
               AddUsers_loop env params host users
                 (logln (''['' @ IP host @ ''] error: "'' @ Error err @ ''"'') w2)
           | (None, w2) \<Rightarrow>
               (if Key user \<noteq> ''''
                then (case UploadKey env params host (Key user) w2 of
                        (Some err, w3) \<Rightarrow> (Some err, w3)
                      | (None, w3) \<Rightarrow>
                          (case ImportSshKey env host user 5000 10 w3 of
                             (Some err, w4) \<Rightarrow> (Some err, w4)
                           | (None, w4) \<Rightarrow> AddUsers_loop env params host users w4))
                else AddUsers_loop env params host users w2)))\<close>

definition AddUsers :: "'d env \<Rightarrow> TParams \<Rightarrow> THost \<Rightarrow> 'd world \<Rightarrow> error option \<times> 'd world" where
  "AddUsers env params host w = AddUsers_loop env params host (Users host) w"

fun AddGroups_loop :: "'d env \<Rightarrow> THost \<Rightarrow> TGroups \<Rightarrow> 'd world \<Rightarrow> error option \<times> 'd world" where
  \<open>AddGroups_loop env host [] w = (None, w)\<close>
| \<open>AddGroups_loop env host (grp # groups) w =
     (case IsContainGroup env host grp w of
        (True, w1) \<Rightarrow>
          AddGroups_loop env host groups
            (logln (''['' @ IP host @ ''] host already contain group "'' @ TGroup.Name grp @ ''"'') w1)
      | (False, w1) \<Rightarrow>
          (case MakeGroup env host grp w1 of
             (Some err, w2) \<Rightarrow> (Some err, w2)
           | (None, w2) \<Rightarrow> AddGroups_loop env host groups w2))\<close>

definition AddGroups :: "'d env \<Rightarrow> THost \<Rightarrow> 'd world \<Rightarrow> error option \<times> 'd world" where
  "AddGroups env host w = AddGroups_loop env host (Groups host) w"

fun AddSchedules_loop :: "'d env \<Rightarrow> THost \<Rightarrow> TSchedules \<Rightarrow> 'd world \<Rightarrow> error option \<times> 'd world" where
  \<open>AddSchedules_loop env host [] w = (None, w)\<close>
| \<open>AddSchedules_loop env host (schedule # schedules) w =
     (case IsContainSchedule env host schedule w of
        (True, w1) \<Rightarrow>
          AddSchedules_loop env host schedules
            (logln (''['' @ IP host @ ''] host already contain schedule "''
                     @ TSchedule.Name schedule @ ''"'') w1)
      | (False, w1) \<Rightarrow>
          (case MakeSchedule env host schedule w1 of
             (Some err, w2) \<Rightarrow> (Some err, w2)
           | (None, w2) \<Rightarrow> AddSchedules_loop env host schedules w2))\<close>

definition AddSchedules :: "'d env \<Rightarrow> THost \<Rightarrow> 'd world \<Rightarrow> error option \<times> 'd world" where
  "AddSchedules env host w = AddSchedules_loop env host (Schedules host) w"

section \<open>Paths\<close>

text \<open>
  The functions of \<open>path/filepath\<close> the source calls, for a build where the separator is
  \<open>/\<close> and there are no volume names. \<open>filepath.ToSlash\<close> is the identity there.
\<close>

fun split_slash :: "string \<Rightarrow> string list" where
  "split_slash [] = [[]]"
| "split_slash (c # cs) =
     (if c = CHR ''/'' then [] # split_slash cs
      else (case split_slash cs of [] \<Rightarrow> [[c]] | x # xs \<Rightarrow> (c # x) # xs))"

fun join_slash :: "string list \<Rightarrow> string" where
  "join_slash [] = []"
| "join_slash [x] = x"
| "join_slash (x # y # ys) = x @ CHR ''/'' # join_slash (y # ys)"

text \<open>\<open>filepath.Clean\<close>: the elements of the path from the left, on a stack; empty
  elements and \<open>.\<close> vanish, \<open>..\<close> takes the element before it away, or stays at the
  start of a path that is not rooted.\<close>

fun Clean_elems :: "bool \<Rightarrow> string list \<Rightarrow> string list \<Rightarrow> string list" where
  "Clean_elems rooted out [] = out"
| "Clean_elems rooted out (c # cs) =
     (if c = [] \<or> c = ''.'' then Clean_elems rooted out cs
      else if c = ''..''
      then (if out \<noteq> [] \<and> last out \<noteq> ''..'' then Clean_elems rooted (butlast out) cs
            else if \<not> rooted then Clean_elems rooted (out @ [c]) cs
            else Clean_elems rooted out cs)
      else Clean_elems rooted (out @ [c]) cs)"

definition Clean :: "string \<Rightarrow> string" where
  "Clean path =
     (if path = [] then ''.''
      else (let rooted = (hd path = CHR ''/'');
                out = (if rooted then ''/'' else []) @ join_slash (Clean_elems rooted [] (split_slash path))
            in if out = [] then ''.'' else out))"

definition Dir :: "string \<Rightarrow> string" where
  "Dir path = Clean (rev (dropWhile (\<lambda>c. c \<noteq> CHR ''/'') (rev path)))"

definition Base :: "string \<Rightarrow> string" where
  "Base path =
     (if path = [] then ''.''
      else (let p = rev (dropWhile (\<lambda>c. c = CHR ''/'') (rev path));
                b = rev (takeWhile (\<lambda>c. c \<noteq> CHR ''/'') (rev p))
            in if b = [] then ''/'' else b))"

definition ToSlash :: "string \<Rightarrow> string" where
  "ToSlash path = path"

section \<open>Backup retrieval\<close>

definition MakeDir :: "'d env \<Rightarrow> THost \<Rightarrow> string \<Rightarrow> 'd world \<Rightarrow> error option \<times> 'd world" where
  "MakeDir env host dir w =
     (case GetConnectionSFTP env host w of
        (Inl err, w1) \<Rightarrow> (Some err, w1)
      | (Inr connSftp, w1) \<Rightarrow>
          (case call (sftp_MkdirAll env connSftp dir) w1 of
             (Some err, w2) \<Rightarrow> (Some err, w2)
           | (None, w2) \<Rightarrow> (None, w2)))"

definition MakeBackupFolder :: "'d env \<Rightarrow> THost \<Rightarrow> 'd world \<Rightarrow> error option \<times> 'd world" where
  "MakeBackupFolder env host w =
     (if BackupFolder host \<noteq> ''''
      then (case MakeDir env host (BackupFolder host) w of
              (Some err, w1) \<Rightarrow> (Some err, w1)
            | (None, w1) \<Rightarrow> (None, w1))
      else (None, w))"

definition DownloadFile :: "'d env \<Rightarrow> THost \<Rightarrow> string \<Rightarrow> string \<Rightarrow> bool \<Rightarrow> 'd world \<Rightarrow> error option \<times> 'd world" where
  "DownloadFile env host pathSrc0 dirDst del w =
     (let file = Base pathSrc0;
          pathSrc = ToSlash (Dir pathSrc0) @ ''/'' @ file;
          pathDst = dirDst @ ''/'' @ file
      in case GetConnectionSFTP env host w of
           (Inl err, w1) \<Rightarrow> (Some err, w1)
         | (Inr connSftp, w1) \<Rightarrow>
       (case call (sftp_Open env connSftp pathSrc) w1 of
          (Some err, w2) \<Rightarrow> (Some err, w2)
        | (None, w2) \<Rightarrow>
       (case call (os_MkdirAll env dirDst) w2 of
          (Some err, w3) \<Rightarrow> (Some err, w3)
        | (None, w3) \<Rightarrow>
       (case call (os_Create env pathDst) w3 of
          (Some err, w4) \<Rightarrow> (Some err, w4)
        | (None, w4) \<Rightarrow>
       (case call (io_Copy_download env pathDst pathSrc) w4 of
          (Some err, w5) \<Rightarrow> (Some err, w5)
        | (None, w5) \<Rightarrow>
       (case call (os_File_Sync env pathDst) w5 of
          (Some err, w6) \<Rightarrow> (Some err, w6)
        | (None, w6) \<Rightarrow>
       (case call (sftp_File_Close env pathSrc) w6 of
          (Some err, w7) \<Rightarrow> (Some err, w7)
        | (None, w7) \<Rightarrow>
       (case (if del then call (sftp_Remove env connSftp pathSrc) w7 else (None, w7)) of
          (Some err, w8) \<Rightarrow> (Some err, w8)
        | (None, w8) \<Rightarrow>
       (case call (os_File_Close env pathDst) w8 of
          (Some err, w9) \<Rightarrow> (Some err, w9)
        | (None, w9) \<Rightarrow> (None, w9))))))))))"

text \<open>
  \<open>DownloadFolder\<close> calls itself for every sub-directory that \<open>ReadDir\<close> reports, so how
  deep it goes is up to the device. The first argument bounds the depth of the calls;
  \<open>None\<close> says that the bound was reached.
\<close>

fun DownloadFolder ::
    "nat \<Rightarrow> 'd env \<Rightarrow> THost \<Rightarrow> string \<Rightarrow> string \<Rightarrow> bool \<Rightarrow> 'd world \<Rightarrow> (error option \<times> 'd world) option"
  and DownloadFolder_files ::
    "nat \<Rightarrow> 'd env \<Rightarrow> THost \<Rightarrow> string \<Rightarrow> string \<Rightarrow> bool \<Rightarrow> FileInfo list \<Rightarrow> 'd world
       \<Rightarrow> (error option \<times> 'd world) option" where
  "DownloadFolder 0 env host dirSrc dirDst del w = None"
| "DownloadFolder (Suc depth) env host dirSrc dirDst del w =
     (case GetConnectionSFTP env host w of
        (Inl err, w1) \<Rightarrow> Some (Some err, w1)
      | (Inr connSftp, w1) \<Rightarrow>
          (case sftp_ReadDir env connSftp dirSrc (dev w1) of
             (Inl err, d) \<Rightarrow> Some (Some err, w1\<lparr>dev := d\<rparr>)
           | (Inr files, d) \<Rightarrow>
               DownloadFolder_files depth env host dirSrc dirDst del files (w1\<lparr>dev := d\<rparr>)))"
| "DownloadFolder_files depth env host dirSrc dirDst del [] w = Some (None, w)"
| "DownloadFolder_files depth env host dirSrc dirDst del (file # files) w =
     (if IsDir file
      then (case DownloadFolder depth env host (dirSrc @ FName file) (dirDst @ FName file) del w of
              None \<Rightarrow> None
            | Some (Some err, w1) \<Rightarrow> Some (Some err, w1)
            | Some (None, w1) \<Rightarrow> DownloadFolder_files depth env host dirSrc dirDst del files w1)
      else (case DownloadFile env host (dirSrc @ ''/'' @ FName file) dirDst del w of
              (Some err, w1) \<Rightarrow> Some (Some err, w1)
            | (None, w1) \<Rightarrow> DownloadFolder_files depth env host dirSrc dirDst del files w1))"

section \<open>One cycle, and the loop of cycles\<close>

definition StartManager ::
  "nat \<Rightarrow> 'd env \<Rightarrow> TParams \<Rightarrow> THost \<Rightarrow> 'd world \<Rightarrow> (error option \<times> 'd world) option" where
  "StartManager depth env params host w =
     (case TParams_GetByName params ''dir_backup'' of
        Inl err \<Rightarrow> Some (Some err, w)
      | Inr dir0 \<Rightarrow>
     (let dir1 = dir0\<lparr>Value := strings_ReplaceAll (Value dir0) ''{host.name}'' (THost.Name host)\<rparr>;
          dir = dir1\<lparr>Value := strings_ReplaceAll (Value dir1) ''{host.ip}'' (IP host)\<rparr>
      in
     (case CleanUsers env host (logln (''['' @ IP host @ ''] sequence for cleaning users'') w) of
        (Some err, w1) \<Rightarrow> Some (Some err, w1)
      | (None, w1) \<Rightarrow>
     (case CleanGroups env host (logln (''['' @ IP host @ ''] sequence for cleaning groups'') w1) of
        (Some err, w2) \<Rightarrow> Some (Some err, w2)
      | (None, w2) \<Rightarrow>
     (case CleanSchedules env host (logln (''['' @ IP host @ ''] sequence for cleaning schedules'') w2) of
        (Some err, w3) \<Rightarrow> Some (Some err, w3)
      | (None, w3) \<Rightarrow>
     (case AddGroups env host (logln (''['' @ IP host @ ''] sequence for adding groups'') w3) of
        (Some err, w4) \<Rightarrow> Some (Some err, w4)
      | (None, w4) \<Rightarrow>
     (case AddUsers env params host (logln (''['' @ IP host @ ''] sequence for adding users'') w4) of
        (Some err, w5) \<Rightarrow> Some (Some err, w5)
      | (None, w5) \<Rightarrow>
     (case MakeBackupFolder env host (logln (''['' @ IP host @ ''] sequence for adding backup folder'') w5) of
        (Some err, w6) \<Rightarrow> Some (Some err, w6)
      | (None, w6) \<Rightarrow>
     (case AddSchedules env host (logln (''['' @ IP host @ ''] sequence for adding schedules'') w6) of
        (Some err, w7) \<Rightarrow> Some (Some err, w7)
      | (None, w7) \<Rightarrow>
     (case DownloadFolder depth env host (BackupFolder host) (Value dir) True
             (logln (''['' @ IP host @ ''] sequence for backup directory'') w7) of
        None \<Rightarrow> None
      | Some (Some err, w8) \<Rightarrow> Some (Some err, w8)
      | Some (None, w8) \<Rightarrow> Some (None, Disconnect env host w8)))))))))))"

text \<open>
  The body of \<open>Run\<close> up to its call of itself: one cycle and the sleep after it. The two
  readings of the clock are the one inside \<open>GetNextTime\<close> and the one in \<open>Run\<close>, in this
  order. \<open>None\<close>: the cycle did not come back, or \<open>GetNextTime\<close> panicked.
\<close>

definition Run_cycle :: "nat \<Rightarrow> 'd env \<Rightarrow> TParams \<Rightarrow> THost \<Rightarrow> 'd world \<Rightarrow> 'd world option" where
  \<open>Run_cycle depth env params host w =
     (case StartManager depth env params host w of
        None \<Rightarrow> None
      | Some (Some err, w1) \<Rightarrow>
          Some (Sleep_ns env (int64 (Expired (Task host) * 1000000000))
                  (logln (''['' @ IP host @ ''] manager error: "'' @ Error err @ ''"'') w1))
      | Some (None, w1) \<Rightarrow>
          (case time_Now_Unix env (dev w1) of
             (now1, d1) \<Rightarrow>
               (case GetNextTime now1 host of
                  None \<Rightarrow> None
                | Some next \<Rightarrow>
                    (case time_Now_Unix env d1 of
                       (now2, d2) \<Rightarrow>
                         Some (Sleep_ns env (int64 (int64 (next - now2) * 1000000000))
                                 (w1\<lparr>dev := d2\<rparr>))))))\<close>

text \<open>\<open>Run\<close> calls itself after every cycle and never returns; the model runs a given
  number of cycles.\<close>

fun Run :: "nat \<Rightarrow> nat \<Rightarrow> 'd env \<Rightarrow> TParams \<Rightarrow> THost \<Rightarrow> 'd world \<Rightarrow> 'd world option" where
  "Run 0 depth env params host w = Some w"
| "Run (Suc cycles) depth env params host w =
     (case Run_cycle depth env params host w of
        None \<Rightarrow> None
      | Some w1 \<Rightarrow> Run cycles depth env params host w1)"

section \<open>A simulated device\<close>

text \<open>
  One outside world to evaluate the model on: a router that keeps the names of its
  users, groups and schedules, a remote and a local file tree, and switches that make
  dials and commands fail. It answers as a healthy device does, except where a switch
  says otherwise.
\<close>

datatype fnode = FileN string | DirN

type_synonym ftree = "(string list \<times> fnode) list"

record sim =
  live_users :: "string list"
  live_groups :: "string list"
  live_schedules :: "string list"
  remote_fs :: ftree
  local_fs :: ftree
  api_up :: bool
  ssh_up :: bool
  sftp_up :: bool
  broken :: "string list"
  import_failures :: nat
  clock_ns :: int

text \<open>A path names the node reached by its non-empty elements from the root; the
  root is a directory.\<close>

definition path_elems :: "string \<Rightarrow> string list" where
  "path_elems p = filter (\<lambda>c. c \<noteq> [] \<and> c \<noteq> ''.'') (split_slash p)"

definition node_at :: "ftree \<Rightarrow> string list \<Rightarrow> fnode option" where
  "node_at t q = (if q = [] then Some DirN else map_of t q)"

definition entries_of :: "ftree \<Rightarrow> string list \<Rightarrow> FileInfo list" where
  "entries_of t q =
     map (\<lambda>(p, nd). \<lparr>FName = last p, IsDir = (nd = DirN)\<rparr>)
       (filter (\<lambda>(p, nd). p \<noteq> [] \<and> butlast p = q) t)"

definition put_node :: "ftree \<Rightarrow> string list \<Rightarrow> fnode \<Rightarrow> ftree" where
  "put_node t q nd = (if map_of t q = None then t @ [(q, nd)] else map (\<lambda>(p, x). if p = q then (p, nd) else (p, x)) t)"

definition del_node :: "ftree \<Rightarrow> string list \<Rightarrow> ftree" where
  "del_node t q = filter (\<lambda>(p, x). p \<noteq> q) t"

fun mkdir_all :: "ftree \<Rightarrow> string list \<Rightarrow> string list \<Rightarrow> ftree option" where
  "mkdir_all t pre [] = Some t"
| "mkdir_all t pre (c # cs) =
     (case node_at t (pre @ [c]) of
        None \<Rightarrow> mkdir_all (put_node t (pre @ [c]) DirN) (pre @ [c]) cs
      | Some DirN \<Rightarrow> mkdir_all t (pre @ [c]) cs
      | Some (FileN x) \<Rightarrow> None)"

definition create_file :: "ftree \<Rightarrow> string list \<Rightarrow> ftree option" where
  "create_file t q =
     (if q = [] \<or> node_at t (butlast q) \<noteq> Some DirN \<or> node_at t q = Some DirN then None
      else Some (put_node t q (FileN [])))"

definition sim_err :: "string \<Rightarrow> error" where
  "sim_err s = LibError s"

definition arg_value :: "string \<Rightarrow> string list \<Rightarrow> string" where
  "arg_value k args =
     (case filter (\<lambda>a. take (length k + 2) a = CHR ''='' # k @ ''='') args of
        [] \<Rightarrow> []
      | a # as \<Rightarrow> drop (length k + 2) a)"

definition names_reply :: "string list \<Rightarrow> reply" where
  "names_reply ns = map (\<lambda>n. [(''name'', n)]) ns"

definition sim_add :: "string list \<Rightarrow> string \<Rightarrow> string list option" where
  "sim_add live n = (if n \<in> set live then None else Some (live @ [n]))"

definition sim_remove :: "string list \<Rightarrow> string \<Rightarrow> string list option" where
  "sim_remove live n = (if n \<in> set live then Some (filter (\<lambda>x. x \<noteq> n) live) else None)"

definition sim_Run :: "handle \<Rightarrow> string list \<Rightarrow> sim \<Rightarrow> (error + reply) \<times> sim" where
  "sim_Run c args d =
     (let verb = (case args of [] \<Rightarrow> [] | v # as \<Rightarrow> v) in
      if verb \<in> set (broken d) then (Inl (sim_err ''failure''), d)
      else if verb = ''/user/print'' then (Inr (names_reply (live_users d)), d)
      else if verb = ''/user/group/print'' then (Inr (names_reply (live_groups d)), d)
      else if verb = ''/system/scheduler/print'' then (Inr (names_reply (live_schedules d)), d)
      else if verb = ''/user/add''
      then (case sim_add (live_users d) (arg_value ''name'' args) of
              None \<Rightarrow> (Inl (sim_err ''already exists''), d)
            | Some l \<Rightarrow> (Inr [], d\<lparr>live_users := l\<rparr>))
      else if verb = ''/user/group/add''
      then (case sim_add (live_groups d) (arg_value ''name'' args) of
              None \<Rightarrow> (Inl (sim_err ''already exists''), d)
            | Some l \<Rightarrow> (Inr [], d\<lparr>live_groups := l\<rparr>))
      else if verb = ''/system/scheduler/add''
      then (case sim_add (live_schedules d) (arg_value ''name'' args) of
              None \<Rightarrow> (Inl (sim_err ''already exists''), d)
            | Some l \<Rightarrow> (Inr [], d\<lparr>live_schedules := l\<rparr>))
      else if verb = ''/user/remove''
      then (case sim_remove (live_users d) (arg_value ''numbers'' args) of
              None \<Rightarrow> (Inl (sim_err ''no such item''), d)
            | Some l \<Rightarrow> (Inr [], d\<lparr>live_users := l\<rparr>))
      else if verb = ''/user/group/remove''
      then (case sim_remove (live_groups d) (arg_value ''numbers'' args) of
              None \<Rightarrow> (Inl (sim_err ''no such item''), d)
            | Some l \<Rightarrow> (Inr [], d\<lparr>live_groups := l\<rparr>))
      else if verb = ''/system/scheduler/remove''
      then (case sim_remove (live_schedules d) (arg_value ''numbers'' args) of
              None \<Rightarrow> (Inl (sim_err ''no such item''), d)
            | Some l \<Rightarrow> (Inr [], d\<lparr>live_schedules := l\<rparr>))
      else if verb = ''/user/ssh-keys/import''
      then (if 0 < import_failures d
            then (Inl (sim_err ''file not found''), d\<lparr>import_failures := import_failures d - 1\<rparr>)
            else (Inr [], d))
      else (Inr [], d))"

definition sim_ReadDir :: "handle \<Rightarrow> string \<Rightarrow> sim \<Rightarrow> (error + FileInfo list) \<times> sim" where
  "sim_ReadDir c p d =
     (if node_at (remote_fs d) (path_elems p) = Some DirN
      then (Inr (entries_of (remote_fs d) (path_elems p)), d)
      else (Inl (sim_err ''file does not exist''), d))"

definition sim_MkdirAll_remote :: "handle \<Rightarrow> string \<Rightarrow> sim \<Rightarrow> error option \<times> sim" where
  "sim_MkdirAll_remote c p d =
     (case mkdir_all (remote_fs d) [] (path_elems p) of
        None \<Rightarrow> (Some (sim_err ''not a directory''), d)
      | Some t \<Rightarrow> (None, d\<lparr>remote_fs := t\<rparr>))"

definition sim_MkdirAll_local :: "string \<Rightarrow> sim \<Rightarrow> error option \<times> sim" where
  "sim_MkdirAll_local p d =
     (case mkdir_all (local_fs d) [] (path_elems p) of
        None \<Rightarrow> (Some (sim_err ''not a directory''), d)
      | Some t \<Rightarrow> (None, d\<lparr>local_fs := t\<rparr>))"

definition sim_Create_remote :: "handle \<Rightarrow> string \<Rightarrow> sim \<Rightarrow> error option \<times> sim" where
  "sim_Create_remote c p d =
     (case create_file (remote_fs d) (path_elems p) of
        None \<Rightarrow> (Some (sim_err ''cannot create''), d)
      | Some t \<Rightarrow> (None, d\<lparr>remote_fs := t\<rparr>))"

definition sim_Create_local :: "string \<Rightarrow> sim \<Rightarrow> error option \<times> sim" where
  "sim_Create_local p d =
     (case create_file (local_fs d) (path_elems p) of
        None \<Rightarrow> (Some (sim_err ''cannot create''), d)
      | Some t \<Rightarrow> (None, d\<lparr>local_fs := t\<rparr>))"

definition sim_Open_remote :: "handle \<Rightarrow> string \<Rightarrow> sim \<Rightarrow> error option \<times> sim" where
  "sim_Open_remote c p d =
     (case node_at (remote_fs d) (path_elems p) of
        None \<Rightarrow> (Some (sim_err ''file does not exist''), d)
      | Some nd \<Rightarrow> (None, d))"

definition sim_Open_local :: "string \<Rightarrow> sim \<Rightarrow> error option \<times> sim" where
  "sim_Open_local p d =
     (case node_at (local_fs d) (path_elems p) of
        None \<Rightarrow> (Some (sim_err ''no such file or directory''), d)
      | Some nd \<Rightarrow> (None, d))"

definition sim_Remove :: "handle \<Rightarrow> string \<Rightarrow> sim \<Rightarrow> error option \<times> sim" where
  "sim_Remove c p d =
     (case node_at (remote_fs d) (path_elems p) of
        Some (FileN x) \<Rightarrow> (None, d\<lparr>remote_fs := del_node (remote_fs d) (path_elems p)\<rparr>)
      | Some DirN \<Rightarrow>
          (if path_elems p \<noteq> [] \<and> entries_of (remote_fs d) (path_elems p) = []
           then (None, d\<lparr>remote_fs := del_node (remote_fs d) (path_elems p)\<rparr>)
           else (Some (sim_err ''directory not empty''), d))
      | None \<Rightarrow> (Some (sim_err ''file does not exist''), d))"

definition sim_Copy_download :: "string \<Rightarrow> string \<Rightarrow> sim \<Rightarrow> error option \<times> sim" where
  "sim_Copy_download dst src d =
     (case node_at (remote_fs d) (path_elems src) of
        Some (FileN x) \<Rightarrow> (None, d\<lparr>local_fs := put_node (local_fs d) (path_elems dst) (FileN x)\<rparr>)
      | Some DirN \<Rightarrow> (Some (sim_err ''is a directory''), d)
      | None \<Rightarrow> (Some (sim_err ''file does not exist''), d))"

definition sim_Copy_upload :: "string \<Rightarrow> string \<Rightarrow> sim \<Rightarrow> error option \<times> sim" where
  "sim_Copy_upload dst src d =
     (case node_at (local_fs d) (path_elems src) of
        Some (FileN x) \<Rightarrow> (None, d\<lparr>remote_fs := put_node (remote_fs d) (path_elems dst) (FileN x)\<rparr>)
      | Some DirN \<Rightarrow> (Some (sim_err ''is a directory''), d)
      | None \<Rightarrow> (Some (sim_err ''no such file or directory''), d))"

definition sim_env :: "sim env" where
  "sim_env =
     \<lparr>routeros_Dial = (\<lambda>addr login pass d.
         if api_up d then (Inr 1, d) else (Inl (sim_err ''connection refused''), d)),
      routeros_Run = sim_Run,
      routeros_Close = (\<lambda>c d. d),
      ssh_Dial = (\<lambda>addr config d.
         if ssh_up d then (Inr 2, d) else (Inl (sim_err ''connection refused''), d)),
      ssh_Close = (\<lambda>c d. d),
      sftp_NewClient = (\<lambda>c d.
         if sftp_up d then (Inr 3, d) else (Inl (sim_err ''subsystem request failed''), d)),
      sftp_Close = (\<lambda>c d. d),
      sftp_ReadDir = sim_ReadDir,
      sftp_MkdirAll = sim_MkdirAll_remote,
      sftp_Create = sim_Create_remote,
      sftp_Open = sim_Open_remote,
      sftp_Remove = sim_Remove,
      sftp_File_Close = (\<lambda>p d. (None, d)),
      os_Open = sim_Open_local,
      os_MkdirAll = sim_MkdirAll_local,
      os_Create = sim_Create_local,
      os_File_Sync = (\<lambda>p d. (None, d)),
      os_File_Close = (\<lambda>p d. (None, d)),
      io_Copy_upload = sim_Copy_upload,
      io_Copy_download = sim_Copy_download,
      time_Sleep = (\<lambda>ns d. d\<lparr>clock_ns := clock_ns d + max 0 ns\<rparr>),
      time_Now_Unix = (\<lambda>d. (clock_ns d div 1000000000, d)),
      rand_Password = (\<lambda>n d. (replicate n (CHR ''x''), d))\<rparr>"

text \<open>A healthy device with the given names and remote files, at a given second of the
  clock, and a run that has not started: no session, no event, no log line.\<close>

definition sim_of :: "string list \<Rightarrow> string list \<Rightarrow> string list \<Rightarrow> ftree \<Rightarrow> int \<Rightarrow> sim" where
  "sim_of us gs ss files now =
     \<lparr>live_users = us, live_groups = gs, live_schedules = ss, remote_fs = files,
      local_fs = [], api_up = True, ssh_up = True, sftp_up = True, broken = [],
      import_failures = 0, clock_ns = now * 1000000000\<rparr>"

definition world_of :: "'d \<Rightarrow> 'd world" where
  "world_of d = \<lparr>connections = \<lparr>ssh = None, sftp = None, api = None\<rparr>, dev = d, trace = [], logs = []\<rparr>"

text \<open>Some declared entries.\<close>

definition user_of :: "string \<Rightarrow> string \<Rightarrow> TUser" where
  "user_of login key =
     \<lparr>TUser.Login = login, Pass = ''pw'', Group = ''full'', Address = '''', Comment = '''',
      Alias = ''all'', Key = key\<rparr>"

definition group_of :: "string \<Rightarrow> TGroup" where
  "group_of name = \<lparr>TGroup.Name = name, Skin = ''default'', Comment = '''', Policy = ''read''\<rparr>"

definition schedule_of :: "string \<Rightarrow> TSchedule" where
  "schedule_of name =
     \<lparr>TSchedule.Name = name, Disabled = ''no'', StartDate = ''jan/01/2020'',
      StartTime = ''00:00:00'', Interval = ''1d'', Policy = ''read'', Comment = '''',
      Script = ''backup.rsc'', Alias = ''all'', OnEvent = ''/system backup save''\<rparr>"

definition params_of :: "string \<Rightarrow> TParams" where
  "params_of dir =
     [\<lparr>TParam.Name = ''dir_backup'', Value = dir, Note = ''''\<rparr>,
      \<lparr>TParam.Name = ''dir_ssh-pub-keys'', Value = ''keys/'', Note = ''''\<rparr>]"

text \<open>A run in which the control-plane session is already held.\<close>

definition world_with_api :: "'d \<Rightarrow> 'd world" where
  "world_with_api d =
     \<lparr>connections = \<lparr>ssh = None, sftp = None, api = Some 1\<rparr>, dev = d,
      trace = [Dial API True], logs = []\<rparr>"

text \<open>A device on which the three \<open>print\<close> queries fail.\<close>

definition sim_blind :: sim where
  "sim_blind =
     (sim_of [''admin''] [] [] [] 0)
       \<lparr>broken := [''/user/print'', ''/user/group/print'', ''/system/scheduler/print'']\<rparr>"

section \<open>Notions the properties are stated with\<close>

text \<open>
  The sessions of a protocol that are open after a run of events: one more for every
  successful dial, one less for every close.
\<close>

definition open_sessions :: "proto \<Rightarrow> event list \<Rightarrow> int" where
  "open_sessions p tr =
     int (length (filter (\<lambda>e. e = Dial p True) tr)) - int (length (filter (\<lambda>e. e = Close p) tr))"

definition held :: "handle option \<Rightarrow> int" where
  "held h = (if h = None then 0 else 1)"

text \<open>
  The session invariant of a host: the sessions open on the outside are exactly the
  ones \<open>host.connections\<close> holds, so at most one of each kind, and a file-transfer
  session is held only together with the shell session under it.
\<close>

definition session_inv :: "'d world \<Rightarrow> bool" where
  "session_inv w =
     (open_sessions API (trace w) = held (api (connections w)) \<and>
      open_sessions SSH (trace w) = held (ssh (connections w)) \<and>
      open_sessions SFTP (trace w) = held (sftp (connections w)) \<and>
      (sftp (connections w) \<noteq> None \<longrightarrow> ssh (connections w) \<noteq> None))"

text \<open>The events a run added to the trace of the state it started from.\<close>

definition new_events :: "'d world \<Rightarrow> 'd world \<Rightarrow> event list" where
  "new_events w w' = drop (length (trace w)) (trace w')"

text \<open>The successful removal commands of one kind for a list of names, in order.\<close>

definition removals :: "string \<Rightarrow> string list \<Rightarrow> event list" where
  "removals verb names = map (\<lambda>n. Cmd [verb, ''=numbers='' @ n] True) names"

text \<open>An event is a removal command of one kind, successful or not, for a name of a
  given set.\<close>

definition removal_of :: "string \<Rightarrow> string set \<Rightarrow> event \<Rightarrow> bool" where
  "removal_of verb names ev = (\<exists>n ok. n \<in> names \<and> ev = Cmd [verb, ''=numbers='' @ n] ok)"

text \<open>
  The failure semantics the specification gives for a cycle, as a function of its own:
  named steps run in order, each announced in the log; the first step that returns an
  error ends the run, and that error is the result.
\<close>

fun run_steps ::
  "THost \<Rightarrow> (string \<times> ('d world \<Rightarrow> error option \<times> 'd world)) list \<Rightarrow> 'd world
     \<Rightarrow> error option \<times> 'd world" where
  "run_steps host [] w = (None, w)"
| "run_steps host ((what, step) # steps) w =
     (case step (logln (''['' @ IP host @ ''] sequence for '' @ what) w) of
        (Some err, w1) \<Rightarrow> (Some err, w1)
      | (None, w1) \<Rightarrow> run_steps host steps w1)"

text \<open>The steps of a cycle before the download, with the names the log gives them.\<close>

definition cycle_steps ::
  "'d env \<Rightarrow> TParams \<Rightarrow> THost \<Rightarrow> (string \<times> ('d world \<Rightarrow> error option \<times> 'd world)) list" where
  "cycle_steps env params host =
     [(''cleaning users'', CleanUsers env host),
      (''cleaning groups'', CleanGroups env host),
      (''cleaning schedules'', CleanSchedules env host),
      (''adding groups'', AddGroups env host),
      (''adding users'', AddUsers env params host),
      (''adding backup folder'', MakeBackupFolder env host),
      (''adding schedules'', AddSchedules env host)]"

text \<open>The local directory of a cycle: the parameter \<open>dir_backup\<close> with the two
  placeholders filled in.\<close>

definition backup_dir :: "THost \<Rightarrow> TParam \<Rightarrow> string" where
  "backup_dir host dir =
     strings_ReplaceAll (strings_ReplaceAll (Value dir) ''{host.name}'' (THost.Name host))
       ''{host.ip}'' (IP host)"

text \<open>A device that refuses to create users.\<close>

definition sim_no_user_add :: sim where
  "sim_no_user_add = (sim_of [''admin''] [] [] [] 0)\<lparr>broken := [''/user/add'']\<rparr>"

text \<open>A device with an intruder among its users, which cannot list its groups.\<close>

definition sim_no_group_print :: sim where
  "sim_no_group_print = (sim_of [''admin'', ''mallory''] [] [] [] 0)\<lparr>broken := [''/user/group/print'']\<rparr>"

text \<open>A device that cannot be dialled on the control plane.\<close>

definition sim_api_down :: sim where
  "sim_api_down = (sim_of [''admin'', ''mallory''] [] [] [] 5000)\<lparr>api_up := False\<rparr>"

text \<open>
  What removing a list of names does to the device, said without the host: the removal
  commands of one kind go to the device in order, each on the state the one before
  left, up to the first one the device refuses.
\<close>

fun run_removals :: "'d env \<Rightarrow> handle \<Rightarrow> string \<Rightarrow> string list \<Rightarrow> 'd \<Rightarrow> error option \<times> 'd" where
  "run_removals env c verb [] d = (None, d)"
| "run_removals env c verb (n # ns) d =
     (case routeros_Run env c [verb, ''=numbers='' @ n] d of
        (Inl err, d1) \<Rightarrow> (Some err, d1)
      | (Inr res, d1) \<Rightarrow> run_removals env c verb ns d1)"

text \<open>Two remote trees for \<open>DownloadFolder\<close>: files \<open>a/file1\<close> and \<open>a/b/file2\<close>, and a
  file three directories down, \<open>a/b/c/file3\<close>.\<close>

definition tree_a :: ftree where
  "tree_a = [([''a''], DirN), ([''a'', ''file1''], FileN ''one''), ([''a'', ''b''], DirN),
             ([''a'', ''b'', ''file2''], FileN ''two'')]"

definition tree_deep :: ftree where
  "tree_deep = [([''a''], DirN), ([''a'', ''b''], DirN), ([''a'', ''b'', ''c''], DirN),
                ([''a'', ''b'', ''c'', ''file3''], FileN ''three'')]"

text \<open>
  What the add operations are expected to do on a device that answers every command:
  going through the declared names in order, a name that is not live yet is appended to
  the live names, and a name that is live (from the start, or since an earlier
  declaration of the same name) changes nothing. \<open>expected_adds\<close> is the list of commands
  this takes: the query before every declared entry, and the creation command after it
  for an entry that is not live.
\<close>

fun add_missing :: "string list \<Rightarrow> string list \<Rightarrow> string list" where
  "add_missing [] live = live"
| "add_missing (n # ns) live = add_missing ns (if n \<in> set live then live else live @ [n])"

fun expected_adds ::
    "string list \<Rightarrow> ('a \<Rightarrow> string) \<Rightarrow> ('a \<Rightarrow> string list) \<Rightarrow> 'a list \<Rightarrow> string list \<Rightarrow> event list" where
  "expected_adds query name cmd [] live = []"
| "expected_adds query name cmd (x # xs) live =
     (if name x \<in> set live
      then Cmd query True # expected_adds query name cmd xs live
      else Cmd query True # Cmd (cmd x) True # expected_adds query name cmd xs (live @ [name x]))"

text \<open>A local tree that holds the public key \<open>keys/alice.pub\<close>.\<close>

definition keys_tree :: ftree where
  "keys_tree = [([''keys''], DirN), ([''keys'', ''alice.pub''], FileN ''ssh-rsa AAAA'')]"

text \<open>A device with that local tree, and a host that declares more than the device has:
  user \<open>bob\<close> is live and user \<open>alice\<close>, with a key, is not; group \<open>full\<close> and schedule
  \<open>nightly\<close> are live, group \<open>ops\<close> and schedule \<open>weekly\<close> are not.\<close>

definition sim_keys :: sim where
  "sim_keys = (sim_of [''admin'', ''bob''] [''full''] [''nightly''] [] 0)\<lparr>local_fs := keys_tree\<rparr>"

definition host_keys :: THost where
  "host_keys = host_of (task_of 0 3600 60) [user_of ''bob'' '''', user_of ''alice'' ''alice.pub'']
                 [group_of ''full'', group_of ''ops''] [schedule_of ''nightly'', schedule_of ''weekly'']"

section \<open>Evaluating the model\<close>

text \<open>The defining equations, collected for evaluation on concrete inputs.\<close>

lemmas model_defs =
  logln_def emit_def call_def Sleep_ns_def connApi_Run_def Itoa_def
  GetSshClientConfig_def GetConnectionSSH_def GetConnectionSFTP_def GetConnectionAPI_def
  Disconnect_api_def Disconnect_sftp_def Disconnect_ssh_def Disconnect_def
  GetUsersAllowed_def user_of_sentence_def GetUsers_def schedule_of_sentence_def GetSchedules_def
  group_of_sentence_def GetGroups_def GeneratePassword_def MakeUser_cmd_def MakeUser_password_def MakeUser_def
  MakeGroup_cmd_def MakeGroup_def MakeSchedule_cmd_def MakeSchedule_def
  RemoveUser_def RemoveGroup_def RemoveSchedule_def IsContainUser_def IsContainGroup_def
  IsContainSchedule_def CleanUsers_def CleanGroups_def CleanSchedules_def UploadKey_def
  ImportSshKey_cmd_def ImportSshKey_def AddUsers_def AddGroups_def AddSchedules_def
  Clean_def Dir_def Base_def ToSlash_def MakeDir_def MakeBackupFolder_def DownloadFile_def
  StartManager_def Run_cycle_def Map_get_def

lemmas sim_defs =
  path_elems_def node_at_def entries_of_def put_node_def del_node_def create_file_def
  sim_err_def arg_value_def names_reply_def sim_add_def sim_remove_def sim_Run_def
  sim_ReadDir_def sim_MkdirAll_remote_def sim_MkdirAll_local_def sim_Create_remote_def
  sim_Create_local_def sim_Open_remote_def sim_Open_local_def sim_Remove_def
  sim_Copy_download_def sim_Copy_upload_def sim_env_def sim_of_def world_of_def
  user_of_def group_of_def schedule_of_def params_of_def host_of_def task_of_def
  world_with_api_def sim_blind_def sim_no_user_add_def sim_no_group_print_def sim_api_down_def

declare dec.simps [simp del]
declare ImportSshKey_loop.simps [simp del]

lemmas eval_simps = model_defs sim_defs dec.simps ImportSshKey_loop.simps int64_def

section \<open>Basic facts about the state and the sessions\<close>

lemma int64_id: "- (2 ^ 63) \<le> x \<Longrightarrow> x < 2 ^ 63 \<Longrightarrow> int64 x = x"
  by (simp add: int64_def signed_take_bit_int_eq_self)

lemma sdiv_nonneg: "0 \<le> a \<Longrightarrow> 0 < b \<Longrightarrow> (a::int) sdiv b = a div b"
  by (cases "a = 0") (simp_all add: signed_divide_int_def)

lemma logln_simps [simp]:
  "connections (logln s w) = connections w"
  "dev (logln s w) = dev w"
  "trace (logln s w) = trace w"
  "logs (logln s w) = logs w @ [s]"
  by (simp_all add: logln_def)

lemma emit_simps [simp]:
  "connections (emit e w) = connections w"
  "dev (emit e w) = dev w"
  "trace (emit e w) = trace w @ [e]"
  "logs (emit e w) = logs w"
  by (simp_all add: emit_def)

subsection \<open>The three dials, case by case\<close>

lemma GetConnectionSSH_cached:
  "ssh (connections w) = Some c \<Longrightarrow> GetConnectionSSH env host w = (Inr c, w)"
  by (simp add: GetConnectionSSH_def)

lemma GetConnectionSSH_fail:
  "ssh (connections w) = None \<Longrightarrow>
   ssh_Dial env (IP host @ '':'' @ Itoa (PortSSH host)) (GetSshClientConfig host) (dev w) = (Inl err, d) \<Longrightarrow>
   GetConnectionSSH env host w =
     (Inl err, emit (Dial SSH False)
        ((logln (''['' @ IP host @ ''] connection via SSH'') w)
           \<lparr>dev := d, connections := (connections w)\<lparr>ssh := None\<rparr>\<rparr>))"
  by (simp add: GetConnectionSSH_def Let_def)

lemma GetConnectionSSH_ok:
  "ssh (connections w) = None \<Longrightarrow>
   ssh_Dial env (IP host @ '':'' @ Itoa (PortSSH host)) (GetSshClientConfig host) (dev w) = (Inr c, d) \<Longrightarrow>
   GetConnectionSSH env host w =
     (Inr c, emit (Dial SSH True)
        ((logln (''['' @ IP host @ ''] connection via SSH'') w)
           \<lparr>dev := d, connections := (connections w)\<lparr>ssh := Some c\<rparr>\<rparr>))"
  by (simp add: GetConnectionSSH_def Let_def)

lemma GetConnectionAPI_cached:
  "api (connections w) = Some c \<Longrightarrow> GetConnectionAPI env host w = (Inr c, w)"
  by (simp add: GetConnectionAPI_def)

lemma GetConnectionAPI_fail:
  "api (connections w) = None \<Longrightarrow>
   routeros_Dial env (IP host @ '':'' @ Itoa (PortAPI host))
     (THost.Login host) (THost.Pass host) (dev w) = (Inl err, d) \<Longrightarrow>
   GetConnectionAPI env host w =
     (Inl err, emit (Dial API False)
        ((logln (''['' @ IP host @ ''] connection via API'') w)
           \<lparr>dev := d, connections := (connections w)\<lparr>api := None\<rparr>\<rparr>))"
  by (simp add: GetConnectionAPI_def Let_def)

lemma GetConnectionAPI_ok:
  "api (connections w) = None \<Longrightarrow>
   routeros_Dial env (IP host @ '':'' @ Itoa (PortAPI host))
     (THost.Login host) (THost.Pass host) (dev w) = (Inr c, d) \<Longrightarrow>
   GetConnectionAPI env host w =
     (Inr c, emit (Dial API True)
        ((logln (''['' @ IP host @ ''] connection via API'') w)
           \<lparr>dev := d, connections := (connections w)\<lparr>api := Some c\<rparr>\<rparr>))"
  by (simp add: GetConnectionAPI_def Let_def)

lemma GetConnectionSFTP_cached:
  "sftp (connections w) = Some c \<Longrightarrow> GetConnectionSFTP env host w = (Inr c, w)"
  by (simp add: GetConnectionSFTP_def)

lemma GetConnectionSFTP_no_ssh:
  "sftp (connections w) = None \<Longrightarrow> GetConnectionSSH env host w = (Inl err, w1) \<Longrightarrow>
   GetConnectionSFTP env host w = (Inl err, w1)"
  by (simp add: GetConnectionSFTP_def)

lemma GetConnectionSFTP_fail:
  "sftp (connections w) = None \<Longrightarrow> GetConnectionSSH env host w = (Inr connSSH, w1) \<Longrightarrow>
   sftp_NewClient env connSSH (dev w1) = (Inl err, d) \<Longrightarrow>
   GetConnectionSFTP env host w =
     (Inl err, emit (Dial SFTP False)
        ((logln (''['' @ IP host @ ''] connection via SFTP'') w1)
           \<lparr>dev := d, connections := (connections w1)\<lparr>sftp := None\<rparr>\<rparr>))"
  by (simp add: GetConnectionSFTP_def Let_def)

lemma GetConnectionSFTP_ok:
  "sftp (connections w) = None \<Longrightarrow> GetConnectionSSH env host w = (Inr connSSH, w1) \<Longrightarrow>
   sftp_NewClient env connSSH (dev w1) = (Inr c, d) \<Longrightarrow>
   GetConnectionSFTP env host w =
     (Inr c, emit (Dial SFTP True)
        ((logln (''['' @ IP host @ ''] connection via SFTP'') w1)
           \<lparr>dev := d, connections := (connections w1)\<lparr>sftp := Some c\<rparr>\<rparr>))"
  by (simp add: GetConnectionSFTP_def Let_def)

lemma GetConnectionSSH_cases:
  obtains (cached) c where "ssh (connections w) = Some c" "GetConnectionSSH env host w = (Inr c, w)"
  | (fail) err d where "ssh (connections w) = None"
      "GetConnectionSSH env host w =
         (Inl err, emit (Dial SSH False)
            ((logln (''['' @ IP host @ ''] connection via SSH'') w)
               \<lparr>dev := d, connections := (connections w)\<lparr>ssh := None\<rparr>\<rparr>))"
  | (ok) c d where "ssh (connections w) = None"
      "GetConnectionSSH env host w =
         (Inr c, emit (Dial SSH True)
            ((logln (''['' @ IP host @ ''] connection via SSH'') w)
               \<lparr>dev := d, connections := (connections w)\<lparr>ssh := Some c\<rparr>\<rparr>))"
proof (cases "ssh (connections w)")
  case (Some c)
  then show ?thesis using cached GetConnectionSSH_cached by blast
next
  case None
  obtain r d where dial:
    "ssh_Dial env (IP host @ '':'' @ Itoa (PortSSH host)) (GetSshClientConfig host) (dev w) = (r, d)"
    by (cases "ssh_Dial env (IP host @ '':'' @ Itoa (PortSSH host)) (GetSshClientConfig host) (dev w)")
  show ?thesis
  proof (cases r)
    case (Inl e)
    then show ?thesis using fail [OF None] GetConnectionSSH_fail [OF None] dial by blast
  next
    case (Inr c)
    then show ?thesis using ok [OF None] GetConnectionSSH_ok [OF None] dial by blast
  qed
qed

lemma GetConnectionAPI_cases:
  obtains (cached) c where "api (connections w) = Some c" "GetConnectionAPI env host w = (Inr c, w)"
  | (fail) err d where "api (connections w) = None"
      "routeros_Dial env (IP host @ '':'' @ Itoa (PortAPI host))
         (THost.Login host) (THost.Pass host) (dev w) = (Inl err, d)"
      "GetConnectionAPI env host w =
         (Inl err, emit (Dial API False)
            ((logln (''['' @ IP host @ ''] connection via API'') w)
               \<lparr>dev := d, connections := (connections w)\<lparr>api := None\<rparr>\<rparr>))"
  | (ok) c d where "api (connections w) = None"
      "routeros_Dial env (IP host @ '':'' @ Itoa (PortAPI host))
         (THost.Login host) (THost.Pass host) (dev w) = (Inr c, d)"
      "GetConnectionAPI env host w =
         (Inr c, emit (Dial API True)
            ((logln (''['' @ IP host @ ''] connection via API'') w)
               \<lparr>dev := d, connections := (connections w)\<lparr>api := Some c\<rparr>\<rparr>))"
proof (cases "api (connections w)")
  case (Some c)
  then show ?thesis using cached GetConnectionAPI_cached by blast
next
  case None
  obtain r d where dial:
    "routeros_Dial env (IP host @ '':'' @ Itoa (PortAPI host))
       (THost.Login host) (THost.Pass host) (dev w) = (r, d)"
    by (cases "routeros_Dial env (IP host @ '':'' @ Itoa (PortAPI host))
       (THost.Login host) (THost.Pass host) (dev w)")
  show ?thesis
  proof (cases r)
    case (Inl e)
    then show ?thesis using fail [OF None] GetConnectionAPI_fail [OF None] dial by blast
  next
    case (Inr c)
    then show ?thesis using ok [OF None] GetConnectionAPI_ok [OF None] dial by blast
  qed
qed

lemma GetConnectionSFTP_cases:
  obtains (cached) c where "sftp (connections w) = Some c" "GetConnectionSFTP env host w = (Inr c, w)"
  | (no_ssh) err w1 where "sftp (connections w) = None"
      "GetConnectionSSH env host w = (Inl err, w1)" "GetConnectionSFTP env host w = (Inl err, w1)"
  | (fail) connSSH w1 err d where "sftp (connections w) = None"
      "GetConnectionSSH env host w = (Inr connSSH, w1)"
      "sftp_NewClient env connSSH (dev w1) = (Inl err, d)"
      "GetConnectionSFTP env host w =
         (Inl err, emit (Dial SFTP False)
            ((logln (''['' @ IP host @ ''] connection via SFTP'') w1)
               \<lparr>dev := d, connections := (connections w1)\<lparr>sftp := None\<rparr>\<rparr>))"
  | (ok) connSSH w1 c d where "sftp (connections w) = None"
      "GetConnectionSSH env host w = (Inr connSSH, w1)"
      "sftp_NewClient env connSSH (dev w1) = (Inr c, d)"
      "GetConnectionSFTP env host w =
         (Inr c, emit (Dial SFTP True)
            ((logln (''['' @ IP host @ ''] connection via SFTP'') w1)
               \<lparr>dev := d, connections := (connections w1)\<lparr>sftp := Some c\<rparr>\<rparr>))"
proof (cases "sftp (connections w)")
  case (Some c)
  then show ?thesis using cached GetConnectionSFTP_cached by blast
next
  case None
  obtain r w1 where s: "GetConnectionSSH env host w = (r, w1)"
    by (cases "GetConnectionSSH env host w")
  show ?thesis
  proof (cases r)
    case (Inl e)
    then show ?thesis using no_ssh [OF None] GetConnectionSFTP_no_ssh [OF None] s by blast
  next
    case (Inr connSSH)
    obtain r2 d where n: "sftp_NewClient env connSSH (dev w1) = (r2, d)"
      by (cases "sftp_NewClient env connSSH (dev w1)")
    show ?thesis
    proof (cases r2)
      case (Inl e)
      then show ?thesis
        using fail [OF None] GetConnectionSFTP_fail [OF None] s Inr n by blast
    next
      case (Inr c)
      then show ?thesis
        using ok [OF None] GetConnectionSFTP_ok [OF None] s \<open>r = Inr connSSH\<close> n by blast
    qed
  qed
qed

subsection \<open>Library calls as equations\<close>

lemma call_eq: "call f w = (fst (f (dev w)), w\<lparr>dev := snd (f (dev w))\<rparr>)"
  by (simp add: call_def split: prod.splits)

lemma connApi_Run_eq:
  "connApi_Run env c args w =
     (fst (routeros_Run env c args (dev w)),
      emit (Cmd args (\<not> isl (fst (routeros_Run env c args (dev w)))))
        (w\<lparr>dev := snd (routeros_Run env c args (dev w))\<rparr>))"
  by (simp add: connApi_Run_def split: prod.splits sum.splits)

lemma connApi_Run_fields [simp]:
  "fst (connApi_Run env c args w) = fst (routeros_Run env c args (dev w))"
  "connections (snd (connApi_Run env c args w)) = connections w"
  "dev (snd (connApi_Run env c args w)) = snd (routeros_Run env c args (dev w))"
  "trace (snd (connApi_Run env c args w)) =
     trace w @ [Cmd args (\<not> isl (fst (routeros_Run env c args (dev w))))]"
  "logs (snd (connApi_Run env c args w)) = logs w"
  by (simp_all add: connApi_Run_eq)

lemma call_fields [simp]:
  "fst (call f w) = fst (f (dev w))"
  "connections (snd (call f w)) = connections w"
  "dev (snd (call f w)) = snd (f (dev w))"
  "trace (snd (call f w)) = trace w"
  "logs (snd (call f w)) = logs w"
  by (simp_all add: call_eq)

lemma Sleep_ns_fields [simp]:
  "connections (Sleep_ns env ns w) = connections w"
  "dev (Sleep_ns env ns w) = time_Sleep env ns (dev w)"
  "trace (Sleep_ns env ns w) = trace w @ [Sleep ns]"
  "logs (Sleep_ns env ns w) = logs w"
  by (simp_all add: Sleep_ns_def)

subsection \<open>The trace only grows\<close>

lemma prefix_snoc [simp]: "prefix xs (xs @ ys)"
  by simp

lemma GetConnectionAPI_trace: "prefix (trace w) (trace (snd (GetConnectionAPI env host w)))"
  by (cases rule: GetConnectionAPI_cases [of w env host]) simp_all

lemma GetConnectionSSH_trace: "prefix (trace w) (trace (snd (GetConnectionSSH env host w)))"
  by (cases rule: GetConnectionSSH_cases [of w env host]) simp_all

lemma GetConnectionSFTP_trace: "prefix (trace w) (trace (snd (GetConnectionSFTP env host w)))"
proof (cases rule: GetConnectionSFTP_cases [of w env host])
  case (cached c)
  then show ?thesis by simp
next
  case (no_ssh err w1)
  then show ?thesis using GetConnectionSSH_trace [of w env host] by simp
next
  case (fail connSSH w1 err d)
  then show ?thesis using GetConnectionSSH_trace [of w env host] by simp
next
  case (ok connSSH w1 c d)
  then show ?thesis using GetConnectionSSH_trace [of w env host] by simp
qed

lemma GetConnectionAPI_held:
  "GetConnectionAPI env host w = (Inr c, w') \<Longrightarrow> api (connections w') = Some c"
  by (cases rule: GetConnectionAPI_cases [of w env host]) auto


lemma connApi_Run_trace: "prefix (trace w) (trace (snd (connApi_Run env c args w)))"
  by simp

lemma seq_trace:
  "prefix (trace w) (trace w1) \<Longrightarrow> prefix (trace w1) (trace w2) \<Longrightarrow> prefix (trace w) (trace w2)"
  by (rule prefix_order.trans)

lemma GetUsers_trace: "prefix (trace w) (trace (snd (GetUsers env host w)))"
  using GetConnectionAPI_trace [of w env host]
  by (auto simp: GetUsers_def connApi_Run_eq split: prod.splits sum.splits)

lemma GetGroups_trace: "prefix (trace w) (trace (snd (GetGroups env host w)))"
  using GetConnectionAPI_trace [of w env host]
  by (auto simp: GetGroups_def connApi_Run_eq split: prod.splits sum.splits)

lemma GetSchedules_trace: "prefix (trace w) (trace (snd (GetSchedules env host w)))"
  using GetConnectionAPI_trace [of w env host]
  by (auto simp: GetSchedules_def connApi_Run_eq split: prod.splits sum.splits)

lemma IsContainUser_trace: "prefix (trace w) (trace (snd (IsContainUser env host user w)))"
  using GetUsers_trace [of w env host]
  by (auto simp: IsContainUser_def split: prod.splits sum.splits)

lemma IsContainGroup_trace: "prefix (trace w) (trace (snd (IsContainGroup env host grp w)))"
  using GetGroups_trace [of w env host]
  by (auto simp: IsContainGroup_def split: prod.splits sum.splits)

lemma IsContainSchedule_trace: "prefix (trace w) (trace (snd (IsContainSchedule env host schedule w)))"
  using GetSchedules_trace [of w env host]
  by (auto simp: IsContainSchedule_def split: prod.splits sum.splits)

lemma MakeGroup_trace: "prefix (trace w) (trace (snd (MakeGroup env host grp w)))"
  using GetConnectionAPI_trace [of "logln (''['' @ IP host @ ''] adding group \"'' @ TGroup.Name grp @ ''\"'') w" env host]
  by (auto simp: MakeGroup_def connApi_Run_eq Let_def split: prod.splits sum.splits)

lemma MakeSchedule_trace: "prefix (trace w) (trace (snd (MakeSchedule env host schedule w)))"
  using GetConnectionAPI_trace [of "logln (''['' @ IP host @ ''] adding schedule \"'' @ TSchedule.Name schedule @ ''\"'') w" env host]
  by (auto simp: MakeSchedule_def connApi_Run_eq Let_def split: prod.splits sum.splits)


lemma GeneratePassword_eq:
  "GeneratePassword env n user w =
     (user\<lparr>TUser.Pass := fst (rand_Password env n (dev w))\<rparr>,
      w\<lparr>dev := snd (rand_Password env n (dev w))\<rparr>)"
  by (simp add: GeneratePassword_def split: prod.splits)

lemma MakeUser_password_eq:
  \<open>MakeUser_password env host user w =
     (if TUser.Pass user = ''''
      then (user\<lparr>TUser.Pass := fst (rand_Password env 512 (dev w))\<rparr>,
            logln (''['' @ IP host @ ''] user "'' @ TUser.Login user
                     @ ''" password is empty and has been generated'')
              (w\<lparr>dev := snd (rand_Password env 512 (dev w))\<rparr>))
      else (user, w))\<close>
  by (simp add: MakeUser_password_def GeneratePassword_eq)

lemma MakeUser_password_fields [simp]:
  "connections (snd (MakeUser_password env host user w)) = connections w"
  "trace (snd (MakeUser_password env host user w)) = trace w"
  by (simp_all add: MakeUser_password_eq)

lemma MakeUser_password_user:
  "\<exists>pw. fst (MakeUser_password env host user w) = user\<lparr>TUser.Pass := pw\<rparr>"
proof (cases "TUser.Pass user = []")
  case True
  then have "fst (MakeUser_password env host user w)
      = user\<lparr>TUser.Pass := fst (rand_Password env 512 (dev w))\<rparr>"
    by (simp add: MakeUser_password_eq)
  then show ?thesis by blast
next
  case False
  then have "fst (MakeUser_password env host user w) = user\<lparr>TUser.Pass := TUser.Pass user\<rparr>"
    by (simp add: MakeUser_password_eq)
  then show ?thesis by blast
qed

lemma MakeUser_trace: "prefix (trace w) (trace (snd (MakeUser env host user w)))"
proof -
  let ?w0 = "logln (''['' @ IP host @ ''] adding user \"'' @ TUser.Login user @ ''\"'') w"
  obtain u w1 where p: "MakeUser_password env host user ?w0 = (u, w1)"
    by (cases "MakeUser_password env host user ?w0")
  have "trace (snd (u, w1)) = trace ?w0" unfolding p [symmetric] by simp
  then have t: "trace w1 = trace w" by simp
  show ?thesis
    using GetConnectionAPI_trace [of w1 env host] t p
    by (auto simp: MakeUser_def connApi_Run_eq split: prod.splits sum.splits)
qed

lemma UploadKey_trace: "prefix (trace w) (trace (snd (UploadKey env params host key w)))"
  using GetConnectionSFTP_trace [of "logln (''['' @ IP host @ ''] uploading key \"'' @ key @ ''\"'') w" env host]
  by (auto simp: UploadKey_def call_eq Let_def split: prod.splits sum.splits option.splits)

lemma ImportSshKey_loop_trace:
  "prefix (trace w) (trace (snd (ImportSshKey_loop env host user delay attempts i w)))"
proof (induction env host user delay attempts i w rule: ImportSshKey_loop.induct)
  case (1 env host user delay attempts i w)
  show ?case
  proof (cases "i \<le> attempts")
    case False
    then show ?thesis by (simp add: ImportSshKey_loop.simps [of env host user delay attempts i w])
  next
    case True
    obtain r w1 where g: "GetConnectionAPI env host w = (r, w1)"
      by (cases "GetConnectionAPI env host w")
    have p1: "prefix (trace w) (trace w1)" using GetConnectionAPI_trace [of w env host] g by simp
    show ?thesis
    proof (cases r)
      case (Inl err)
      then show ?thesis using True g p1
        by (simp add: ImportSshKey_loop.simps [of env host user delay attempts i w])
    next
      case (Inr connApi)
      obtain r2 w2 where c: "connApi_Run env connApi (ImportSshKey_cmd user)
                        (Sleep_ns env (int64 (delay * 1000000)) w1) = (r2, w2)"
        by (cases "connApi_Run env connApi (ImportSshKey_cmd user)
                        (Sleep_ns env (int64 (delay * 1000000)) w1)")
      have "trace (snd (connApi_Run env connApi (ImportSshKey_cmd user)
                        (Sleep_ns env (int64 (delay * 1000000)) w1)))
              = trace w1 @ [Sleep (int64 (delay * 1000000)),
                  Cmd (ImportSshKey_cmd user) (\<not> isl (fst (routeros_Run env connApi (ImportSshKey_cmd user)
                       (time_Sleep env (int64 (delay * 1000000)) (dev w1)))))]"
        by simp
      then have p2: "prefix (trace w) (trace w2)" using p1 c by simp
      show ?thesis
      proof (cases r2)
        case (Inl err)
        have "prefix (trace w2) (trace (snd (ImportSshKey_loop env host user delay attempts (i + 1)
                       (logln (''['' @ IP host @ ''] '' @ Itoa i @ '' try and ''
                                @ Itoa (int64 (i * delay)) @ '' milisecond later'')
                          (logln (''['' @ IP host @ ''] ['' @ TUser.Login user @ ''] error: \"''
                                   @ Error err @ ''\"'') w2)))))"
          using "1.IH" [OF True g [symmetric] Inr c [symmetric] Inl] by simp
        then show ?thesis using True g Inr c Inl p2
          by (simp add: ImportSshKey_loop.simps [of env host user delay attempts i w])
      next
        case (Inr res)
        then show ?thesis using True g \<open>r = Inr connApi\<close> c p2
          by (simp add: ImportSshKey_loop.simps [of env host user delay attempts i w])
      qed
    qed
  qed
qed

lemma ImportSshKey_trace:
  "prefix (trace w) (trace (snd (ImportSshKey env host user delay attempts w)))"
  using ImportSshKey_loop_trace [of "logln (''['' @ IP host @ ''] try import key \"'' @ Key user
       @ ''\" for user \"'' @ TUser.Login user @ ''\"'') w" env host user delay attempts 1]
  by (simp add: ImportSshKey_def)

lemma AddGroups_loop_trace: "prefix (trace w) (trace (snd (AddGroups_loop env host groups w)))"
proof (induction groups arbitrary: w)
  case Nil
  show ?case by simp
next
  case (Cons grp groups)
  obtain b w1 where i: "IsContainGroup env host grp w = (b, w1)"
    by (cases "IsContainGroup env host grp w")
  have p1: "prefix (trace w) (trace w1)" using IsContainGroup_trace [of w env host grp] i by simp
  show ?case
  proof (cases b)
    case True
    show ?thesis using True i p1
        Cons.IH [of "logln (''['' @ IP host @ ''] host already contain group \"'' @ TGroup.Name grp @ ''\"'') w1"]
      by (auto intro: prefix_order.trans)
  next
    case False
    obtain r w2 where m: "MakeGroup env host grp w1 = (r, w2)" by (cases "MakeGroup env host grp w1")
    have p2: "prefix (trace w) (trace w2)"
      using MakeGroup_trace [of w1 env host grp] m p1 by (auto intro: prefix_order.trans)
    show ?thesis using False i m p2 Cons.IH [of w2]
      by (cases r) (auto intro: prefix_order.trans)
  qed
qed

lemma AddSchedules_loop_trace:
  "prefix (trace w) (trace (snd (AddSchedules_loop env host schedules w)))"
proof (induction schedules arbitrary: w)
  case Nil
  show ?case by simp
next
  case (Cons schedule schedules)
  obtain b w1 where i: "IsContainSchedule env host schedule w = (b, w1)"
    by (cases "IsContainSchedule env host schedule w")
  have p1: "prefix (trace w) (trace w1)"
    using IsContainSchedule_trace [of w env host schedule] i by simp
  show ?case
  proof (cases b)
    case True
    show ?thesis using True i p1
        Cons.IH [of "logln (''['' @ IP host @ ''] host already contain schedule \"''
                     @ TSchedule.Name schedule @ ''\"'') w1"]
      by (auto intro: prefix_order.trans)
  next
    case False
    obtain r w2 where m: "MakeSchedule env host schedule w1 = (r, w2)"
      by (cases "MakeSchedule env host schedule w1")
    have p2: "prefix (trace w) (trace w2)"
      using MakeSchedule_trace [of w1 env host schedule] m p1 by (auto intro: prefix_order.trans)
    show ?thesis using False i m p2 Cons.IH [of w2]
      by (cases r) (auto intro: prefix_order.trans)
  qed
qed

lemma AddUsers_loop_trace:
  "prefix (trace w) (trace (snd (AddUsers_loop env params host users w)))"
proof (induction users arbitrary: w)
  case Nil
  show ?case by simp
next
  case (Cons user users)
  obtain b w1 where i: "IsContainUser env host user w = (b, w1)"
    by (cases "IsContainUser env host user w")
  have p1: "prefix (trace w) (trace w1)" using IsContainUser_trace [of w env host user] i by simp
  show ?case
  proof (cases b)
    case True
    show ?thesis using True i p1
        Cons.IH [of "logln (''['' @ IP host @ ''] host already contain user \"'' @ TUser.Login user @ ''\"'') w1"]
      by (auto intro: prefix_order.trans)
  next
    case False
    obtain r w2 where m: "MakeUser env host user w1 = (r, w2)" by (cases "MakeUser env host user w1")
    have p2: "prefix (trace w) (trace w2)"
      using MakeUser_trace [of w1 env host user] m p1 by (auto intro: prefix_order.trans)
    show ?thesis
    proof (cases r)
      case (Some err)
      show ?thesis using False i m Some p2
          Cons.IH [of "logln (''['' @ IP host @ ''] error: \"'' @ Error err @ ''\"'') w2"]
        by (auto intro: prefix_order.trans)
    next
      case None
      show ?thesis
      proof (cases "Key user = []")
        case True
        then show ?thesis using False i m None p2 Cons.IH [of w2]
          by (auto intro: prefix_order.trans)
      next
        case nokey: False
        obtain r3 w3 where u: "UploadKey env params host (Key user) w2 = (r3, w3)"
          by (cases "UploadKey env params host (Key user) w2")
        have p3: "prefix (trace w) (trace w3)"
          using UploadKey_trace [of w2 env params host "Key user"] u p2
          by (auto intro: prefix_order.trans)
        obtain r4 w4 where k: "ImportSshKey env host user 5000 10 w3 = (r4, w4)"
          by (cases "ImportSshKey env host user 5000 10 w3")
        have p4: "prefix (trace w) (trace w4)"
          using ImportSshKey_trace [of w3 env host user 5000 10] k p3
          by (auto intro: prefix_order.trans)
        show ?thesis using False i m None nokey u k p3 p4 Cons.IH [of w4]
          by (cases r3; cases r4) (auto intro: prefix_order.trans)
      qed
    qed
  qed
qed

subsection \<open>With the control-plane session held\<close>

lemma GetUsers_held:
  "api (connections w) = Some c \<Longrightarrow>
   GetUsers env host w =
     (case fst (routeros_Run env c [''/user/print''] (dev w)) of
        Inl err \<Rightarrow> Inl err | Inr res \<Rightarrow> Inr (map user_of_sentence res),
      snd (connApi_Run env c [''/user/print''] w))"
  by (simp add: GetUsers_def GetConnectionAPI_cached connApi_Run_eq split: sum.splits)

lemma GetGroups_held:
  "api (connections w) = Some c \<Longrightarrow>
   GetGroups env host w =
     (case fst (routeros_Run env c [''/user/group/print''] (dev w)) of
        Inl err \<Rightarrow> Inl err | Inr res \<Rightarrow> Inr (map group_of_sentence res),
      snd (connApi_Run env c [''/user/group/print''] w))"
  by (simp add: GetGroups_def GetConnectionAPI_cached connApi_Run_eq split: sum.splits)

lemma GetSchedules_held:
  "api (connections w) = Some c \<Longrightarrow>
   GetSchedules env host w =
     (case fst (routeros_Run env c [''/system/scheduler/print''] (dev w)) of
        Inl err \<Rightarrow> Inl err | Inr res \<Rightarrow> Inr (map schedule_of_sentence res),
      snd (connApi_Run env c [''/system/scheduler/print''] w))"
  by (simp add: GetSchedules_def GetConnectionAPI_cached connApi_Run_eq split: sum.splits)

lemma MakeGroup_held:
  "api (connections w) = Some c \<Longrightarrow>
   MakeGroup env host grp w =
     (case fst (routeros_Run env c (MakeGroup_cmd grp) (dev w)) of
        Inl err \<Rightarrow> Some err | Inr res \<Rightarrow> None,
      snd (connApi_Run env c (MakeGroup_cmd grp)
             (logln (''['' @ IP host @ ''] adding group \"'' @ TGroup.Name grp @ ''\"'') w)))"
  by (simp add: MakeGroup_def GetConnectionAPI_cached connApi_Run_eq split: sum.splits)

lemma MakeUser_held:
  "api (connections w) = Some c \<Longrightarrow>
   \<exists>pw u w1. u = user\<lparr>TUser.Pass := pw\<rparr> \<and> trace w1 = trace w \<and> connections w1 = connections w \<and>
     MakeUser env host user w =
       (case fst (routeros_Run env c (MakeUser_cmd u) (dev w1)) of
          Inl err \<Rightarrow> Some err | Inr res \<Rightarrow> None,
        snd (connApi_Run env c (MakeUser_cmd u) w1))"
proof -
  assume h: "api (connections w) = Some c"
  let ?w0 = "logln (''['' @ IP host @ ''] adding user \"'' @ TUser.Login user @ ''\"'') w"
  obtain u w1 where p: "MakeUser_password env host user ?w0 = (u, w1)"
    by (cases "MakeUser_password env host user ?w0")
  have "trace (snd (u, w1)) = trace ?w0" "connections (snd (u, w1)) = connections ?w0"
    unfolding p [symmetric] by simp_all
  then have t: "trace w1 = trace w" and c: "connections w1 = connections w" by simp_all
  obtain pw where u: "u = user\<lparr>TUser.Pass := pw\<rparr>"
    using MakeUser_password_user [of env host user ?w0] p by auto
  have "MakeUser env host user w =
       (case fst (routeros_Run env c (MakeUser_cmd u) (dev w1)) of
          Inl err \<Rightarrow> Some err | Inr res \<Rightarrow> None,
        snd (connApi_Run env c (MakeUser_cmd u) w1))"
    using h c p by (simp add: MakeUser_def GetConnectionAPI_cached connApi_Run_eq split: sum.splits)
  then show ?thesis using u t c by blast
qed

lemma MakeSchedule_held:
  "api (connections w) = Some c \<Longrightarrow>
   \<exists>w2. trace w2 = trace w @ [Cmd (MakeSchedule_cmd schedule)
                   (\<not> isl (fst (routeros_Run env c (MakeSchedule_cmd schedule) (dev w))))] \<and>
     MakeSchedule env host schedule w =
       (case fst (routeros_Run env c (MakeSchedule_cmd schedule) (dev w)) of
          Inl err \<Rightarrow> Some err | Inr res \<Rightarrow> None, w2)"
  by (auto simp: MakeSchedule_def GetConnectionAPI_cached connApi_Run_eq split: sum.splits)

lemma new_events_append [simp]: "trace w' = trace w @ evs \<Longrightarrow> new_events w w' = evs"
  by (simp add: new_events_def)

lemma new_events_self [simp]: "new_events w w = []"
  by (simp add: new_events_def)

lemma TListOfStrings_IsContain_set [simp]: "TListOfStrings_IsContain xs s = (s \<in> set xs)"
  by (induction xs) auto

lemma TGroups_IsContain_set [simp]: "TGroups_IsContain gs n = (n \<in> TGroup.Name ` set gs)"
  by (induction gs) auto

lemma TUsers_IsContain_set [simp]: "TUsers_IsContain us n = (n \<in> TUser.Login ` set us)"
  by (induction us) auto

lemma TSchedules_IsContain_set [simp]: "TSchedules_IsContain ss n = (n \<in> TSchedule.Name ` set ss)"
  by (induction ss) auto

lemma set_GetUsersAllowed:
  "set (GetUsersAllowed host)
     = {THost.Login host} \<union> set (UsersAllowed host) \<union> TUser.Login ` set (Users host)"
  by (auto simp: GetUsersAllowed_def)

text \<open>A successful query leaves the session held.\<close>

lemma GetUsers_ok_held: "GetUsers env host w = (Inr live, w1) \<Longrightarrow> \<exists>c. api (connections w1) = Some c"
  by (auto simp: GetUsers_def connApi_Run_eq split: prod.splits sum.splits dest: GetConnectionAPI_held)

lemma GetGroups_ok_held: "GetGroups env host w = (Inr live, w1) \<Longrightarrow> \<exists>c. api (connections w1) = Some c"
  by (auto simp: GetGroups_def connApi_Run_eq split: prod.splits sum.splits dest: GetConnectionAPI_held)

lemma GetSchedules_ok_held: "GetSchedules env host w = (Inr live, w1) \<Longrightarrow> \<exists>c. api (connections w1) = Some c"
  by (auto simp: GetSchedules_def connApi_Run_eq split: prod.splits sum.splits dest: GetConnectionAPI_held)

text \<open>A removal with the session held: one command, and nothing else changes.\<close>

lemma RemoveUser_held:
  "api (connections w) = Some c \<Longrightarrow>
   \<exists>w'. RemoveUser env host n w =
          (case fst (routeros_Run env c [''/user/remove'', ''=numbers='' @ n] (dev w)) of
             Inl err \<Rightarrow> Some err | Inr res \<Rightarrow> None, w')
      \<and> connections w' = connections w
      \<and> trace w' = trace w @ [Cmd [''/user/remove'', ''=numbers='' @ n]
                     (\<not> isl (fst (routeros_Run env c [''/user/remove'', ''=numbers='' @ n] (dev w))))]"
  by (auto simp: RemoveUser_def GetConnectionAPI_cached connApi_Run_eq Let_def split: sum.splits)

lemma RemoveGroup_held:
  "api (connections w) = Some c \<Longrightarrow>
   \<exists>w'. RemoveGroup env host n w =
          (case fst (routeros_Run env c [''/user/group/remove'', ''=numbers='' @ n] (dev w)) of
             Inl err \<Rightarrow> Some err | Inr res \<Rightarrow> None, w')
      \<and> connections w' = connections w
      \<and> trace w' = trace w @ [Cmd [''/user/group/remove'', ''=numbers='' @ n]
                     (\<not> isl (fst (routeros_Run env c [''/user/group/remove'', ''=numbers='' @ n] (dev w))))]"
  by (auto simp: RemoveGroup_def GetConnectionAPI_cached connApi_Run_eq Let_def split: sum.splits)

lemma RemoveSchedule_held:
  "api (connections w) = Some c \<Longrightarrow>
   \<exists>w'. RemoveSchedule env host n w =
          (case fst (routeros_Run env c [''/system/scheduler/remove'', ''=numbers='' @ n] (dev w)) of
             Inl err \<Rightarrow> Some err | Inr res \<Rightarrow> None, w')
      \<and> connections w' = connections w
      \<and> trace w' = trace w @ [Cmd [''/system/scheduler/remove'', ''=numbers='' @ n]
                     (\<not> isl (fst (routeros_Run env c [''/system/scheduler/remove'', ''=numbers='' @ n] (dev w))))]"
  by (auto simp: RemoveSchedule_def GetConnectionAPI_cached connApi_Run_eq Let_def split: sum.splits)

subsection \<open>The cycle as a run of steps\<close>

lemma res_case_None:
  "fst x = None \<Longrightarrow> (case x of (Some err, w1) \<Rightarrow> f err w1 | (None, w1) \<Rightarrow> g w1) = g (snd x)"
  by (cases x) simp

lemma res_case_Some:
  "fst x = Some e \<Longrightarrow> (case x of (Some err, w1) \<Rightarrow> f err w1 | (None, w1) \<Rightarrow> g w1) = f e (snd x)"
  by (cases x) simp

lemma StartManager_run_steps:
  "StartManager depth env params host w =
     (case TParams_GetByName params ''dir_backup'' of
        Inl err \<Rightarrow> Some (Some err, w)
      | Inr dir \<Rightarrow>
          (case run_steps host (cycle_steps env params host) w of
             (Some err, w1) \<Rightarrow> Some (Some err, w1)
           | (None, w1) \<Rightarrow>
               (case DownloadFolder depth env host (BackupFolder host) (backup_dir host dir) True
                       (logln (''['' @ IP host @ ''] sequence for backup directory'') w1) of
                  None \<Rightarrow> None
                | Some (Some err, w2) \<Rightarrow> Some (Some err, w2)
                | Some (None, w2) \<Rightarrow> Some (None, Disconnect env host w2))))"
  by (simp add: StartManager_def cycle_steps_def backup_dir_def Let_def
        split: sum.splits prod.splits option.splits)

lemma run_steps_abort:
  "run_steps host pre w = (None, w1) \<Longrightarrow>
   step (logln (''['' @ IP host @ ''] sequence for '' @ what) w1) = (Some err, w2) \<Longrightarrow>
   run_steps host (pre @ (what, step) # post) w = (Some err, w2)"
proof (induction pre arbitrary: w)
  case Nil
  then show ?case by simp
next
  case (Cons a pre)
  obtain n s where a: "a = (n, s)" by (cases a)
  obtain r wa where s: "s (logln (''['' @ IP host @ ''] sequence for '' @ n) w) = (r, wa)"
    by (cases "s (logln (''['' @ IP host @ ''] sequence for '' @ n) w)")
  show ?case
  proof (cases r)
    case None
    then have "run_steps host pre wa = (None, w1)" using Cons.prems(1) a s by simp
    then show ?thesis using Cons.IH [OF _ Cons.prems(2)] a s None by simp
  next
    case (Some e)
    then show ?thesis using Cons.prems(1) a s by simp
  qed
qed

section \<open>Properties of the next scheduled instant\<close>

lemma GetNextTime_formula:
  assumes d: "0 < Delay (Task host)" and s: "Start (Task host) \<le> now"
    and lo: "- (2 ^ 63) \<le> Start (Task host)"
    and hi1: "now - Start (Task host) + Delay (Task host) < 2 ^ 63"
    and hi2: "now + Delay (Task host) < 2 ^ 63"
  shows "GetNextTime now host =
     Some (Start (Task host) + ((now - Start (Task host)) div Delay (Task host) + 1) * Delay (Task host))"
proof -
  define st where "st = Start (Task host)"
  define dl where "dl = Delay (Task host)"
  define q where "q = (now - st) div dl"
  define m where "m = (now - st) mod dl"
  have d': "0 < dl" and s': "st \<le> now" and lo': "- (2 ^ 63) \<le> st"
    and h1: "now - st + dl < 2 ^ 63" and h2: "now + dl < 2 ^ 63"
    using assms by (simp_all add: st_def dl_def)
  have q0: "0 \<le> q" using d' s' by (simp add: q_def pos_imp_zdiv_nonneg_iff)
  have m0: "0 \<le> m" and m1: "m < dl" using d' by (simp_all add: m_def)
  have eq: "now - st = q * dl + m" by (simp add: q_def m_def)
  have p0: "0 \<le> q * dl" using q0 d' by simp
  have qq: "q \<le> q * dl" using q0 d' by (simp add: mult_le_cancel_left1)
  have ex: "(q + 1) * dl = q * dl + dl" by (simp add: algebra_simps)
  have a: "int64 (now - st) = now - st"
    using s' h1 d' by (intro int64_id) auto
  have b0: "(now - st) sdiv dl = q"
    using s' d' by (simp add: sdiv_nonneg q_def)
  have b1: "int64 q = q"
    using q0 qq eq m0 h1 d' by (intro int64_id) auto
  have b: "go_div64 (now - st) dl = q"
    by (simp add: go_div64_def b0 b1)
  have c: "int64 (q + 1) = q + 1"
    using q0 qq eq m0 h1 d' by (intro int64_id) auto
  have e: "int64 ((q + 1) * dl) = (q + 1) * dl"
    unfolding ex using p0 eq m0 h1 d' by (intro int64_id) auto
  have f: "int64 ((q + 1) * dl + st) = (q + 1) * dl + st"
    unfolding ex using p0 eq m0 h1 h2 d' lo' by (intro int64_id) auto
  show ?thesis
    using d' a b c e f
    by (simp add: GetNextTime_def st_def[symmetric] dl_def[symmetric] q_def[symmetric] add.commute)
qed


lemma aligned_unique:
  fixes q j dl x :: int
  assumes d: "0 < dl" and lo: "q * dl \<le> x" and hi: "x < (q + 1) * dl"
    and j1: "x < j * dl" and j2: "j * dl - dl \<le> x"
  shows "j = q + 1"
proof -
  have "q * dl < j * dl" using lo j1 by simp
  then have a: "q < j" using d by (simp add: mult_less_cancel_right)
  have "(j - 1) * dl < (q + 1) * dl" using j2 hi by (simp add: algebra_simps)
  then have b: "j - 1 < q + 1" using d by (simp add: mult_less_cancel_right)
  show ?thesis using a b by simp
qed

text \<open>
  Claim C1, as the code has it. For a positive period, a current time at or after the
  anchor, and values for which no 64-bit operation overflows, \<open>GetNextTime\<close> returns
  the unique anchor-aligned instant \<open>start + k * delay\<close> that lies strictly after
  \<open>now\<close> and at most one period after it: \<open>now < result\<close> and
  \<open>result - delay \<le> now\<close>. (The claim's inequalities, \<open>result \<ge> now\<close> and
  \<open>result - delay < now\<close>, fail when \<open>now\<close> is itself aligned; see the
  counterexample below.) For \<open>start = 0\<close>, \<open>delay = 3600\<close>, \<open>now = 5000\<close> the result
  is 7200.
\<close>

theorem GetNextTime_anchor_aligned:
  assumes d: "0 < Delay (Task host)" and s: "Start (Task host) \<le> now"
    and lo: "- (2 ^ 63) \<le> Start (Task host)"
    and hi1: "now - Start (Task host) + Delay (Task host) < 2 ^ 63"
    and hi2: "now + Delay (Task host) < 2 ^ 63"
  shows "\<exists>k. GetNextTime now host = Some (Start (Task host) + k * Delay (Task host))
           \<and> now < Start (Task host) + k * Delay (Task host)
           \<and> Start (Task host) + k * Delay (Task host) - Delay (Task host) \<le> now
           \<and> (\<forall>j. now < Start (Task host) + j * Delay (Task host)
                  \<and> Start (Task host) + j * Delay (Task host) - Delay (Task host) \<le> now
                \<longrightarrow> j = k)"
proof -
  define st where "st = Start (Task host)"
  define dl where "dl = Delay (Task host)"
  define q where "q = (now - st) div dl"
  define m where "m = (now - st) mod dl"
  have d': "0 < dl" using d by (simp add: dl_def)
  have m0: "0 \<le> m" and m1: "m < dl" using d' by (simp_all add: m_def)
  have eq: "now - st = q * dl + m" by (simp add: q_def m_def)
  have lo': "q * dl \<le> now - st" using eq m0 by simp
  have hi': "now - st < (q + 1) * dl" using eq m1 by (simp add: algebra_simps)
  have r: "GetNextTime now host = Some (st + (q + 1) * dl)"
    using GetNextTime_formula [OF assms] by (simp add: st_def dl_def q_def)
  have gt: "now < st + (q + 1) * dl" using hi' by simp
  have le: "st + (q + 1) * dl - dl \<le> now" using lo' by (simp add: algebra_simps)
  have un: "j = q + 1"
    if "now < st + j * dl \<and> st + j * dl - dl \<le> now" for j
  proof (rule aligned_unique [OF d' lo' hi'])
    show "now - st < j * dl" using that by simp
    show "j * dl - dl \<le> now - st" using that by simp
  qed
  show ?thesis
    unfolding st_def[symmetric] dl_def[symmetric]
    using r gt le un by blast
qed

lemma Task_host_of [simp]:
  "Start (Task (host_of (task_of s d e) us gs ss)) = s"
  "Delay (Task (host_of (task_of s d e) us gs ss)) = d"
  "Expired (Task (host_of (task_of s d e) us gs ss)) = e"
  by (simp_all add: host_of_def task_of_def)

lemma GetNextTime_example: "GetNextTime 5000 (host_of (task_of 0 3600 60) [] [] []) = Some 7200"
  by (simp add: GetNextTime_def host_of_def task_of_def go_div64_def int64_def signed_divide_int_def)

text \<open>The claim's own example, \<open>start = 0\<close>, \<open>delay = 3600\<close>, \<open>now = 5000\<close>.\<close>

theorem GetNextTime_anchor_aligned_witness:
  "GetNextTime 5000 (host_of (task_of 0 3600 60) [] [] []) = Some (0 + 2 * 3600)
   \<and> (\<exists>k. GetNextTime 5000 (host_of (task_of 0 3600 60) [] [] []) = Some (0 + k * 3600)
           \<and> 5000 < 0 + k * 3600 \<and> 0 + k * 3600 - 3600 \<le> 5000
           \<and> (\<forall>j. 5000 < 0 + j * 3600 \<and> 0 + j * 3600 - 3600 \<le> 5000 \<longrightarrow> j = k))"
  using GetNextTime_anchor_aligned [of "host_of (task_of 0 3600 60) [] [] []" 5000]
        GetNextTime_example
  by simp

text \<open>
  At an aligned \<open>now\<close> the code skips to the following instant: for \<open>now = 7200\<close> it
  returns 10800, and \<open>10800 - 3600 < 7200\<close> is false, although the aligned instant 7200
  meets both inequalities of the claim.
\<close>

theorem GetNextTime_aligned_now_counterexample:
  "GetNextTime 7200 (host_of (task_of 0 3600 60) [] [] []) = Some 10800
   \<and> \<not> ((10800::int) - 3600 < 7200)
   \<and> (7200::int) = 0 + 2 * 3600 \<and> (7200::int) \<ge> 7200 \<and> (7200::int) - 3600 < 7200"
  by (simp add: GetNextTime_def host_of_def task_of_def go_div64_def int64_def signed_divide_int_def)

text \<open>
  Why the hypotheses: Go truncates the quotient towards zero, so before the anchor the
  result is one period further than the law allows; and near the top of the 64-bit
  range the product wraps.
\<close>

lemma GetNextTime_before_anchor:
  "GetNextTime (- 5000) (host_of (task_of 0 3600 60) [] [] []) = Some 0
   \<and> \<not> ((0::int) - 3600 \<le> - 5000)"
  by (simp add: GetNextTime_def host_of_def task_of_def go_div64_def int64_def signed_divide_int_def)

lemma GetNextTime_overflow:
  "GetNextTime (2 ^ 63 - 1) (host_of (task_of 0 3600 60) [] [] []) = Some (- 9223372036854774016)"
  by (simp add: GetNextTime_def host_of_def task_of_def go_div64_def int64_def signed_divide_int_def)

section \<open>Downloading a folder\<close>

text \<open>With both directories written with a slash at the end, one level of
  sub-directories is downloaded: the path of the sub-directory is the directory's text
  followed by the entry's name.\<close>

lemma DownloadFolder_one_level_with_slashes:
  "DownloadFolder (Suc (Suc (Suc 0))) sim_env (host_of (task_of 0 3600 60) [] [] []) ''a/'' ''dst/'' True
         (world_of (sim_of [] [] [] tree_a 0))
   = Some (None,
       \<lparr>connections = \<lparr>ssh = Some 2, sftp = Some 3, api = None\<rparr>,
        dev = (sim_of [] [] [] [([''a''], DirN), ([''a'', ''b''], DirN)] 0)
                \<lparr>local_fs := [([''dst''], DirN), ([''dst'', ''file1''], FileN ''one''),
                              ([''dst'', ''b''], DirN), ([''dst'', ''b'', ''file2''], FileN ''two'')]\<rparr>,
        trace = [Dial SSH True, Dial SFTP True],
        logs = [''[10.0.0.1] connection via SSH'', ''[10.0.0.1] connection via SFTP'']\<rparr>)"
  by (simp add: eval_simps tree_a_def)

text \<open>
  Claim C2. \<open>DownloadFolder\<close> does not reproduce every remote tree. For a sub-directory it
  calls itself on \<open>dirSrc + name\<close> and \<open>dirDst + name\<close>, with no separator, where for a
  file it uses \<open>dirSrc + "/" + name\<close>. On the tree \<open>a/file1\<close>, \<open>a/b/file2\<close>, from remote
  \<open>a\<close> to local \<open>dst\<close> with deletion: \<open>file1\<close> is copied and deleted, then the directory
  \<open>ab\<close> is listed, which does not exist; the call returns that error, \<open>a/b/file2\<close> is
  still on the device and is not in the local tree. With a slash at the end of both
  directories the same happens one level further down: on \<open>a/b/c/file3\<close> the directory
  \<open>a/bc\<close> is listed and nothing is copied.
\<close>

theorem DownloadFolder_subdirectory_without_separator:
  "DownloadFolder (Suc (Suc (Suc 0))) sim_env (host_of (task_of 0 3600 60) [] [] []) ''a'' ''dst'' True
         (world_of (sim_of [] [] [] tree_a 0))
   = Some (Some (LibError ''file does not exist''),
       \<lparr>connections = \<lparr>ssh = Some 2, sftp = Some 3, api = None\<rparr>,
        dev = (sim_of [] [] [] [([''a''], DirN), ([''a'', ''b''], DirN), ([''a'', ''b'', ''file2''], FileN ''two'')] 0)
                \<lparr>local_fs := [([''dst''], DirN), ([''dst'', ''file1''], FileN ''one'')]\<rparr>,
        trace = [Dial SSH True, Dial SFTP True],
        logs = [''[10.0.0.1] connection via SSH'', ''[10.0.0.1] connection via SFTP'']\<rparr>)
   \<and> DownloadFolder (Suc (Suc (Suc (Suc 0)))) sim_env (host_of (task_of 0 3600 60) [] [] []) ''a/'' ''dst/'' True
         (world_of (sim_of [] [] [] tree_deep 0))
   = Some (Some (LibError ''file does not exist''),
       \<lparr>connections = \<lparr>ssh = Some 2, sftp = Some 3, api = None\<rparr>,
        dev = sim_of [] [] [] tree_deep 0,
        trace = [Dial SSH True, Dial SFTP True],
        logs = [''[10.0.0.1] connection via SSH'', ''[10.0.0.1] connection via SFTP'']\<rparr>)"
  by (simp add: eval_simps tree_a_def tree_deep_def)

section \<open>Failures inside a cycle\<close>

text \<open>
  Claim C3, as the code has it. \<open>StartManager\<close> is the specification's run of steps:
  the lookup of \<open>dir_backup\<close>, the seven reconciliation steps, the download, the
  disconnect; an error returned by any of them ends the cycle there and is the result
  of \<open>StartManager\<close>. Inside the steps, these failures end the step with their error:
  the query of a clean operation, a removal, the creation of a group or a schedule, the
  upload and the import of a key, the creation of the backup folder, the download of a
  file or of a sub-directory. The failure of the command that creates a user does not:
  \<open>AddUsers\<close> logs it and goes on with the next declared user.
\<close>

theorem StartManager_aborts_on_returned_errors:
  "StartManager depth env params host w =
     (case TParams_GetByName params ''dir_backup'' of
        Inl err \<Rightarrow> Some (Some err, w)
      | Inr dir \<Rightarrow>
          (case run_steps host (cycle_steps env params host) w of
             (Some err, w1) \<Rightarrow> Some (Some err, w1)
           | (None, w1) \<Rightarrow>
               (case DownloadFolder depth env host (BackupFolder host) (backup_dir host dir) True
                       (logln (''['' @ IP host @ ''] sequence for backup directory'') w1) of
                  None \<Rightarrow> None
                | Some (Some err, w2) \<Rightarrow> Some (Some err, w2)
                | Some (None, w2) \<Rightarrow> Some (None, Disconnect env host w2))))
   \<and> (run_steps host pre w = (None, wa)
        \<and> step (logln (''['' @ IP host @ ''] sequence for '' @ what) wa) = (Some err, wb)
      \<longrightarrow> run_steps host (pre @ (what, step) # post) w = (Some err, wb))
   \<and> (GetUsers env host w = (Inl err, wb) \<longrightarrow> CleanUsers env host w = (Some err, wb))
   \<and> (GetGroups env host w = (Inl err, wb) \<longrightarrow> CleanGroups env host w = (Some err, wb))
   \<and> (GetSchedules env host w = (Inl err, wb) \<longrightarrow> CleanSchedules env host w = (Some err, wb))
   \<and> (TUser.Login user \<notin> set allow \<and> RemoveUser env host (TUser.Login user) w = (Some err, wb)
      \<longrightarrow> CleanUsers_loop env host allow (user # users) w = (Some err, wb))
   \<and> (TGroup.Name grp \<notin> TGroup.Name ` set (Groups host)
        \<and> RemoveGroup env host (TGroup.Name grp) w = (Some err, wb)
      \<longrightarrow> CleanGroups_loop env host (grp # groups) w = (Some err, wb))
   \<and> (TSchedule.Name schedule \<notin> TSchedule.Name ` set (Schedules host)
        \<and> RemoveSchedule env host (TSchedule.Name schedule) w = (Some err, wb)
      \<longrightarrow> CleanSchedules_loop env host (schedule # schedules) w = (Some err, wb))
   \<and> (IsContainGroup env host grp w = (False, wa) \<and> MakeGroup env host grp wa = (Some err, wb)
      \<longrightarrow> AddGroups_loop env host (grp # groups) w = (Some err, wb))
   \<and> (IsContainSchedule env host schedule w = (False, wa)
        \<and> MakeSchedule env host schedule wa = (Some err, wb)
      \<longrightarrow> AddSchedules_loop env host (schedule # schedules) w = (Some err, wb))
   \<and> (IsContainUser env host user w = (False, wa) \<and> MakeUser env host user wa = (None, wb)
        \<and> Key user \<noteq> [] \<and> UploadKey env params host (Key user) wb = (Some err, wc)
      \<longrightarrow> AddUsers_loop env params host (user # users) w = (Some err, wc))
   \<and> (IsContainUser env host user w = (False, wa) \<and> MakeUser env host user wa = (None, wb)
        \<and> Key user \<noteq> [] \<and> UploadKey env params host (Key user) wb = (None, wc)
        \<and> ImportSshKey env host user 5000 10 wc = (Some err, wd)
      \<longrightarrow> AddUsers_loop env params host (user # users) w = (Some err, wd))
   \<and> (IsContainUser env host user w = (False, wa) \<and> MakeUser env host user wa = (Some err, wb)
      \<longrightarrow> AddUsers_loop env params host (user # users) w =
            AddUsers_loop env params host users
              (logln (''['' @ IP host @ ''] error: \"'' @ Error err @ ''\"'') wb))
   \<and> (BackupFolder host \<noteq> [] \<and> MakeDir env host (BackupFolder host) w = (Some err, wb)
      \<longrightarrow> MakeBackupFolder env host w = (Some err, wb))
   \<and> (\<not> IsDir file \<and> DownloadFile env host (dirSrc @ ''/'' @ FName file) dirDst del w = (Some err, wb)
      \<longrightarrow> DownloadFolder_files depth env host dirSrc dirDst del (file # files) w = Some (Some err, wb))
   \<and> (IsDir file
        \<and> DownloadFolder depth env host (dirSrc @ FName file) (dirDst @ FName file) del w
            = Some (Some err, wb)
      \<longrightarrow> DownloadFolder_files depth env host dirSrc dirDst del (file # files) w = Some (Some err, wb))"
proof -
  have a: "run_steps host pre w = (None, wa)
        \<and> step (logln (''['' @ IP host @ ''] sequence for '' @ what) wa) = (Some err, wb)
      \<longrightarrow> run_steps host (pre @ (what, step) # post) w = (Some err, wb)"
    using run_steps_abort by blast
  show ?thesis
    by (intro conjI, rule StartManager_run_steps, rule a)
       (simp_all add: CleanUsers_def CleanGroups_def CleanSchedules_def MakeBackupFolder_def)
qed

lemma sim_no_group_print_steps:
  "fst (CleanUsers sim_env (host_of (task_of 0 3600 60) [] [] [])
          (logln ''[10.0.0.1] sequence for cleaning users'' (world_of sim_no_group_print))) = None"
  "fst (CleanGroups sim_env (host_of (task_of 0 3600 60) [] [] [])
          (logln ''[10.0.0.1] sequence for cleaning groups''
             (snd (CleanUsers sim_env (host_of (task_of 0 3600 60) [] [] [])
                (logln ''[10.0.0.1] sequence for cleaning users'' (world_of sim_no_group_print))))))
     = Some (LibError ''failure'')"
  "trace (snd (CleanGroups sim_env (host_of (task_of 0 3600 60) [] [] [])
          (logln ''[10.0.0.1] sequence for cleaning groups''
             (snd (CleanUsers sim_env (host_of (task_of 0 3600 60) [] [] [])
                (logln ''[10.0.0.1] sequence for cleaning users'' (world_of sim_no_group_print)))))))
     = [Dial API True, Cmd [''/user/print''] True, Cmd [''/user/remove'', ''=numbers=mallory''] True,
        Cmd [''/user/group/print''] False]"
  by (simp_all add: eval_simps)

theorem StartManager_aborts_on_returned_errors_witness:
  "StartManager (Suc 0) sim_env (params_of ''dst/'') (host_of (task_of 0 3600 60) [] [] [])
       (world_of sim_no_group_print)
     = Some (Some (LibError ''failure''),
         snd (CleanGroups sim_env (host_of (task_of 0 3600 60) [] [] [])
          (logln ''[10.0.0.1] sequence for cleaning groups''
             (snd (CleanUsers sim_env (host_of (task_of 0 3600 60) [] [] [])
                (logln ''[10.0.0.1] sequence for cleaning users'' (world_of sim_no_group_print)))))))
   \<and> trace (snd (CleanGroups sim_env (host_of (task_of 0 3600 60) [] [] [])
          (logln ''[10.0.0.1] sequence for cleaning groups''
             (snd (CleanUsers sim_env (host_of (task_of 0 3600 60) [] [] [])
                (logln ''[10.0.0.1] sequence for cleaning users'' (world_of sim_no_group_print)))))))
     = [Dial API True, Cmd [''/user/print''] True, Cmd [''/user/remove'', ''=numbers=mallory''] True,
        Cmd [''/user/group/print''] False]"
proof -
  let ?h = "host_of (task_of 0 3600 60) [] [] []"
  let ?ps = "params_of ''dst/''"
  let ?w0 = "world_of sim_no_group_print"
  let ?wa = "snd (CleanUsers sim_env ?h (logln ''[10.0.0.1] sequence for cleaning users'' ?w0))"
  let ?wb = "snd (CleanGroups sim_env ?h (logln ''[10.0.0.1] sequence for cleaning groups'' ?wa))"
  let ?pre = "[(''cleaning users'', CleanUsers sim_env ?h)]"
  let ?post = "[(''cleaning schedules'', CleanSchedules sim_env ?h),
      (''adding groups'', AddGroups sim_env ?h),
      (''adding users'', AddUsers sim_env ?ps ?h),
      (''adding backup folder'', MakeBackupFolder sim_env ?h),
      (''adding schedules'', AddSchedules sim_env ?h)]"
  have ip: "IP ?h = ''10.0.0.1''" by (simp add: host_of_def)
  have p: "run_steps ?h ?pre ?w0 = (None, ?wa)"
    by (simp add: ip res_case_None [OF sim_no_group_print_steps(1)])
  have s: "CleanGroups sim_env ?h (logln (''['' @ IP ?h @ ''] sequence for '' @ ''cleaning groups'') ?wa)
             = (Some (LibError ''failure''), ?wb)"
    using sim_no_group_print_steps(2) by (simp add: ip prod_eq_iff)
  have c: "cycle_steps sim_env ?ps ?h = ?pre @ (''cleaning groups'', CleanGroups sim_env ?h) # ?post"
    by (simp add: cycle_steps_def)
  have d: "TParams_GetByName ?ps ''dir_backup'' = Inr \<lparr>TParam.Name = ''dir_backup'', Value = ''dst/'', Note = []\<rparr>"
    by (simp add: params_of_def)
  note T = StartManager_aborts_on_returned_errors [where depth = "Suc 0" and env = sim_env
      and params = ?ps and host = ?h and w = ?w0 and pre = ?pre and what = "''cleaning groups''"
      and step = "CleanGroups sim_env ?h" and post = ?post and wa = ?wa and wb = ?wb
      and err = "LibError ''failure''"]
  have r: "run_steps ?h (cycle_steps sim_env ?ps ?h) ?w0 = (Some (LibError ''failure''), ?wb)"
    unfolding c using T p s by blast
  have "StartManager (Suc 0) sim_env ?ps ?h ?w0 = Some (Some (LibError ''failure''), ?wb)"
    using T [THEN conjunct1] unfolding r d by simp
  then show ?thesis using sim_no_group_print_steps(3) by simp
qed

lemma sim_no_user_add_cycle:
  "StartManager (Suc 0) sim_env (params_of ''dst/'')
     (host_of (task_of 0 3600 60) [user_of ''alice'' []] [] [schedule_of ''nightly''])
     (world_of sim_no_user_add)
   = Some (None,
       \<lparr>connections = \<lparr>ssh = None, sftp = None, api = None\<rparr>,
        dev = sim_no_user_add\<lparr>live_schedules := [''nightly''], remote_fs := [([''backup''], DirN)]\<rparr>,
        trace =
          [Dial API True, Cmd [''/user/print''] True, Cmd [''/user/group/print''] True,
           Cmd [''/system/scheduler/print''] True, Cmd [''/user/print''] True,
           Cmd [''/user/add'', ''=name=alice'', ''=password=pw'', ''=group=full'', ''=address='',
                ''=comment='', ''=disabled=no''] False,
           Dial SSH True, Dial SFTP True, Cmd [''/system/scheduler/print''] True,
           Cmd [''/system/scheduler/add'', ''=name=nightly'', ''=disabled=no'',
                ''=start-date=jan/01/2020'', ''=start-time=00:00:00'', ''=interval=1d'',
                ''=policy=read'', ''=comment='', ''=on-event=/system backup save''] True,
           Close API, Close SFTP, Close SSH],
        logs =
          [''[10.0.0.1] sequence for cleaning users'',
           ''[10.0.0.1] connection via API'',
           ''[10.0.0.1] sequence for cleaning groups'',
           ''[10.0.0.1] sequence for cleaning schedules'',
           ''[10.0.0.1] sequence for adding groups'',
           ''[10.0.0.1] sequence for adding users'',
           ''[10.0.0.1] adding user \"alice\"'',
           ''[10.0.0.1] error: \"failure\"'',
           ''[10.0.0.1] sequence for adding backup folder'',
           ''[10.0.0.1] connection via SSH'',
           ''[10.0.0.1] connection via SFTP'',
           ''[10.0.0.1] sequence for adding schedules'',
           ''[10.0.0.1] adding schedule \"nightly\"'',
           ''[10.0.0.1] sequence for backup directory'',
           ''[10.0.0.1] disconnection via API'',
           ''[10.0.0.1] disconnection via SFTP'',
           ''[10.0.0.1] disconnection via SSH'']\<rparr>)"
  by (simp add: eval_simps)

text \<open>
  On a device that refuses to create users, the command that creates the declared user
  fails, and the cycle goes on: the backup folder and the schedule are created after it,
  and \<open>StartManager\<close> returns no error.
\<close>

theorem StartManager_user_creation_failure_counterexample:
  "fst (the (StartManager (Suc 0) sim_env (params_of ''dst/'')
     (host_of (task_of 0 3600 60) [user_of ''alice'' []] [] [schedule_of ''nightly''])
     (world_of sim_no_user_add))) = None
   \<and> trace (snd (the (StartManager (Suc 0) sim_env (params_of ''dst/'')
     (host_of (task_of 0 3600 60) [user_of ''alice'' []] [] [schedule_of ''nightly''])
     (world_of sim_no_user_add))))
     = [Dial API True, Cmd [''/user/print''] True, Cmd [''/user/group/print''] True,
        Cmd [''/system/scheduler/print''] True, Cmd [''/user/print''] True,
        Cmd (MakeUser_cmd (user_of ''alice'' [])) False,
        Dial SSH True, Dial SFTP True, Cmd [''/system/scheduler/print''] True,
        Cmd (MakeSchedule_cmd (schedule_of ''nightly'')) True,
        Close API, Close SFTP, Close SSH]"
  unfolding sim_no_user_add_cycle
  by (simp add: MakeUser_cmd_def MakeSchedule_cmd_def user_of_def schedule_of_def)

section \<open>Cleaning\<close>

lemma removal_of_mono: "removal_of verb A ev \<Longrightarrow> A \<subseteq> B \<Longrightarrow> removal_of verb B ev"
  by (auto simp: removal_of_def)

lemma removal_of_Cmd: "n \<in> A \<Longrightarrow> removal_of verb A (Cmd [verb, ''=numbers='' @ n] ok)"
  by (auto simp: removal_of_def)

lemma CleanUsers_loop_removes:
  "api (connections w) = Some c \<Longrightarrow>
   \<exists>evs. trace (snd (CleanUsers_loop env host allow users w)) = trace w @ evs
     \<and> (fst (CleanUsers_loop env host allow users w) = None \<longrightarrow>
          evs = removals ''/user/remove'' (filter (\<lambda>l. l \<notin> set allow) (map TUser.Login users)))
     \<and> (\<forall>ev\<in>set evs. removal_of ''/user/remove'' (TUser.Login ` set users - set allow) ev)"
proof (induction users arbitrary: w)
  case Nil
  show ?case by (simp add: removals_def)
next
  case (Cons user users)
  let ?A = "TUser.Login ` set users - set allow"
  let ?B = "TUser.Login ` set (user # users) - set allow"
  have sub: "?A \<subseteq> ?B" by auto
  show ?case
  proof (cases "TUser.Login user \<in> set allow")
    case True
    obtain evs where e: "trace (snd (CleanUsers_loop env host allow users w)) = trace w @ evs"
      and a: "fst (CleanUsers_loop env host allow users w) = None \<longrightarrow>
          evs = removals ''/user/remove'' (filter (\<lambda>l. l \<notin> set allow) (map TUser.Login users))"
      and b: "\<forall>ev\<in>set evs. removal_of ''/user/remove'' ?A ev"
      using Cons.IH [OF Cons.prems] by (elim exE conjE) (rule that)
    have b': "\<forall>ev\<in>set evs. removal_of ''/user/remove'' ?B ev"
      using b removal_of_mono [OF _ sub] by blast
    show ?thesis using True e a b' by simp
  next
    case False
    obtain w1 where r: "RemoveUser env host (TUser.Login user) w =
          (case fst (routeros_Run env c [''/user/remove'', ''=numbers='' @ TUser.Login user] (dev w)) of
             Inl err \<Rightarrow> Some err | Inr res \<Rightarrow> None, w1)"
      and c1: "connections w1 = connections w"
      and t1: "trace w1 = trace w @ [Cmd [''/user/remove'', ''=numbers='' @ TUser.Login user]
                     (\<not> isl (fst (routeros_Run env c [''/user/remove'', ''=numbers='' @ TUser.Login user] (dev w))))]"
      using RemoveUser_held [OF Cons.prems, of env host "TUser.Login user"]
      by (elim exE conjE) (rule that)
    have inB: "TUser.Login user \<in> ?B" using False by simp
    show ?thesis
    proof (cases "fst (routeros_Run env c [''/user/remove'', ''=numbers='' @ TUser.Login user] (dev w))")
      case (Inl err)
      have "CleanUsers_loop env host allow (user # users) w = (Some err, w1)"
        using False r Inl by simp
      then show ?thesis using t1 Inl removal_of_Cmd [OF inB] by simp
    next
      case (Inr res)
      have s: "CleanUsers_loop env host allow (user # users) w = CleanUsers_loop env host allow users w1"
        using False r Inr by simp
      have h1: "api (connections w1) = Some c" using c1 Cons.prems by simp
      obtain evs where e: "trace (snd (CleanUsers_loop env host allow users w1)) = trace w1 @ evs"
        and a: "fst (CleanUsers_loop env host allow users w1) = None \<longrightarrow>
            evs = removals ''/user/remove'' (filter (\<lambda>l. l \<notin> set allow) (map TUser.Login users))"
        and b: "\<forall>ev\<in>set evs. removal_of ''/user/remove'' ?A ev"
        using Cons.IH [OF h1] by (elim exE conjE) (rule that)
      have b': "\<forall>ev\<in>set evs. removal_of ''/user/remove'' ?B ev"
        using b removal_of_mono [OF _ sub] by blast
      show ?thesis
        unfolding s using False e a b' t1 Inr removal_of_Cmd [OF inB, of "''/user/remove''" True]
        by (simp add: removals_def)
    qed
  qed
qed

lemma CleanGroups_loop_removes:
  "api (connections w) = Some c \<Longrightarrow>
   \<exists>evs. trace (snd (CleanGroups_loop env host groups w)) = trace w @ evs
     \<and> (fst (CleanGroups_loop env host groups w) = None \<longrightarrow>
          evs = removals ''/user/group/remove'' (filter (\<lambda>l. l \<notin> TGroup.Name ` set (Groups host)) (map TGroup.Name groups)))
     \<and> (\<forall>ev\<in>set evs. removal_of ''/user/group/remove'' (TGroup.Name ` set groups - TGroup.Name ` set (Groups host)) ev)"
proof (induction groups arbitrary: w)
  case Nil
  show ?case by (simp add: removals_def)
next
  case (Cons grp groups)
  let ?A = "TGroup.Name ` set groups - TGroup.Name ` set (Groups host)"
  let ?B = "TGroup.Name ` set (grp # groups) - TGroup.Name ` set (Groups host)"
  have sub: "?A \<subseteq> ?B" by auto
  show ?case
  proof (cases "TGroup.Name grp \<in> TGroup.Name ` set (Groups host)")
    case True
    obtain evs where e: "trace (snd (CleanGroups_loop env host groups w)) = trace w @ evs"
      and a: "fst (CleanGroups_loop env host groups w) = None \<longrightarrow>
          evs = removals ''/user/group/remove'' (filter (\<lambda>l. l \<notin> TGroup.Name ` set (Groups host)) (map TGroup.Name groups))"
      and b: "\<forall>ev\<in>set evs. removal_of ''/user/group/remove'' ?A ev"
      using Cons.IH [OF Cons.prems] by (elim exE conjE) (rule that)
    have b': "\<forall>ev\<in>set evs. removal_of ''/user/group/remove'' ?B ev"
      using b removal_of_mono [OF _ sub] by blast
    show ?thesis using True e a b' by simp
  next
    case False
    obtain w1 where r: "RemoveGroup env host (TGroup.Name grp) w =
          (case fst (routeros_Run env c [''/user/group/remove'', ''=numbers='' @ TGroup.Name grp] (dev w)) of
             Inl err \<Rightarrow> Some err | Inr res \<Rightarrow> None, w1)"
      and c1: "connections w1 = connections w"
      and t1: "trace w1 = trace w @ [Cmd [''/user/group/remove'', ''=numbers='' @ TGroup.Name grp]
                     (\<not> isl (fst (routeros_Run env c [''/user/group/remove'', ''=numbers='' @ TGroup.Name grp] (dev w))))]"
      using RemoveGroup_held [OF Cons.prems, of env host "TGroup.Name grp"]
      by (elim exE conjE) (rule that)
    have inB: "TGroup.Name grp \<in> ?B" using False by simp
    show ?thesis
    proof (cases "fst (routeros_Run env c [''/user/group/remove'', ''=numbers='' @ TGroup.Name grp] (dev w))")
      case (Inl err)
      have "CleanGroups_loop env host (grp # groups) w = (Some err, w1)"
        using False r Inl by simp
      then show ?thesis using t1 Inl removal_of_Cmd [OF inB] by simp
    next
      case (Inr res)
      have s: "CleanGroups_loop env host (grp # groups) w = CleanGroups_loop env host groups w1"
        using False r Inr by simp
      have h1: "api (connections w1) = Some c" using c1 Cons.prems by simp
      obtain evs where e: "trace (snd (CleanGroups_loop env host groups w1)) = trace w1 @ evs"
        and a: "fst (CleanGroups_loop env host groups w1) = None \<longrightarrow>
            evs = removals ''/user/group/remove'' (filter (\<lambda>l. l \<notin> TGroup.Name ` set (Groups host)) (map TGroup.Name groups))"
        and b: "\<forall>ev\<in>set evs. removal_of ''/user/group/remove'' ?A ev"
        using Cons.IH [OF h1] by (elim exE conjE) (rule that)
      have b': "\<forall>ev\<in>set evs. removal_of ''/user/group/remove'' ?B ev"
        using b removal_of_mono [OF _ sub] by blast
      show ?thesis
        unfolding s using False e a b' t1 Inr removal_of_Cmd [OF inB, of "''/user/group/remove''" True]
        by (simp add: removals_def)
    qed
  qed
qed

lemma CleanSchedules_loop_removes:
  "api (connections w) = Some c \<Longrightarrow>
   \<exists>evs. trace (snd (CleanSchedules_loop env host schedules w)) = trace w @ evs
     \<and> (fst (CleanSchedules_loop env host schedules w) = None \<longrightarrow>
          evs = removals ''/system/scheduler/remove'' (filter (\<lambda>l. l \<notin> TSchedule.Name ` set (Schedules host)) (map TSchedule.Name schedules)))
     \<and> (\<forall>ev\<in>set evs. removal_of ''/system/scheduler/remove'' (TSchedule.Name ` set schedules - TSchedule.Name ` set (Schedules host)) ev)"
proof (induction schedules arbitrary: w)
  case Nil
  show ?case by (simp add: removals_def)
next
  case (Cons schedule schedules)
  let ?A = "TSchedule.Name ` set schedules - TSchedule.Name ` set (Schedules host)"
  let ?B = "TSchedule.Name ` set (schedule # schedules) - TSchedule.Name ` set (Schedules host)"
  have sub: "?A \<subseteq> ?B" by auto
  show ?case
  proof (cases "TSchedule.Name schedule \<in> TSchedule.Name ` set (Schedules host)")
    case True
    obtain evs where e: "trace (snd (CleanSchedules_loop env host schedules w)) = trace w @ evs"
      and a: "fst (CleanSchedules_loop env host schedules w) = None \<longrightarrow>
          evs = removals ''/system/scheduler/remove'' (filter (\<lambda>l. l \<notin> TSchedule.Name ` set (Schedules host)) (map TSchedule.Name schedules))"
      and b: "\<forall>ev\<in>set evs. removal_of ''/system/scheduler/remove'' ?A ev"
      using Cons.IH [OF Cons.prems] by (elim exE conjE) (rule that)
    have b': "\<forall>ev\<in>set evs. removal_of ''/system/scheduler/remove'' ?B ev"
      using b removal_of_mono [OF _ sub] by blast
    show ?thesis using True e a b' by simp
  next
    case False
    obtain w1 where r: "RemoveSchedule env host (TSchedule.Name schedule) w =
          (case fst (routeros_Run env c [''/system/scheduler/remove'', ''=numbers='' @ TSchedule.Name schedule] (dev w)) of
             Inl err \<Rightarrow> Some err | Inr res \<Rightarrow> None, w1)"
      and c1: "connections w1 = connections w"
      and t1: "trace w1 = trace w @ [Cmd [''/system/scheduler/remove'', ''=numbers='' @ TSchedule.Name schedule]
                     (\<not> isl (fst (routeros_Run env c [''/system/scheduler/remove'', ''=numbers='' @ TSchedule.Name schedule] (dev w))))]"
      using RemoveSchedule_held [OF Cons.prems, of env host "TSchedule.Name schedule"]
      by (elim exE conjE) (rule that)
    have inB: "TSchedule.Name schedule \<in> ?B" using False by simp
    show ?thesis
    proof (cases "fst (routeros_Run env c [''/system/scheduler/remove'', ''=numbers='' @ TSchedule.Name schedule] (dev w))")
      case (Inl err)
      have "CleanSchedules_loop env host (schedule # schedules) w = (Some err, w1)"
        using False r Inl by simp
      then show ?thesis using t1 Inl removal_of_Cmd [OF inB] by simp
    next
      case (Inr res)
      have s: "CleanSchedules_loop env host (schedule # schedules) w = CleanSchedules_loop env host schedules w1"
        using False r Inr by simp
      have h1: "api (connections w1) = Some c" using c1 Cons.prems by simp
      obtain evs where e: "trace (snd (CleanSchedules_loop env host schedules w1)) = trace w1 @ evs"
        and a: "fst (CleanSchedules_loop env host schedules w1) = None \<longrightarrow>
            evs = removals ''/system/scheduler/remove'' (filter (\<lambda>l. l \<notin> TSchedule.Name ` set (Schedules host)) (map TSchedule.Name schedules))"
        and b: "\<forall>ev\<in>set evs. removal_of ''/system/scheduler/remove'' ?A ev"
        using Cons.IH [OF h1] by (elim exE conjE) (rule that)
      have b': "\<forall>ev\<in>set evs. removal_of ''/system/scheduler/remove'' ?B ev"
        using b removal_of_mono [OF _ sub] by blast
      show ?thesis
        unfolding s using False e a b' t1 Inr removal_of_Cmd [OF inB, of "''/system/scheduler/remove''" True]
        by (simp add: removals_def)
    qed
  qed
qed


lemma CleanUsers_removes:
  assumes g: "GetUsers env host w = (Inr live, w1)"
  shows "prefix (trace w1) (trace (snd (CleanUsers env host w)))
     \<and> (fst (CleanUsers env host w) = None \<longrightarrow>
          new_events w1 (snd (CleanUsers env host w)) =
            removals ''/user/remove''
              (filter (\<lambda>l. l \<notin> {THost.Login host} \<union> set (UsersAllowed host) \<union> TUser.Login ` set (Users host))
                 (map TUser.Login live)))
     \<and> (\<forall>ev\<in>set (new_events w1 (snd (CleanUsers env host w))).
          removal_of ''/user/remove''
            (TUser.Login ` set live
               - ({THost.Login host} \<union> set (UsersAllowed host) \<union> TUser.Login ` set (Users host))) ev)"
proof -
  obtain c where h: "api (connections w1) = Some c" using GetUsers_ok_held [OF g] by blast
  have e: "CleanUsers env host w = CleanUsers_loop env host (GetUsersAllowed host) live w1"
    using g by (simp add: CleanUsers_def)
  obtain evs where t: "trace (snd (CleanUsers_loop env host (GetUsersAllowed host) live w1)) = trace w1 @ evs"
    and a: "fst (CleanUsers_loop env host (GetUsersAllowed host) live w1) = None \<longrightarrow>
          evs = removals ''/user/remove''
                  (filter (\<lambda>l. l \<notin> set (GetUsersAllowed host)) (map TUser.Login live))"
    and b: "\<forall>ev\<in>set evs. removal_of ''/user/remove''
               (TUser.Login ` set live - set (GetUsersAllowed host)) ev"
    using CleanUsers_loop_removes [OF h, of env host "GetUsersAllowed host" live]
    by (elim exE conjE) (rule that)
  have n: "new_events w1 (snd (CleanUsers env host w)) = evs" using t e by simp
  show ?thesis
    unfolding n using t a b unfolding e set_GetUsersAllowed by simp
qed

lemma CleanGroups_removes:
  assumes g: "GetGroups env host w = (Inr live, w1)"
  shows "prefix (trace w1) (trace (snd (CleanGroups env host w)))
     \<and> (fst (CleanGroups env host w) = None \<longrightarrow>
          new_events w1 (snd (CleanGroups env host w)) =
            removals ''/user/group/remove''
              (filter (\<lambda>l. l \<notin> TGroup.Name ` set (Groups host)) (map TGroup.Name live)))
     \<and> (\<forall>ev\<in>set (new_events w1 (snd (CleanGroups env host w))).
          removal_of ''/user/group/remove''
            (TGroup.Name ` set live - TGroup.Name ` set (Groups host)) ev)"
proof -
  obtain c where h: "api (connections w1) = Some c" using GetGroups_ok_held [OF g] by blast
  have e: "CleanGroups env host w = CleanGroups_loop env host live w1"
    using g by (simp add: CleanGroups_def)
  obtain evs where t: "trace (snd (CleanGroups_loop env host live w1)) = trace w1 @ evs"
    and a: "fst (CleanGroups_loop env host live w1) = None \<longrightarrow>
          evs = removals ''/user/group/remove''
                  (filter (\<lambda>l. l \<notin> TGroup.Name ` set (Groups host)) (map TGroup.Name live))"
    and b: "\<forall>ev\<in>set evs. removal_of ''/user/group/remove''
               (TGroup.Name ` set live - TGroup.Name ` set (Groups host)) ev"
    using CleanGroups_loop_removes [OF h, of env host live]
    by (elim exE conjE) (rule that)
  have n: "new_events w1 (snd (CleanGroups env host w)) = evs" using t e by simp
  show ?thesis
    unfolding n using t a b unfolding e by simp
qed

lemma CleanSchedules_removes:
  assumes g: "GetSchedules env host w = (Inr live, w1)"
  shows "prefix (trace w1) (trace (snd (CleanSchedules env host w)))
     \<and> (fst (CleanSchedules env host w) = None \<longrightarrow>
          new_events w1 (snd (CleanSchedules env host w)) =
            removals ''/system/scheduler/remove''
              (filter (\<lambda>l. l \<notin> TSchedule.Name ` set (Schedules host)) (map TSchedule.Name live)))
     \<and> (\<forall>ev\<in>set (new_events w1 (snd (CleanSchedules env host w))).
          removal_of ''/system/scheduler/remove''
            (TSchedule.Name ` set live - TSchedule.Name ` set (Schedules host)) ev)"
proof -
  obtain c where h: "api (connections w1) = Some c" using GetSchedules_ok_held [OF g] by blast
  have e: "CleanSchedules env host w = CleanSchedules_loop env host live w1"
    using g by (simp add: CleanSchedules_def)
  obtain evs where t: "trace (snd (CleanSchedules_loop env host live w1)) = trace w1 @ evs"
    and a: "fst (CleanSchedules_loop env host live w1) = None \<longrightarrow>
          evs = removals ''/system/scheduler/remove''
                  (filter (\<lambda>l. l \<notin> TSchedule.Name ` set (Schedules host)) (map TSchedule.Name live))"
    and b: "\<forall>ev\<in>set evs. removal_of ''/system/scheduler/remove''
               (TSchedule.Name ` set live - TSchedule.Name ` set (Schedules host)) ev"
    using CleanSchedules_loop_removes [OF h, of env host live]
    by (elim exE conjE) (rule that)
  have n: "new_events w1 (snd (CleanSchedules env host w)) = evs" using t e by simp
  show ?thesis
    unfolding n using t a b unfolding e by simp
qed

text \<open>A removal with the session held, on the device: the answer and the new state are
  the ones of the command.\<close>

lemma RemoveUser_dev:
  "api (connections w) = Some c \<Longrightarrow>
   fst (RemoveUser env host n w) =
     (case fst (routeros_Run env c [''/user/remove'', ''=numbers='' @ n] (dev w)) of
        Inl err \<Rightarrow> Some err | Inr res \<Rightarrow> None)
   \<and> dev (snd (RemoveUser env host n w)) = snd (routeros_Run env c [''/user/remove'', ''=numbers='' @ n] (dev w))
   \<and> connections (snd (RemoveUser env host n w)) = connections w"
  by (auto simp: RemoveUser_def GetConnectionAPI_cached connApi_Run_eq Let_def split: sum.splits)

lemma RemoveGroup_dev:
  "api (connections w) = Some c \<Longrightarrow>
   fst (RemoveGroup env host n w) =
     (case fst (routeros_Run env c [''/user/group/remove'', ''=numbers='' @ n] (dev w)) of
        Inl err \<Rightarrow> Some err | Inr res \<Rightarrow> None)
   \<and> dev (snd (RemoveGroup env host n w)) = snd (routeros_Run env c [''/user/group/remove'', ''=numbers='' @ n] (dev w))
   \<and> connections (snd (RemoveGroup env host n w)) = connections w"
  by (auto simp: RemoveGroup_def GetConnectionAPI_cached connApi_Run_eq Let_def split: sum.splits)

lemma RemoveSchedule_dev:
  "api (connections w) = Some c \<Longrightarrow>
   fst (RemoveSchedule env host n w) =
     (case fst (routeros_Run env c [''/system/scheduler/remove'', ''=numbers='' @ n] (dev w)) of
        Inl err \<Rightarrow> Some err | Inr res \<Rightarrow> None)
   \<and> dev (snd (RemoveSchedule env host n w)) = snd (routeros_Run env c [''/system/scheduler/remove'', ''=numbers='' @ n] (dev w))
   \<and> connections (snd (RemoveSchedule env host n w)) = connections w"
  by (auto simp: RemoveSchedule_def GetConnectionAPI_cached connApi_Run_eq Let_def split: sum.splits)

lemma run_removals_Cons:
  "run_removals env c verb (n # ns) d =
     (case fst (routeros_Run env c [verb, ''=numbers='' @ n] d) of
        Inl err \<Rightarrow> (Some err, snd (routeros_Run env c [verb, ''=numbers='' @ n] d))
      | Inr res \<Rightarrow> run_removals env c verb ns (snd (routeros_Run env c [verb, ''=numbers='' @ n] d)))"
  by (simp split: prod.splits sum.splits)

lemma CleanUsers_loop_dev:
  "api (connections w) = Some c \<Longrightarrow>
   (fst (CleanUsers_loop env host allow users w), dev (snd (CleanUsers_loop env host allow users w)))
     = run_removals env c ''/user/remove''
         (filter (\<lambda>l. l \<notin> set allow) (map TUser.Login users)) (dev w)"
proof (induction users arbitrary: w)
  case Nil
  show ?case by simp
next
  case (Cons user users)
  show ?case
  proof (cases "TUser.Login user \<in> set allow")
    case True
    then show ?thesis using Cons.IH [OF Cons.prems] by simp
  next
    case False
    obtain r w1 where rm: "RemoveUser env host (TUser.Login user) w = (r, w1)"
      by (cases "RemoveUser env host (TUser.Login user) w")
    have f: "r = (case fst (routeros_Run env c [''/user/remove'', ''=numbers='' @ TUser.Login user] (dev w)) of
                   Inl err \<Rightarrow> Some err | Inr res \<Rightarrow> None)"
      and d: "dev w1 = snd (routeros_Run env c [''/user/remove'', ''=numbers='' @ TUser.Login user] (dev w))"
      and h1: "api (connections w1) = Some c"
      using RemoveUser_dev [OF Cons.prems, of env host "TUser.Login user"] rm Cons.prems by simp_all
    show ?thesis
    proof (cases "fst (routeros_Run env c [''/user/remove'', ''=numbers='' @ TUser.Login user] (dev w))")
      case (Inl err)
      then show ?thesis using False rm f d by (simp add: run_removals_Cons del: run_removals.simps)
    next
      case (Inr res)
      then show ?thesis using False rm f d Cons.IH [OF h1]
        by (simp add: run_removals_Cons del: run_removals.simps)
    qed
  qed
qed

lemma CleanGroups_loop_dev:
  "api (connections w) = Some c \<Longrightarrow>
   (fst (CleanGroups_loop env host groups w), dev (snd (CleanGroups_loop env host groups w)))
     = run_removals env c ''/user/group/remove''
         (filter (\<lambda>l. l \<notin> TGroup.Name ` set (Groups host)) (map TGroup.Name groups)) (dev w)"
proof (induction groups arbitrary: w)
  case Nil
  show ?case by simp
next
  case (Cons grp groups)
  show ?case
  proof (cases "TGroup.Name grp \<in> TGroup.Name ` set (Groups host)")
    case True
    then show ?thesis using Cons.IH [OF Cons.prems] by simp
  next
    case False
    obtain r w1 where rm: "RemoveGroup env host (TGroup.Name grp) w = (r, w1)"
      by (cases "RemoveGroup env host (TGroup.Name grp) w")
    have f: "r = (case fst (routeros_Run env c [''/user/group/remove'', ''=numbers='' @ TGroup.Name grp] (dev w)) of
                   Inl err \<Rightarrow> Some err | Inr res \<Rightarrow> None)"
      and d: "dev w1 = snd (routeros_Run env c [''/user/group/remove'', ''=numbers='' @ TGroup.Name grp] (dev w))"
      and h1: "api (connections w1) = Some c"
      using RemoveGroup_dev [OF Cons.prems, of env host "TGroup.Name grp"] rm Cons.prems by simp_all
    show ?thesis
    proof (cases "fst (routeros_Run env c [''/user/group/remove'', ''=numbers='' @ TGroup.Name grp] (dev w))")
      case (Inl err)
      then show ?thesis using False rm f d by (simp add: run_removals_Cons del: run_removals.simps)
    next
      case (Inr res)
      then show ?thesis using False rm f d Cons.IH [OF h1]
        by (simp add: run_removals_Cons del: run_removals.simps)
    qed
  qed
qed

lemma CleanSchedules_loop_dev:
  "api (connections w) = Some c \<Longrightarrow>
   (fst (CleanSchedules_loop env host schedules w), dev (snd (CleanSchedules_loop env host schedules w)))
     = run_removals env c ''/system/scheduler/remove''
         (filter (\<lambda>l. l \<notin> TSchedule.Name ` set (Schedules host)) (map TSchedule.Name schedules)) (dev w)"
proof (induction schedules arbitrary: w)
  case Nil
  show ?case by simp
next
  case (Cons schedule schedules)
  show ?case
  proof (cases "TSchedule.Name schedule \<in> TSchedule.Name ` set (Schedules host)")
    case True
    then show ?thesis using Cons.IH [OF Cons.prems] by simp
  next
    case False
    obtain r w1 where rm: "RemoveSchedule env host (TSchedule.Name schedule) w = (r, w1)"
      by (cases "RemoveSchedule env host (TSchedule.Name schedule) w")
    have f: "r = (case fst (routeros_Run env c [''/system/scheduler/remove'', ''=numbers='' @ TSchedule.Name schedule] (dev w)) of
                   Inl err \<Rightarrow> Some err | Inr res \<Rightarrow> None)"
      and d: "dev w1 = snd (routeros_Run env c [''/system/scheduler/remove'', ''=numbers='' @ TSchedule.Name schedule] (dev w))"
      and h1: "api (connections w1) = Some c"
      using RemoveSchedule_dev [OF Cons.prems, of env host "TSchedule.Name schedule"] rm Cons.prems
      by simp_all
    show ?thesis
    proof (cases "fst (routeros_Run env c [''/system/scheduler/remove'', ''=numbers='' @ TSchedule.Name schedule] (dev w))")
      case (Inl err)
      then show ?thesis using False rm f d by (simp add: run_removals_Cons del: run_removals.simps)
    next
      case (Inr res)
      then show ?thesis using False rm f d Cons.IH [OF h1]
        by (simp add: run_removals_Cons del: run_removals.simps)
    qed
  qed
qed

lemma CleanUsers_dev:
  assumes g: "GetUsers env host w = (Inr live, w1)"
  shows "\<exists>c. api (connections w1) = Some c
     \<and> (fst (CleanUsers env host w), dev (snd (CleanUsers env host w)))
         = run_removals env c ''/user/remove''
             (filter (\<lambda>l. l \<notin> {THost.Login host} \<union> set (UsersAllowed host) \<union> TUser.Login ` set (Users host))
                (map TUser.Login live)) (dev w1)"
proof -
  obtain c where h: "api (connections w1) = Some c" using GetUsers_ok_held [OF g] by blast
  have e: "CleanUsers env host w = CleanUsers_loop env host (GetUsersAllowed host) live w1"
    using g by (simp add: CleanUsers_def)
  show ?thesis
    using h CleanUsers_loop_dev [OF h, of env host "GetUsersAllowed host" live]
    unfolding e set_GetUsersAllowed by simp
qed

lemma CleanGroups_dev:
  assumes g: "GetGroups env host w = (Inr live, w1)"
  shows "\<exists>c. api (connections w1) = Some c
     \<and> (fst (CleanGroups env host w), dev (snd (CleanGroups env host w)))
         = run_removals env c ''/user/group/remove''
             (filter (\<lambda>l. l \<notin> TGroup.Name ` set (Groups host)) (map TGroup.Name live)) (dev w1)"
proof -
  obtain c where h: "api (connections w1) = Some c" using GetGroups_ok_held [OF g] by blast
  have e: "CleanGroups env host w = CleanGroups_loop env host live w1"
    using g by (simp add: CleanGroups_def)
  show ?thesis
    using h CleanGroups_loop_dev [OF h, of env host live] unfolding e by simp
qed

lemma CleanSchedules_dev:
  assumes g: "GetSchedules env host w = (Inr live, w1)"
  shows "\<exists>c. api (connections w1) = Some c
     \<and> (fst (CleanSchedules env host w), dev (snd (CleanSchedules env host w)))
         = run_removals env c ''/system/scheduler/remove''
             (filter (\<lambda>l. l \<notin> TSchedule.Name ` set (Schedules host)) (map TSchedule.Name live)) (dev w1)"
proof -
  obtain c where h: "api (connections w1) = Some c" using GetSchedules_ok_held [OF g] by blast
  have e: "CleanSchedules env host w = CleanSchedules_loop env host live w1"
    using g by (simp add: CleanSchedules_def)
  show ?thesis
    using h CleanSchedules_loop_dev [OF h, of env host live] unfolding e by simp
qed

text \<open>
  Claim C4. Whatever live entries the device reports, \<open>CleanUsers\<close>, \<open>CleanGroups\<close> and
  \<open>CleanSchedules\<close> send, after the query, removal commands only, and only for reported
  entries that are not declared for the host (for users: whose login is not the host's
  own login, not among the extra allowed logins and not a declared user's login); no
  declared or allowed entry is ever removed. When the operation returns without error,
  the removals are exactly those entries, each removed once per report, in the order
  reported, and every removal succeeded. On the device itself, the operation's answer and
  the state it leaves are those of running the removal command, over the session held
  after the query, for exactly those entries in the order reported, from the state the
  query left, stopping at the first command the device refuses: the device is changed by
  these commands and by nothing else.
\<close>

theorem Clean_removes_exactly_the_undeclared:
  "(GetUsers env host w = (Inr lu, wu) \<longrightarrow>
      prefix (trace wu) (trace (snd (CleanUsers env host w)))
    \<and> (fst (CleanUsers env host w) = None \<longrightarrow>
          new_events wu (snd (CleanUsers env host w)) =
            removals ''/user/remove''
              (filter (\<lambda>l. l \<notin> {THost.Login host} \<union> set (UsersAllowed host) \<union> TUser.Login ` set (Users host))
                 (map TUser.Login lu)))
    \<and> (\<forall>ev\<in>set (new_events wu (snd (CleanUsers env host w))).
          removal_of ''/user/remove''
            (TUser.Login ` set lu
               - ({THost.Login host} \<union> set (UsersAllowed host) \<union> TUser.Login ` set (Users host))) ev)
    \<and> (\<exists>c. api (connections wu) = Some c
          \<and> (fst (CleanUsers env host w), dev (snd (CleanUsers env host w)))
              = run_removals env c ''/user/remove''
                  (filter (\<lambda>l. l \<notin> {THost.Login host} \<union> set (UsersAllowed host) \<union> TUser.Login ` set (Users host))
                     (map TUser.Login lu)) (dev wu)))
   \<and> (GetGroups env host w = (Inr lg, wg) \<longrightarrow>
      prefix (trace wg) (trace (snd (CleanGroups env host w)))
    \<and> (fst (CleanGroups env host w) = None \<longrightarrow>
          new_events wg (snd (CleanGroups env host w)) =
            removals ''/user/group/remove''
              (filter (\<lambda>l. l \<notin> TGroup.Name ` set (Groups host)) (map TGroup.Name lg)))
    \<and> (\<forall>ev\<in>set (new_events wg (snd (CleanGroups env host w))).
          removal_of ''/user/group/remove''
            (TGroup.Name ` set lg - TGroup.Name ` set (Groups host)) ev)
    \<and> (\<exists>c. api (connections wg) = Some c
          \<and> (fst (CleanGroups env host w), dev (snd (CleanGroups env host w)))
              = run_removals env c ''/user/group/remove''
                  (filter (\<lambda>l. l \<notin> TGroup.Name ` set (Groups host)) (map TGroup.Name lg)) (dev wg)))
   \<and> (GetSchedules env host w = (Inr ls, ws) \<longrightarrow>
      prefix (trace ws) (trace (snd (CleanSchedules env host w)))
    \<and> (fst (CleanSchedules env host w) = None \<longrightarrow>
          new_events ws (snd (CleanSchedules env host w)) =
            removals ''/system/scheduler/remove''
              (filter (\<lambda>l. l \<notin> TSchedule.Name ` set (Schedules host)) (map TSchedule.Name ls)))
    \<and> (\<forall>ev\<in>set (new_events ws (snd (CleanSchedules env host w))).
          removal_of ''/system/scheduler/remove''
            (TSchedule.Name ` set ls - TSchedule.Name ` set (Schedules host)) ev)
    \<and> (\<exists>c. api (connections ws) = Some c
          \<and> (fst (CleanSchedules env host w), dev (snd (CleanSchedules env host w)))
              = run_removals env c ''/system/scheduler/remove''
                  (filter (\<lambda>l. l \<notin> TSchedule.Name ` set (Schedules host)) (map TSchedule.Name ls)) (dev ws)))"
proof (intro conjI impI)
  assume g: "GetUsers env host w = (Inr lu, wu)"
  note r = CleanUsers_removes [OF g]
  show "prefix (trace wu) (trace (snd (CleanUsers env host w)))" using r by (rule conjunct1)
  show "new_events wu (snd (CleanUsers env host w)) =
            removals ''/user/remove''
              (filter (\<lambda>l. l \<notin> {THost.Login host} \<union> set (UsersAllowed host) \<union> TUser.Login ` set (Users host))
                 (map TUser.Login lu))" if "fst (CleanUsers env host w) = None"
    using r that by blast
  show "\<forall>ev\<in>set (new_events wu (snd (CleanUsers env host w))).
          removal_of ''/user/remove''
            (TUser.Login ` set lu
               - ({THost.Login host} \<union> set (UsersAllowed host) \<union> TUser.Login ` set (Users host))) ev"
    using r by (elim conjE)
  show "\<exists>c. api (connections wu) = Some c
          \<and> (fst (CleanUsers env host w), dev (snd (CleanUsers env host w)))
              = run_removals env c ''/user/remove''
                  (filter (\<lambda>l. l \<notin> {THost.Login host} \<union> set (UsersAllowed host) \<union> TUser.Login ` set (Users host))
                     (map TUser.Login lu)) (dev wu)"
    by (rule CleanUsers_dev [OF g])
next
  assume g: "GetGroups env host w = (Inr lg, wg)"
  note r = CleanGroups_removes [OF g]
  show "prefix (trace wg) (trace (snd (CleanGroups env host w)))" using r by (rule conjunct1)
  show "new_events wg (snd (CleanGroups env host w)) =
            removals ''/user/group/remove''
              (filter (\<lambda>l. l \<notin> TGroup.Name ` set (Groups host)) (map TGroup.Name lg))"
    if "fst (CleanGroups env host w) = None"
    using r that by blast
  show "\<forall>ev\<in>set (new_events wg (snd (CleanGroups env host w))).
          removal_of ''/user/group/remove''
            (TGroup.Name ` set lg - TGroup.Name ` set (Groups host)) ev"
    using r by (elim conjE)
  show "\<exists>c. api (connections wg) = Some c
          \<and> (fst (CleanGroups env host w), dev (snd (CleanGroups env host w)))
              = run_removals env c ''/user/group/remove''
                  (filter (\<lambda>l. l \<notin> TGroup.Name ` set (Groups host)) (map TGroup.Name lg)) (dev wg)"
    by (rule CleanGroups_dev [OF g])
next
  assume g: "GetSchedules env host w = (Inr ls, ws)"
  note r = CleanSchedules_removes [OF g]
  show "prefix (trace ws) (trace (snd (CleanSchedules env host w)))" using r by (rule conjunct1)
  show "new_events ws (snd (CleanSchedules env host w)) =
            removals ''/system/scheduler/remove''
              (filter (\<lambda>l. l \<notin> TSchedule.Name ` set (Schedules host)) (map TSchedule.Name ls))"
    if "fst (CleanSchedules env host w) = None"
    using r that by blast
  show "\<forall>ev\<in>set (new_events ws (snd (CleanSchedules env host w))).
          removal_of ''/system/scheduler/remove''
            (TSchedule.Name ` set ls - TSchedule.Name ` set (Schedules host)) ev"
    using r by (elim conjE)
  show "\<exists>c. api (connections ws) = Some c
          \<and> (fst (CleanSchedules env host w), dev (snd (CleanSchedules env host w)))
              = run_removals env c ''/system/scheduler/remove''
                  (filter (\<lambda>l. l \<notin> TSchedule.Name ` set (Schedules host)) (map TSchedule.Name ls)) (dev ws)"
    by (rule CleanSchedules_dev [OF g])
qed

lemma sim_clean_queries:
  "GetUsers sim_env (host_of (task_of 0 3600 60) [user_of ''alice'' []] [group_of ''full''] [schedule_of ''nightly''])
       (world_with_api (sim_of [''admin'', ''mallory'', ''ops'', ''alice''] [''read'', ''full''] [''old''] [] 0))
     = (Inr (map user_of_sentence (names_reply [''admin'', ''mallory'', ''ops'', ''alice''])),
        emit (Cmd [''/user/print''] True)
          (world_with_api (sim_of [''admin'', ''mallory'', ''ops'', ''alice''] [''read'', ''full''] [''old''] [] 0)))"
  "GetGroups sim_env (host_of (task_of 0 3600 60) [user_of ''alice'' []] [group_of ''full''] [schedule_of ''nightly''])
       (world_with_api (sim_of [''admin'', ''mallory'', ''ops'', ''alice''] [''read'', ''full''] [''old''] [] 0))
     = (Inr (map group_of_sentence (names_reply [''read'', ''full''])),
        emit (Cmd [''/user/group/print''] True)
          (world_with_api (sim_of [''admin'', ''mallory'', ''ops'', ''alice''] [''read'', ''full''] [''old''] [] 0)))"
  "GetSchedules sim_env (host_of (task_of 0 3600 60) [user_of ''alice'' []] [group_of ''full''] [schedule_of ''nightly''])
       (world_with_api (sim_of [''admin'', ''mallory'', ''ops'', ''alice''] [''read'', ''full''] [''old''] [] 0))
     = (Inr (map schedule_of_sentence (names_reply [''old''])),
        emit (Cmd [''/system/scheduler/print''] True)
          (world_with_api (sim_of [''admin'', ''mallory'', ''ops'', ''alice''] [''read'', ''full''] [''old''] [] 0)))"
  by (simp_all add: eval_simps)

lemma sim_clean_results:
  "fst (CleanUsers sim_env (host_of (task_of 0 3600 60) [user_of ''alice'' []] [group_of ''full''] [schedule_of ''nightly''])
       (world_with_api (sim_of [''admin'', ''mallory'', ''ops'', ''alice''] [''read'', ''full''] [''old''] [] 0))) = None"
  "fst (CleanGroups sim_env (host_of (task_of 0 3600 60) [user_of ''alice'' []] [group_of ''full''] [schedule_of ''nightly''])
       (world_with_api (sim_of [''admin'', ''mallory'', ''ops'', ''alice''] [''read'', ''full''] [''old''] [] 0))) = None"
  "fst (CleanSchedules sim_env (host_of (task_of 0 3600 60) [user_of ''alice'' []] [group_of ''full''] [schedule_of ''nightly''])
       (world_with_api (sim_of [''admin'', ''mallory'', ''ops'', ''alice''] [''read'', ''full''] [''old''] [] 0))) = None"
  by (simp_all add: eval_simps)

theorem Clean_removes_exactly_the_undeclared_witness:
  "new_events
     (emit (Cmd [''/user/print''] True)
        (world_with_api (sim_of [''admin'', ''mallory'', ''ops'', ''alice''] [''read'', ''full''] [''old''] [] 0)))
     (snd (CleanUsers sim_env
        (host_of (task_of 0 3600 60) [user_of ''alice'' []] [group_of ''full''] [schedule_of ''nightly''])
        (world_with_api (sim_of [''admin'', ''mallory'', ''ops'', ''alice''] [''read'', ''full''] [''old''] [] 0))))
     = [Cmd [''/user/remove'', ''=numbers=mallory''] True]
   \<and> new_events
     (emit (Cmd [''/user/group/print''] True)
        (world_with_api (sim_of [''admin'', ''mallory'', ''ops'', ''alice''] [''read'', ''full''] [''old''] [] 0)))
     (snd (CleanGroups sim_env
        (host_of (task_of 0 3600 60) [user_of ''alice'' []] [group_of ''full''] [schedule_of ''nightly''])
        (world_with_api (sim_of [''admin'', ''mallory'', ''ops'', ''alice''] [''read'', ''full''] [''old''] [] 0))))
     = [Cmd [''/user/group/remove'', ''=numbers=read''] True]
   \<and> new_events
     (emit (Cmd [''/system/scheduler/print''] True)
        (world_with_api (sim_of [''admin'', ''mallory'', ''ops'', ''alice''] [''read'', ''full''] [''old''] [] 0)))
     (snd (CleanSchedules sim_env
        (host_of (task_of 0 3600 60) [user_of ''alice'' []] [group_of ''full''] [schedule_of ''nightly''])
        (world_with_api (sim_of [''admin'', ''mallory'', ''ops'', ''alice''] [''read'', ''full''] [''old''] [] 0))))
     = [Cmd [''/system/scheduler/remove'', ''=numbers=old''] True]
   \<and> dev (snd (CleanUsers sim_env
        (host_of (task_of 0 3600 60) [user_of ''alice'' []] [group_of ''full''] [schedule_of ''nightly''])
        (world_with_api (sim_of [''admin'', ''mallory'', ''ops'', ''alice''] [''read'', ''full''] [''old''] [] 0))))
     = sim_of [''admin'', ''ops'', ''alice''] [''read'', ''full''] [''old''] [] 0
   \<and> dev (snd (CleanGroups sim_env
        (host_of (task_of 0 3600 60) [user_of ''alice'' []] [group_of ''full''] [schedule_of ''nightly''])
        (world_with_api (sim_of [''admin'', ''mallory'', ''ops'', ''alice''] [''read'', ''full''] [''old''] [] 0))))
     = sim_of [''admin'', ''mallory'', ''ops'', ''alice''] [''full''] [''old''] [] 0
   \<and> dev (snd (CleanSchedules sim_env
        (host_of (task_of 0 3600 60) [user_of ''alice'' []] [group_of ''full''] [schedule_of ''nightly''])
        (world_with_api (sim_of [''admin'', ''mallory'', ''ops'', ''alice''] [''read'', ''full''] [''old''] [] 0))))
     = sim_of [''admin'', ''mallory'', ''ops'', ''alice''] [''read'', ''full''] [] [] 0"
proof -
  let ?h = "host_of (task_of 0 3600 60) [user_of ''alice'' []] [group_of ''full''] [schedule_of ''nightly'']"
  let ?w = "world_with_api (sim_of [''admin'', ''mallory'', ''ops'', ''alice''] [''read'', ''full''] [''old''] [] 0)"
  note T = Clean_removes_exactly_the_undeclared [where env = sim_env and host = ?h and w = ?w
      and lu = "map user_of_sentence (names_reply [''admin'', ''mallory'', ''ops'', ''alice''])"
      and wu = "emit (Cmd [''/user/print''] True) ?w"
      and lg = "map group_of_sentence (names_reply [''read'', ''full''])"
      and wg = "emit (Cmd [''/user/group/print''] True) ?w"
      and ls = "map schedule_of_sentence (names_reply [''old''])"
      and ws = "emit (Cmd [''/system/scheduler/print''] True) ?w"]
  have u: "new_events (emit (Cmd [''/user/print''] True) ?w) (snd (CleanUsers sim_env ?h ?w)) =
            removals ''/user/remove''
              (filter (\<lambda>l. l \<notin> {THost.Login ?h} \<union> set (UsersAllowed ?h) \<union> TUser.Login ` set (Users ?h))
                 (map TUser.Login (map user_of_sentence (names_reply [''admin'', ''mallory'', ''ops'', ''alice'']))))"
    using T sim_clean_queries(1) sim_clean_results(1) by blast
  have g: "new_events (emit (Cmd [''/user/group/print''] True) ?w) (snd (CleanGroups sim_env ?h ?w)) =
            removals ''/user/group/remove''
              (filter (\<lambda>l. l \<notin> TGroup.Name ` set (Groups ?h))
                 (map TGroup.Name (map group_of_sentence (names_reply [''read'', ''full'']))))"
    using T sim_clean_queries(2) sim_clean_results(2) by blast
  have s: "new_events (emit (Cmd [''/system/scheduler/print''] True) ?w) (snd (CleanSchedules sim_env ?h ?w)) =
            removals ''/system/scheduler/remove''
              (filter (\<lambda>l. l \<notin> TSchedule.Name ` set (Schedules ?h))
                 (map TSchedule.Name (map schedule_of_sentence (names_reply [''old'']))))"
    using T sim_clean_queries(3) sim_clean_results(3) by blast
  have c: "api (connections (emit ev ?w)) = Some c \<longleftrightarrow> c = 1" for ev c
    by (auto simp: world_with_api_def emit_def)
  have du: "dev (snd (CleanUsers sim_env ?h ?w)) =
            snd (run_removals sim_env 1 ''/user/remove''
              (filter (\<lambda>l. l \<notin> {THost.Login ?h} \<union> set (UsersAllowed ?h) \<union> TUser.Login ` set (Users ?h))
                 (map TUser.Login (map user_of_sentence (names_reply [''admin'', ''mallory'', ''ops'', ''alice'']))))
              (dev (emit (Cmd [''/user/print''] True) ?w)))"
    using T sim_clean_queries(1) unfolding c by (metis snd_conv)
  have dg: "dev (snd (CleanGroups sim_env ?h ?w)) =
            snd (run_removals sim_env 1 ''/user/group/remove''
              (filter (\<lambda>l. l \<notin> TGroup.Name ` set (Groups ?h))
                 (map TGroup.Name (map group_of_sentence (names_reply [''read'', ''full'']))))
              (dev (emit (Cmd [''/user/group/print''] True) ?w)))"
    using T sim_clean_queries(2) unfolding c by (metis snd_conv)
  have ds: "dev (snd (CleanSchedules sim_env ?h ?w)) =
            snd (run_removals sim_env 1 ''/system/scheduler/remove''
              (filter (\<lambda>l. l \<notin> TSchedule.Name ` set (Schedules ?h))
                 (map TSchedule.Name (map schedule_of_sentence (names_reply [''old'']))))
              (dev (emit (Cmd [''/system/scheduler/print''] True) ?w)))"
    using T sim_clean_queries(3) unfolding c by (metis snd_conv)
  show ?thesis
    unfolding u g s du dg ds
    by (simp add: removals_def eval_simps)
qed

section \<open>The sleep after a cycle\<close>

lemma CleanUsers_dial_fails:
  assumes n: "api (connections w) = None"
    and f: "routeros_Dial env (IP host @ '':'' @ Itoa (PortAPI host))
              (THost.Login host) (THost.Pass host) (dev w) = (Inl err, d)"
  shows "\<exists>w1. CleanUsers env host w = (Some err, w1) \<and> trace w1 = trace w @ [Dial API False]
           \<and> dev w1 = d \<and> connections w1 = connections w"
proof -
  let ?w1 = "emit (Dial API False)
        ((logln (''['' @ IP host @ ''] connection via API'') w)
           \<lparr>dev := d, connections := (connections w)\<lparr>api := None\<rparr>\<rparr>)"
  have g: "GetConnectionAPI env host w = (Inl err, ?w1)" by (rule GetConnectionAPI_fail [OF n f])
  have "CleanUsers env host w = (Some err, ?w1)"
    by (simp add: CleanUsers_def GetUsers_def g)
  moreover have "connections ?w1 = connections w" using n by simp
  ultimately show ?thesis by simp
qed

lemma StartManager_dial_fails:
  assumes n: "api (connections w) = None"
    and f: "routeros_Dial env (IP host @ '':'' @ Itoa (PortAPI host))
              (THost.Login host) (THost.Pass host) (dev w) = (Inl err, d)"
    and p: "TParams_GetByName params ''dir_backup'' = Inr dir"
  shows "\<exists>w1. StartManager depth env params host w = Some (Some err, w1)
           \<and> trace w1 = trace w @ [Dial API False] \<and> dev w1 = d"
proof -
  let ?w0 = "logln (''['' @ IP host @ ''] sequence for cleaning users'') w"
  obtain w1 where c: "CleanUsers env host ?w0 = (Some err, w1)"
    and t: "trace w1 = trace ?w0 @ [Dial API False]" and d: "dev w1 = d"
    using CleanUsers_dial_fails [of ?w0 env host err d] n f by auto
  have "StartManager depth env params host w = Some (Some err, w1)"
    using p c by (simp add: StartManager_def Let_def)
  then show ?thesis using t d by simp
qed

lemma Run_cycle_failed:
  "StartManager depth env params host w = Some (Some err, w1) \<Longrightarrow>
   \<exists>w'. Run_cycle depth env params host w = Some w'
      \<and> trace w' = trace w1 @ [Sleep (int64 (Expired (Task host) * 1000000000))]
      \<and> dev w' = time_Sleep env (int64 (Expired (Task host) * 1000000000)) (dev w1)"
  by (simp add: Run_cycle_def)

lemma Run_cycle_succeeded:
  "StartManager depth env params host w = Some (None, w1) \<Longrightarrow>
   time_Now_Unix env (dev w1) = (now1, d1) \<Longrightarrow> time_Now_Unix env d1 = (now2, d2) \<Longrightarrow>
   GetNextTime now1 host = Some next \<Longrightarrow>
   \<exists>w'. Run_cycle depth env params host w = Some w'
      \<and> trace w' = trace w1 @ [Sleep (int64 (int64 (next - now2) * 1000000000))]
      \<and> dev w' = time_Sleep env (int64 (int64 (next - now2) * 1000000000)) d2"
  by (simp add: Run_cycle_def)

lemma GetNextTime_bounds:
  assumes d: "0 < Delay (Task host)" and s: "Start (Task host) \<le> now"
    and lo: "- (2 ^ 63) \<le> Start (Task host)"
    and hi1: "now - Start (Task host) + Delay (Task host) < 2 ^ 63"
    and hi2: "now + Delay (Task host) < 2 ^ 63"
  shows "\<exists>k. GetNextTime now host = Some (Start (Task host) + k * Delay (Task host))
           \<and> now < Start (Task host) + k * Delay (Task host)
           \<and> Start (Task host) + k * Delay (Task host) - Delay (Task host) \<le> now"
proof -
  define st where "st = Start (Task host)"
  define dl where "dl = Delay (Task host)"
  define q where "q = (now - st) div dl"
  define m where "m = (now - st) mod dl"
  have d': "0 < dl" using d by (simp add: dl_def)
  have m0: "0 \<le> m" and m1: "m < dl" using d' by (simp_all add: m_def)
  have eq: "now - st = q * dl + m" by (simp add: q_def m_def)
  have r: "GetNextTime now host = Some (st + (q + 1) * dl)"
    using GetNextTime_formula [OF assms] by (simp add: st_def dl_def q_def)
  have gt: "now < st + (q + 1) * dl" using eq m1 by (simp add: algebra_simps)
  have le: "st + (q + 1) * dl - dl \<le> now" using eq m0 by (simp add: algebra_simps)
  show ?thesis
    unfolding st_def[symmetric] dl_def[symmetric] using r gt le by blast
qed

text \<open>
  Claim C5, as the code has it. When the control-plane dial fails at the start of a
  cycle, the host sends no command at all: the cycle ends with the failed dial, and the
  next run starts after a sleep of the task's \<open>Expired\<close> seconds. After every failed
  cycle, wherever it failed, the sleep is \<open>Expired\<close> seconds, whatever the anchor. After
  a successful cycle the host sleeps until the anchor-aligned instant that
  \<open>GetNextTime\<close> gives for the current time. (A cycle that fails later than its start
  has sent the commands of the steps before the failure; see the counterexample.)
\<close>

theorem Run_cycle_next_run:
  "(api (connections w) = None
      \<and> routeros_Dial env (IP host @ '':'' @ Itoa (PortAPI host))
              (THost.Login host) (THost.Pass host) (dev w) = (Inl err, d)
      \<and> TParams_GetByName params ''dir_backup'' = Inr dir
      \<and> 0 \<le> Expired (Task host) \<and> Expired (Task host) * 1000000000 < 2 ^ 63
    \<longrightarrow> (\<exists>w'. Run_cycle depth env params host w = Some w'
           \<and> new_events w w' = [Dial API False, Sleep (Expired (Task host) * 1000000000)]
           \<and> dev w' = time_Sleep env (Expired (Task host) * 1000000000) d))
   \<and> (StartManager depth env params host w = Some (Some err, w1)
      \<and> 0 \<le> Expired (Task host) \<and> Expired (Task host) * 1000000000 < 2 ^ 63
    \<longrightarrow> (\<exists>w'. Run_cycle depth env params host w = Some w'
           \<and> trace w' = trace w1 @ [Sleep (Expired (Task host) * 1000000000)]
           \<and> dev w' = time_Sleep env (Expired (Task host) * 1000000000) (dev w1)))
   \<and> (StartManager depth env params host w = Some (None, w1)
      \<and> time_Now_Unix env (dev w1) = (now, d1) \<and> time_Now_Unix env d1 = (now, d2)
      \<and> 0 < Delay (Task host) \<and> Start (Task host) \<le> now \<and> - (2 ^ 63) \<le> Start (Task host)
      \<and> now - Start (Task host) + Delay (Task host) < 2 ^ 63 \<and> now + Delay (Task host) < 2 ^ 63
      \<and> Delay (Task host) * 1000000000 < 2 ^ 63
    \<longrightarrow> (\<exists>w' k. Run_cycle depth env params host w = Some w'
           \<and> GetNextTime now host = Some (Start (Task host) + k * Delay (Task host))
           \<and> now < Start (Task host) + k * Delay (Task host)
           \<and> Start (Task host) + k * Delay (Task host) - Delay (Task host) \<le> now
           \<and> trace w' = trace w1 @ [Sleep ((Start (Task host) + k * Delay (Task host) - now) * 1000000000)]
           \<and> dev w' = time_Sleep env ((Start (Task host) + k * Delay (Task host) - now) * 1000000000) d2))"
proof (intro conjI impI)
  assume a: "api (connections w) = None
      \<and> routeros_Dial env (IP host @ '':'' @ Itoa (PortAPI host))
              (THost.Login host) (THost.Pass host) (dev w) = (Inl err, d)
      \<and> TParams_GetByName params ''dir_backup'' = Inr dir
      \<and> 0 \<le> Expired (Task host) \<and> Expired (Task host) * 1000000000 < 2 ^ 63"
  then have i: "int64 (Expired (Task host) * 1000000000) = Expired (Task host) * 1000000000"
    by (intro int64_id) auto
  obtain w1 where s: "StartManager depth env params host w = Some (Some err, w1)"
    and t: "trace w1 = trace w @ [Dial API False]" and dv: "dev w1 = d"
    using StartManager_dial_fails [of w env host err d params dir depth] a
    by (elim exE conjE) auto
  obtain w' where "Run_cycle depth env params host w = Some w'"
    and "trace w' = trace w1 @ [Sleep (int64 (Expired (Task host) * 1000000000))]"
    and "dev w' = time_Sleep env (int64 (Expired (Task host) * 1000000000)) (dev w1)"
    using Run_cycle_failed [OF s] by (elim exE conjE) (rule that)
  then show "\<exists>w'. Run_cycle depth env params host w = Some w'
           \<and> new_events w w' = [Dial API False, Sleep (Expired (Task host) * 1000000000)]
           \<and> dev w' = time_Sleep env (Expired (Task host) * 1000000000) d"
    using t dv i by simp
next
  assume a: "StartManager depth env params host w = Some (Some err, w1)
      \<and> 0 \<le> Expired (Task host) \<and> Expired (Task host) * 1000000000 < 2 ^ 63"
  then have i: "int64 (Expired (Task host) * 1000000000) = Expired (Task host) * 1000000000"
    by (intro int64_id) auto
  show "\<exists>w'. Run_cycle depth env params host w = Some w'
           \<and> trace w' = trace w1 @ [Sleep (Expired (Task host) * 1000000000)]
           \<and> dev w' = time_Sleep env (Expired (Task host) * 1000000000) (dev w1)"
    using Run_cycle_failed [of depth env params host w err w1] a i by simp
next
  assume a: "StartManager depth env params host w = Some (None, w1)
      \<and> time_Now_Unix env (dev w1) = (now, d1) \<and> time_Now_Unix env d1 = (now, d2)
      \<and> 0 < Delay (Task host) \<and> Start (Task host) \<le> now \<and> - (2 ^ 63) \<le> Start (Task host)
      \<and> now - Start (Task host) + Delay (Task host) < 2 ^ 63 \<and> now + Delay (Task host) < 2 ^ 63
      \<and> Delay (Task host) * 1000000000 < 2 ^ 63"
  obtain k where g: "GetNextTime now host = Some (Start (Task host) + k * Delay (Task host))"
    and lt: "now < Start (Task host) + k * Delay (Task host)"
    and le: "Start (Task host) + k * Delay (Task host) - Delay (Task host) \<le> now"
    using GetNextTime_bounds [of host now] a by (elim exE conjE) auto
  define x where "x = Start (Task host) + k * Delay (Task host) - now"
  have x0: "0 < x" and x1: "x \<le> Delay (Task host)" using lt le by (simp_all add: x_def)
  have dl: "Delay (Task host) * 1000000000 < 2 ^ 63" using a by simp
  have i1: "int64 x = x" using x0 x1 dl by (intro int64_id) auto
  have "x * 1000000000 \<le> Delay (Task host) * 1000000000" using x1 by simp
  then have i2: "int64 (x * 1000000000) = x * 1000000000" using x0 dl by (intro int64_id) auto
  obtain w' where "Run_cycle depth env params host w = Some w'"
    and "trace w' = trace w1 @ [Sleep (int64 (int64 x * 1000000000))]"
    and "dev w' = time_Sleep env (int64 (int64 x * 1000000000)) d2"
    using Run_cycle_succeeded [of depth env params host w w1 now d1 now d2, OF _ _ _ g] a
    unfolding x_def by (elim exE conjE) auto
  then show "\<exists>w' k. Run_cycle depth env params host w = Some w'
           \<and> GetNextTime now host = Some (Start (Task host) + k * Delay (Task host))
           \<and> now < Start (Task host) + k * Delay (Task host)
           \<and> Start (Task host) + k * Delay (Task host) - Delay (Task host) \<le> now
           \<and> trace w' = trace w1 @ [Sleep ((Start (Task host) + k * Delay (Task host) - now) * 1000000000)]
           \<and> dev w' = time_Sleep env ((Start (Task host) + k * Delay (Task host) - now) * 1000000000) d2"
    using g lt le by (intro exI [of _ w'] exI [of _ k]) (simp only: i1 i2, simp only: x_def simp_thms)
qed

lemma sim_no_group_print_cycle:
  "StartManager (Suc 0) sim_env (params_of ''dst/'') (host_of (task_of 0 3600 60) [] [] [])
       (world_of sim_no_group_print)
     = Some (Some (LibError ''failure''),
         snd (CleanGroups sim_env (host_of (task_of 0 3600 60) [] [] [])
          (logln ''[10.0.0.1] sequence for cleaning groups''
             (snd (CleanUsers sim_env (host_of (task_of 0 3600 60) [] [] [])
                (logln ''[10.0.0.1] sequence for cleaning users'' (world_of sim_no_group_print)))))))"
proof -
  let ?h = "host_of (task_of 0 3600 60) [] [] []"
  let ?ps = "params_of ''dst/''"
  let ?w0 = "world_of sim_no_group_print"
  let ?wa = "snd (CleanUsers sim_env ?h (logln ''[10.0.0.1] sequence for cleaning users'' ?w0))"
  let ?wb = "snd (CleanGroups sim_env ?h (logln ''[10.0.0.1] sequence for cleaning groups'' ?wa))"
  let ?pre = "[(''cleaning users'', CleanUsers sim_env ?h)]"
  let ?post = "[(''cleaning schedules'', CleanSchedules sim_env ?h),
      (''adding groups'', AddGroups sim_env ?h),
      (''adding users'', AddUsers sim_env ?ps ?h),
      (''adding backup folder'', MakeBackupFolder sim_env ?h),
      (''adding schedules'', AddSchedules sim_env ?h)]"
  have ip: "IP ?h = ''10.0.0.1''" by (simp add: host_of_def)
  have p: "run_steps ?h ?pre ?w0 = (None, ?wa)"
    by (simp add: ip res_case_None [OF sim_no_group_print_steps(1)])
  have s: "CleanGroups sim_env ?h (logln (''['' @ IP ?h @ ''] sequence for '' @ ''cleaning groups'') ?wa)
             = (Some (LibError ''failure''), ?wb)"
    using sim_no_group_print_steps(2) by (simp add: ip prod_eq_iff)
  have c: "cycle_steps sim_env ?ps ?h = ?pre @ (''cleaning groups'', CleanGroups sim_env ?h) # ?post"
    by (simp add: cycle_steps_def)
  have d: "TParams_GetByName ?ps ''dir_backup'' = Inr \<lparr>TParam.Name = ''dir_backup'', Value = ''dst/'', Note = []\<rparr>"
    by (simp add: params_of_def)
  have r: "run_steps ?h (cycle_steps sim_env ?ps ?h) ?w0 = (Some (LibError ''failure''), ?wb)"
    unfolding c
    by (rule run_steps_abort [where what = "''cleaning groups''" and step = "CleanGroups sim_env ?h",
          OF p s])
  show ?thesis
    unfolding StartManager_run_steps r d by simp
qed

lemma sim_no_group_print_users:
  "live_users (dev (snd (CleanGroups sim_env (host_of (task_of 0 3600 60) [] [] [])
          (logln ''[10.0.0.1] sequence for cleaning groups''
             (snd (CleanUsers sim_env (host_of (task_of 0 3600 60) [] [] [])
                (logln ''[10.0.0.1] sequence for cleaning users'' (world_of sim_no_group_print)))))))) = [''admin'']"
  by (simp add: eval_simps)

lemma sim_healthy_cycle:
  "StartManager (Suc 0) sim_env (params_of ''dst/'') (host_of (task_of 0 3600 60) [] [] [])
     (world_of (sim_of [''admin''] [] [] [] 5000))
   = Some (None,
       \<lparr>connections = \<lparr>ssh = None, sftp = None, api = None\<rparr>,
        dev = (sim_of [''admin''] [] [] [] 5000)\<lparr>remote_fs := [([''backup''], DirN)]\<rparr>,
        trace =
          [Dial API True, Cmd [''/user/print''] True, Cmd [''/user/group/print''] True,
           Cmd [''/system/scheduler/print''] True, Dial SSH True, Dial SFTP True,
           Close API, Close SFTP, Close SSH],
        logs =
          [''[10.0.0.1] sequence for cleaning users'',
           ''[10.0.0.1] connection via API'',
           ''[10.0.0.1] sequence for cleaning groups'',
           ''[10.0.0.1] sequence for cleaning schedules'',
           ''[10.0.0.1] sequence for adding groups'',
           ''[10.0.0.1] sequence for adding users'',
           ''[10.0.0.1] sequence for adding backup folder'',
           ''[10.0.0.1] connection via SSH'',
           ''[10.0.0.1] connection via SFTP'',
           ''[10.0.0.1] sequence for adding schedules'',
           ''[10.0.0.1] sequence for backup directory'',
           ''[10.0.0.1] disconnection via API'',
           ''[10.0.0.1] disconnection via SFTP'',
           ''[10.0.0.1] disconnection via SSH'']\<rparr>)"
  by (simp add: eval_simps)

theorem Run_cycle_next_run_witness:
  "(\<exists>w'. Run_cycle (Suc 0) sim_env (params_of ''dst/'') (host_of (task_of 0 3600 60) [] [] [])
            (world_of sim_api_down) = Some w'
        \<and> new_events (world_of sim_api_down) w' = [Dial API False, Sleep (60 * 1000000000)]
        \<and> dev w' = time_Sleep sim_env (60 * 1000000000) sim_api_down)
   \<and> (\<exists>w'. Run_cycle (Suc 0) sim_env (params_of ''dst/'') (host_of (task_of 0 3600 60) [] [] [])
            (world_of sim_no_group_print) = Some w'
        \<and> trace w' = [Dial API True, Cmd [''/user/print''] True,
                       Cmd [''/user/remove'', ''=numbers=mallory''] True,
                       Cmd [''/user/group/print''] False] @ [Sleep (60 * 1000000000)])
   \<and> (\<exists>w' k. Run_cycle (Suc 0) sim_env (params_of ''dst/'') (host_of (task_of 0 3600 60) [] [] [])
            (world_of (sim_of [''admin''] [] [] [] 5000)) = Some w'
        \<and> GetNextTime 5000 (host_of (task_of 0 3600 60) [] [] []) = Some (0 + k * 3600)
        \<and> 5000 < 0 + k * 3600 \<and> 0 + k * 3600 - 3600 \<le> 5000
        \<and> trace w' = [Dial API True, Cmd [''/user/print''] True, Cmd [''/user/group/print''] True,
                       Cmd [''/system/scheduler/print''] True, Dial SSH True, Dial SFTP True,
                       Close API, Close SFTP, Close SSH] @ [Sleep ((0 + k * 3600 - 5000) * 1000000000)])"
proof -
  let ?h = "host_of (task_of 0 3600 60) [] [] []"
  let ?ps = "params_of ''dst/''"
  have d: "TParams_GetByName ?ps ''dir_backup'' = Inr \<lparr>TParam.Name = ''dir_backup'', Value = ''dst/'', Note = []\<rparr>"
    by (simp add: params_of_def)
  have a1: "api (connections (world_of sim_api_down)) = None" by (simp add: world_of_def)
  have a2: "routeros_Dial sim_env (IP ?h @ '':'' @ Itoa (PortAPI ?h)) (THost.Login ?h) (THost.Pass ?h)
              (dev (world_of sim_api_down)) = (Inl (LibError ''connection refused''), sim_api_down)"
    by (simp add: sim_env_def world_of_def sim_api_down_def sim_err_def)
  note A = Run_cycle_next_run [where env = sim_env and host = ?h and params = ?ps and depth = "Suc 0"
      and w = "world_of sim_api_down" and err = "LibError ''connection refused''" and d = sim_api_down
      and dir = "\<lparr>TParam.Name = ''dir_backup'', Value = ''dst/'', Note = []\<rparr>", THEN conjunct1]
  have 1: "\<exists>w'. Run_cycle (Suc 0) sim_env ?ps ?h (world_of sim_api_down) = Some w'
        \<and> new_events (world_of sim_api_down) w' = [Dial API False, Sleep (60 * 1000000000)]
        \<and> dev w' = time_Sleep sim_env (60 * 1000000000) sim_api_down"
    using A a1 a2 d by simp
  note B = Run_cycle_next_run [where env = sim_env and host = ?h and params = ?ps and depth = "Suc 0"
      and w = "world_of sim_no_group_print" and err = "LibError ''failure''"
      and ?w1.0 = "snd (CleanGroups sim_env ?h
          (logln ''[10.0.0.1] sequence for cleaning groups''
             (snd (CleanUsers sim_env ?h
                (logln ''[10.0.0.1] sequence for cleaning users'' (world_of sim_no_group_print))))))",
      THEN conjunct2, THEN conjunct1]
  have 2: "\<exists>w'. Run_cycle (Suc 0) sim_env ?ps ?h (world_of sim_no_group_print) = Some w'
        \<and> trace w' = [Dial API True, Cmd [''/user/print''] True,
                       Cmd [''/user/remove'', ''=numbers=mallory''] True,
                       Cmd [''/user/group/print''] False] @ [Sleep (60 * 1000000000)]"
    using B sim_no_group_print_cycle sim_no_group_print_steps(3) by auto
  let ?W = "snd (the (StartManager (Suc 0) sim_env ?ps ?h (world_of (sim_of [''admin''] [] [] [] 5000))))"
  let ?D = "(sim_of [''admin''] [] [] [] 5000)\<lparr>remote_fs := [([''backup''], DirN)]\<rparr>"
  note C = Run_cycle_next_run [where env = sim_env and host = ?h and params = ?ps and depth = "Suc 0"
      and w = "world_of (sim_of [''admin''] [] [] [] 5000)" and now = 5000
      and ?w1.0 = ?W and ?d1.0 = ?D and ?d2.0 = ?D, THEN conjunct2, THEN conjunct2]
  have h: "StartManager (Suc 0) sim_env ?ps ?h (world_of (sim_of [''admin''] [] [] [] 5000)) = Some (None, ?W)"
    by (simp add: sim_healthy_cycle)
  have dv: "dev ?W = ?D" by (simp add: sim_healthy_cycle)
  have tr: "trace ?W = [Dial API True, Cmd [''/user/print''] True, Cmd [''/user/group/print''] True,
                       Cmd [''/system/scheduler/print''] True, Dial SSH True, Dial SFTP True,
                       Close API, Close SFTP, Close SSH]"
    by (simp add: sim_healthy_cycle)
  have n: "time_Now_Unix sim_env ?D = (5000, ?D)"
    by (simp add: sim_env_def sim_of_def)
  have 3: "\<exists>w' k. Run_cycle (Suc 0) sim_env ?ps ?h (world_of (sim_of [''admin''] [] [] [] 5000)) = Some w'
        \<and> GetNextTime 5000 ?h = Some (0 + k * 3600)
        \<and> 5000 < 0 + k * 3600 \<and> 0 + k * 3600 - 3600 \<le> 5000
        \<and> trace w' = [Dial API True, Cmd [''/user/print''] True, Cmd [''/user/group/print''] True,
                       Cmd [''/system/scheduler/print''] True, Dial SSH True, Dial SFTP True,
                       Close API, Close SFTP, Close SSH] @ [Sleep ((0 + k * 3600 - 5000) * 1000000000)]"
    using C h n unfolding dv tr by auto
  show ?thesis using 1 2 3 by blast
qed

text \<open>
  A cycle that fails after its start has changed the device: on a device that cannot
  list its groups, the cycle removes the undeclared user, then fails, and the next run
  comes after the back-off.
\<close>

theorem Run_cycle_failed_after_mutation_counterexample:
  "trace (the (Run_cycle (Suc 0) sim_env (params_of ''dst/'') (host_of (task_of 0 3600 60) [] [] [])
            (world_of sim_no_group_print)))
     = [Dial API True, Cmd [''/user/print''] True, Cmd [''/user/remove'', ''=numbers=mallory''] True,
        Cmd [''/user/group/print''] False, Sleep (60 * 1000000000)]
   \<and> live_users (dev (world_of sim_no_group_print)) = [''admin'', ''mallory'']
   \<and> live_users (dev (the (Run_cycle (Suc 0) sim_env (params_of ''dst/'')
            (host_of (task_of 0 3600 60) [] [] []) (world_of sim_no_group_print)))) = [''admin'']"
proof -
  let ?h = "host_of (task_of 0 3600 60) [] [] []"
  let ?wb = "snd (CleanGroups sim_env ?h
          (logln ''[10.0.0.1] sequence for cleaning groups''
             (snd (CleanUsers sim_env ?h
                (logln ''[10.0.0.1] sequence for cleaning users'' (world_of sim_no_group_print))))))"
  have i: "int64 60000000000 = 60000000000" by (simp add: int64_def)
  have r: "Run_cycle (Suc 0) sim_env (params_of ''dst/'') ?h (world_of sim_no_group_print)
        = Some (Sleep_ns sim_env (60 * 1000000000)
                  (logln (''['' @ IP ?h @ ''] manager error: \"'' @ Error (LibError ''failure'') @ ''\"'') ?wb))"
    by (simp add: Run_cycle_def sim_no_group_print_cycle i)
  have u: "live_users (time_Sleep sim_env (60 * 1000000000) (dev ?wb)) = live_users (dev ?wb)"
    by (simp add: sim_env_def)
  have v: "live_users (dev (world_of sim_no_group_print)) = [''admin'', ''mallory'']"
    by (simp add: world_of_def sim_no_group_print_def sim_of_def)
  show ?thesis
    unfolding r using sim_no_group_print_steps(3) sim_no_group_print_users u v by simp
qed

section \<open>The retries of the key import\<close>

text \<open>One turn of the loop of \<open>ImportSshKey\<close> with the session held.\<close>

lemma ImportSshKey_loop_done:
  "\<not> i \<le> attempts \<Longrightarrow> ImportSshKey_loop env host user delay attempts i w = (Some AllAttemptsUsed, w)"
  by (simp add: ImportSshKey_loop.simps [of env host user delay attempts i w])

lemma ImportSshKey_loop_no_session:
  "i \<le> attempts \<Longrightarrow> GetConnectionAPI env host w = (Inl err, w1) \<Longrightarrow>
   ImportSshKey_loop env host user delay attempts i w = (Some err, w1)"
  by (simp add: ImportSshKey_loop.simps [of env host user delay attempts i w])



lemma ImportSshKey_loop_retry:
  assumes le: "i \<le> attempts" and h: "api (connections w) = Some c"
    and f: "isl (fst (routeros_Run env c (ImportSshKey_cmd user)
                (time_Sleep env (int64 (delay * 1000000)) (dev w))))"
  shows "\<exists>w1. ImportSshKey_loop env host user delay attempts i w =
          ImportSshKey_loop env host user delay attempts (i + 1) w1 \<and>
        api (connections w1) = Some c \<and>
        trace w1 = trace w @ [Sleep (int64 (delay * 1000000)), Cmd (ImportSshKey_cmd user) False]"
proof -
  obtain err where e: "fst (routeros_Run env c (ImportSshKey_cmd user)
                (time_Sleep env (int64 (delay * 1000000)) (dev w))) = Inl err"
    using f by (auto simp: isl_def)
  let ?w2 = "emit (Cmd (ImportSshKey_cmd user) False)
        ((Sleep_ns env (int64 (delay * 1000000)) w)
           \<lparr>dev := snd (routeros_Run env c (ImportSshKey_cmd user)
                (time_Sleep env (int64 (delay * 1000000)) (dev w)))\<rparr>)"
  let ?w1 = "logln (''['' @ IP host @ ''] '' @ Itoa i @ '' try and ''
                                @ Itoa (int64 (i * delay)) @ '' milisecond later'')
                          (logln (''['' @ IP host @ ''] ['' @ TUser.Login user @ ''] error: \"''
                                   @ Error err @ ''\"'') ?w2)"
  have r: "connApi_Run env c (ImportSshKey_cmd user) (Sleep_ns env (int64 (delay * 1000000)) w)
             = (Inl err, ?w2)"
    using e by (simp add: connApi_Run_eq)
  have 1: "ImportSshKey_loop env host user delay attempts i w =
          ImportSshKey_loop env host user delay attempts (i + 1) ?w1"
    using le h r
    by (subst ImportSshKey_loop.simps [of env host user delay attempts i w])
       (simp add: GetConnectionAPI_cached)
  have 2: "api (connections ?w1) = Some c" using h by simp
  have 3: "trace ?w1 = trace w @ [Sleep (int64 (delay * 1000000)), Cmd (ImportSshKey_cmd user) False]"
    by simp
  show ?thesis using 1 2 3 by blast
qed

text \<open>The loop from the counter \<open>i\<close> on, when every import command fails.\<close>

lemma ImportSshKey_loop_all_fail:
  assumes f: "\<forall>x. isl (fst (routeros_Run env c (ImportSshKey_cmd user) x))"
  shows "api (connections w) = Some c \<Longrightarrow>
     \<exists>w'. ImportSshKey_loop env host user delay attempts i w = (Some AllAttemptsUsed, w') \<and>
       trace w' = trace w @ concat (replicate (nat (attempts + 1 - i))
                    [Sleep (int64 (delay * 1000000)), Cmd (ImportSshKey_cmd user) False])"
proof (induction "nat (attempts + 1 - i)" arbitrary: i w)
  case 0
  then have "\<not> i \<le> attempts" by simp
  then show ?case using 0 by (simp add: ImportSshKey_loop_done)
next
  case (Suc m)
  then have le: "i \<le> attempts" and m: "m = nat (attempts + 1 - (i + 1))" by simp_all
  obtain w1 where 1: "ImportSshKey_loop env host user delay attempts i w =
          ImportSshKey_loop env host user delay attempts (i + 1) w1"
    and 2: "api (connections w1) = Some c"
    and 3: "trace w1 = trace w @ [Sleep (int64 (delay * 1000000)), Cmd (ImportSshKey_cmd user) False]"
    using ImportSshKey_loop_retry [OF le Suc.prems, of env user delay host] f by blast
  obtain w' where 4: "ImportSshKey_loop env host user delay attempts (i + 1) w1 = (Some AllAttemptsUsed, w')"
    and 5: "trace w' = trace w1 @ concat (replicate (nat (attempts + 1 - (i + 1)))
                    [Sleep (int64 (delay * 1000000)), Cmd (ImportSshKey_cmd user) False])"
    using Suc.hyps(1) [OF m 2] by blast
  have "nat (attempts + 1 - i) = Suc (nat (attempts + 1 - (i + 1)))" using le by simp
  then show ?case using 1 3 4 5 by simp
qed








section \<open>The session invariant\<close>

lemma open_sessions_simps [simp]:
  "open_sessions p [] = 0"
  "open_sessions p (e # tr) =
     (if e = Dial p True then 1 else 0) - (if e = Close p then 1 else 0) + open_sessions p tr"
  "open_sessions p (tr @ tr') = open_sessions p tr + open_sessions p tr'"
  by (simp_all add: open_sessions_def)

lemma session_inv_logln [simp]: "session_inv (logln s w) = session_inv w"
  by (simp add: session_inv_def)




lemma GetConnectionSSH_others [simp]:
  "sftp (connections (snd (GetConnectionSSH env host w))) = sftp (connections w)"
  "api (connections (snd (GetConnectionSSH env host w))) = api (connections w)"
  by (cases rule: GetConnectionSSH_cases [of w env host]; simp)+




lemma GetConnectionAPI_others [simp]:
  "ssh (connections (snd (GetConnectionAPI env host w))) = ssh (connections w)"
  "sftp (connections (snd (GetConnectionAPI env host w))) = sftp (connections w)"
  by (cases rule: GetConnectionAPI_cases [of w env host]; simp)+

lemma GetConnectionSFTP_api [simp]:
  "api (connections (snd (GetConnectionSFTP env host w))) = api (connections w)"
proof (cases rule: GetConnectionSFTP_cases [of w env host])
  case (cached c)
  then show ?thesis by simp
next
  case (no_ssh err w1)
  then show ?thesis using GetConnectionSSH_others(2) [of env host w] by simp
next
  case (fail connSSH w1 err d)
  then show ?thesis using GetConnectionSSH_others(2) [of env host w] by simp
next
  case (ok connSSH w1 c d)
  then show ?thesis using GetConnectionSSH_others(2) [of env host w] by simp
qed







text \<open>
  Claim C9. \<open>GetNextTime\<close> divides by the task's \<open>Delay\<close> without a guard: the
  computation has a result exactly when \<open>Delay\<close> is not 0, and for \<open>Delay = 0\<close> it has
  none (the division panics).
\<close>

theorem GetNextTime_zero_delay:
  "(GetNextTime now host = None) = (Delay (Task host) = 0)"
  by (simp add: GetNextTime_def Let_def)

theorem GetNextTime_zero_delay_witness:
  "GetNextTime 5000 (host_of (task_of 0 0 60) [] [] []) = None
   \<and> GetNextTime 5000 (host_of (task_of 0 3600 60) [] [] []) \<noteq> None"
  using GetNextTime_zero_delay [of 5000 "host_of (task_of 0 0 60) [] [] []"]
        GetNextTime_zero_delay [of 5000 "host_of (task_of 0 3600 60) [] [] []"]
  by simp

section \<open>Membership tests on a device that cannot be read\<close>

lemma IsContainUser_query_error:
  "fst (GetUsers env host w) = Inl err \<Longrightarrow>
   IsContainUser env host user w = (False, snd (GetUsers env host w))"
  by (cases "GetUsers env host w") (simp add: IsContainUser_def)

lemma IsContainGroup_query_error:
  "fst (GetGroups env host w) = Inl err \<Longrightarrow>
   IsContainGroup env host grp w = (False, snd (GetGroups env host w))"
  by (cases "GetGroups env host w") (simp add: IsContainGroup_def)

lemma IsContainSchedule_query_error:
  "fst (GetSchedules env host w) = Inl err \<Longrightarrow>
   IsContainSchedule env host schedule w = (False, snd (GetSchedules env host w))"
  by (cases "GetSchedules env host w") (simp add: IsContainSchedule_def)

lemma prefix_snoc2: "prefix (xs @ ys) zs \<Longrightarrow> \<exists>rest. zs = xs @ ys @ rest"
  by (auto simp: prefix_def)

lemma AddGroups_after_query_error:
  assumes h: "api (connections w) = Some c"
    and q: "fst (routeros_Run env c [''/user/group/print''] (dev w)) = Inl err"
  shows "\<exists>ok rest. trace (snd (AddGroups_loop env host (grp # groups) w))
           = trace w @ [Cmd [''/user/group/print''] False, Cmd (MakeGroup_cmd grp) ok] @ rest"
proof -
  let ?w1 = "snd (connApi_Run env c [''/user/group/print''] w)"
  have g: "GetGroups env host w = (Inl err, ?w1)" using h q by (simp add: GetGroups_held)
  have i: "IsContainGroup env host grp w = (False, ?w1)"
    using IsContainGroup_query_error [of env host w err grp] g by simp
  have h1: "api (connections ?w1) = Some c" using h by simp
  have t1: "trace ?w1 = trace w @ [Cmd [''/user/group/print''] False]" using q by simp
  obtain r w2 where m: "MakeGroup env host grp ?w1 = (r, w2)" by (cases "MakeGroup env host grp ?w1")
  have "\<exists>ok. trace w2 = trace ?w1 @ [Cmd (MakeGroup_cmd grp) ok]"
    using m MakeGroup_held [OF h1, of env host grp] by auto
  then obtain ok where t2: "trace w2 = trace w @ [Cmd [''/user/group/print''] False, Cmd (MakeGroup_cmd grp) ok]"
    using t1 by auto
  have "prefix (trace w2) (trace (snd (AddGroups_loop env host (grp # groups) w)))"
    using i m AddGroups_loop_trace [of w2 env host groups] by (cases r) auto
  then show ?thesis using t2 prefix_snoc2 by metis
qed

lemma AddSchedules_after_query_error:
  assumes h: "api (connections w) = Some c"
    and q: "fst (routeros_Run env c [''/system/scheduler/print''] (dev w)) = Inl err"
  shows "\<exists>ok rest. trace (snd (AddSchedules_loop env host (schedule # schedules) w))
           = trace w @ [Cmd [''/system/scheduler/print''] False, Cmd (MakeSchedule_cmd schedule) ok] @ rest"
proof -
  let ?w1 = "snd (connApi_Run env c [''/system/scheduler/print''] w)"
  have g: "GetSchedules env host w = (Inl err, ?w1)" using h q by (simp add: GetSchedules_held)
  have i: "IsContainSchedule env host schedule w = (False, ?w1)"
    using IsContainSchedule_query_error [of env host w err schedule] g by simp
  have h1: "api (connections ?w1) = Some c" using h by simp
  have t1: "trace ?w1 = trace w @ [Cmd [''/system/scheduler/print''] False]" using q by simp
  obtain r w2 where m: "MakeSchedule env host schedule ?w1 = (r, w2)"
    by (cases "MakeSchedule env host schedule ?w1")
  have "\<exists>ok. trace w2 = trace ?w1 @ [Cmd (MakeSchedule_cmd schedule) ok]"
    using m MakeSchedule_held [OF h1, of schedule env host] by auto
  then obtain ok where t2: "trace w2 = trace w @ [Cmd [''/system/scheduler/print''] False,
        Cmd (MakeSchedule_cmd schedule) ok]"
    using t1 by auto
  have "prefix (trace w2) (trace (snd (AddSchedules_loop env host (schedule # schedules) w)))"
    using i m AddSchedules_loop_trace [of w2 env host schedules] by (cases r) auto
  then show ?thesis using t2 prefix_snoc2 by metis
qed

lemma AddUsers_loop_after_make:
  "IsContainUser env host user w = (False, w1) \<Longrightarrow> MakeUser env host user w1 = (r, w2) \<Longrightarrow>
   prefix (trace w2) (trace (snd (AddUsers_loop env params host (user # users) w)))"
proof -
  assume i: "IsContainUser env host user w = (False, w1)" and m: "MakeUser env host user w1 = (r, w2)"
  show ?thesis
  proof (cases r)
    case (Some err)
    show ?thesis using i m Some
        AddUsers_loop_trace [of "logln (''['' @ IP host @ ''] error: \"'' @ Error err @ ''\"'') w2" env params host users]
      by simp
  next
    case None
    show ?thesis
    proof (cases "Key user = []")
      case True
      then show ?thesis using i m None AddUsers_loop_trace [of w2 env params host users] by simp
    next
      case nokey: False
      obtain r3 w3 where u: "UploadKey env params host (Key user) w2 = (r3, w3)"
        by (cases "UploadKey env params host (Key user) w2")
      have p3: "prefix (trace w2) (trace w3)"
        using UploadKey_trace [of w2 env params host "Key user"] u by simp
      obtain r4 w4 where k: "ImportSshKey env host user 5000 10 w3 = (r4, w4)"
        by (cases "ImportSshKey env host user 5000 10 w3")
      have p4: "prefix (trace w2) (trace w4)"
        using ImportSshKey_trace [of w3 env host user 5000 10] k p3
        by (auto intro: prefix_order.trans)
      show ?thesis using i m None nokey u k p3 p4 AddUsers_loop_trace [of w4 env params host users]
        by (cases r3; cases r4) (auto intro: prefix_order.trans)
    qed
  qed
qed

lemma AddUsers_after_query_error:
  assumes h: "api (connections w) = Some c"
    and q: "fst (routeros_Run env c [''/user/print''] (dev w)) = Inl err"
  shows "\<exists>pw ok rest. trace (snd (AddUsers_loop env params host (user # users) w))
           = trace w @ [Cmd [''/user/print''] False, Cmd (MakeUser_cmd (user\<lparr>TUser.Pass := pw\<rparr>)) ok] @ rest"
proof -
  let ?w1 = "snd (connApi_Run env c [''/user/print''] w)"
  have g: "GetUsers env host w = (Inl err, ?w1)" using h q by (simp add: GetUsers_held)
  have i: "IsContainUser env host user w = (False, ?w1)"
    using IsContainUser_query_error [of env host w err user] g by simp
  have h1: "api (connections ?w1) = Some c" using h by simp
  have t1: "trace ?w1 = trace w @ [Cmd [''/user/print''] False]" using q by simp
  obtain r w2 where m: "MakeUser env host user ?w1 = (r, w2)" by (cases "MakeUser env host user ?w1")
  obtain pw where "\<exists>ok. trace w2 = trace ?w1 @ [Cmd (MakeUser_cmd (user\<lparr>TUser.Pass := pw\<rparr>)) ok]"
    using m MakeUser_held [OF h1, of user env host] by auto
  then obtain ok where t2: "trace w2 = trace w @ [Cmd [''/user/print''] False,
        Cmd (MakeUser_cmd (user\<lparr>TUser.Pass := pw\<rparr>)) ok]"
    using t1 by auto
  have "prefix (trace w2) (trace (snd (AddUsers_loop env params host (user # users) w)))"
    using AddUsers_loop_after_make [OF i m] .
  then show ?thesis using t2 prefix_snoc2 by metis
qed

text \<open>
  Claim C10. When the query of the live state fails, \<open>IsContainUser\<close>,
  \<open>IsContainGroup\<close> and \<open>IsContainSchedule\<close> answer \<open>false\<close> and keep the error to
  themselves. The add operation around them then goes on to create the entry: with
  the session held and the \<open>print\<close> command failing, the next command the host sends
  is the \<open>add\<close> for that entry.
\<close>

theorem IsContain_swallows_query_error:
  "(fst (GetUsers env host w) = Inl err \<longrightarrow>
      IsContainUser env host user w = (False, snd (GetUsers env host w)))
   \<and> (fst (GetGroups env host w) = Inl err \<longrightarrow>
      IsContainGroup env host grp w = (False, snd (GetGroups env host w)))
   \<and> (fst (GetSchedules env host w) = Inl err \<longrightarrow>
      IsContainSchedule env host schedule w = (False, snd (GetSchedules env host w)))
   \<and> (api (connections w) = Some c \<and> fst (routeros_Run env c [''/user/print''] (dev w)) = Inl err \<longrightarrow>
        (\<exists>pw ok rest. trace (snd (AddUsers_loop env params host (user # users) w))
           = trace w @ [Cmd [''/user/print''] False,
                        Cmd (MakeUser_cmd (user\<lparr>TUser.Pass := pw\<rparr>)) ok] @ rest))
   \<and> (api (connections w) = Some c \<and> fst (routeros_Run env c [''/user/group/print''] (dev w)) = Inl err \<longrightarrow>
        (\<exists>ok rest. trace (snd (AddGroups_loop env host (grp # groups) w))
           = trace w @ [Cmd [''/user/group/print''] False, Cmd (MakeGroup_cmd grp) ok] @ rest))
   \<and> (api (connections w) = Some c \<and> fst (routeros_Run env c [''/system/scheduler/print''] (dev w)) = Inl err \<longrightarrow>
        (\<exists>ok rest. trace (snd (AddSchedules_loop env host (schedule # schedules) w))
           = trace w @ [Cmd [''/system/scheduler/print''] False,
                        Cmd (MakeSchedule_cmd schedule) ok] @ rest))"
  using IsContainUser_query_error [of env host w err user]
    IsContainGroup_query_error [of env host w err grp]
    IsContainSchedule_query_error [of env host w err schedule]
    AddUsers_after_query_error [of w c env err params host user users]
    AddGroups_after_query_error [of w c env err host grp groups]
    AddSchedules_after_query_error [of w c env err host schedule schedules]
  by blast

theorem IsContain_swallows_query_error_witness:
  "fst (GetUsers sim_env (host_of (task_of 0 3600 60) [] [] []) (world_with_api sim_blind))
     = Inl (LibError ''failure'')
   \<and> IsContainUser sim_env (host_of (task_of 0 3600 60) [] [] []) (user_of ''alice'' [])
         (world_with_api sim_blind)
       = (False, snd (GetUsers sim_env (host_of (task_of 0 3600 60) [] [] []) (world_with_api sim_blind)))
   \<and> IsContainGroup sim_env (host_of (task_of 0 3600 60) [] [] []) (group_of ''full'')
         (world_with_api sim_blind)
       = (False, snd (GetGroups sim_env (host_of (task_of 0 3600 60) [] [] []) (world_with_api sim_blind)))
   \<and> IsContainSchedule sim_env (host_of (task_of 0 3600 60) [] [] []) (schedule_of ''nightly'')
         (world_with_api sim_blind)
       = (False, snd (GetSchedules sim_env (host_of (task_of 0 3600 60) [] [] []) (world_with_api sim_blind)))
   \<and> (\<exists>pw ok rest. trace (snd (AddUsers_loop sim_env (params_of []) (host_of (task_of 0 3600 60) [] [] [])
                               [user_of ''alice'' []] (world_with_api sim_blind)))
           = trace (world_with_api sim_blind) @ [Cmd [''/user/print''] False,
                        Cmd (MakeUser_cmd ((user_of ''alice'' [])\<lparr>TUser.Pass := pw\<rparr>)) ok] @ rest)
   \<and> (\<exists>ok rest. trace (snd (AddGroups_loop sim_env (host_of (task_of 0 3600 60) [] [] [])
                               [group_of ''full''] (world_with_api sim_blind)))
           = trace (world_with_api sim_blind) @ [Cmd [''/user/group/print''] False,
                        Cmd (MakeGroup_cmd (group_of ''full'')) ok] @ rest)
   \<and> (\<exists>ok rest. trace (snd (AddSchedules_loop sim_env (host_of (task_of 0 3600 60) [] [] [])
                               [schedule_of ''nightly''] (world_with_api sim_blind)))
           = trace (world_with_api sim_blind) @ [Cmd [''/system/scheduler/print''] False,
                        Cmd (MakeSchedule_cmd (schedule_of ''nightly'')) ok] @ rest)"
proof -
  let ?h = "host_of (task_of 0 3600 60) [] [] []"
  let ?w = "world_with_api sim_blind"
  have h: "api (connections ?w) = Some 1" by (simp add: world_with_api_def)
  have q1: "fst (routeros_Run sim_env 1 [''/user/print''] (dev ?w)) = Inl (LibError ''failure'')"
    and q2: "fst (routeros_Run sim_env 1 [''/user/group/print''] (dev ?w)) = Inl (LibError ''failure'')"
    and q3: "fst (routeros_Run sim_env 1 [''/system/scheduler/print''] (dev ?w)) = Inl (LibError ''failure'')"
    by (simp_all add: world_with_api_def sim_blind_def sim_env_def sim_Run_def sim_of_def sim_err_def)
  have g1: "fst (GetUsers sim_env ?h ?w) = Inl (LibError ''failure'')"
    using q1 by (simp add: GetUsers_held [OF h])
  have g2: "fst (GetGroups sim_env ?h ?w) = Inl (LibError ''failure'')"
    using q2 by (simp add: GetGroups_held [OF h])
  have g3: "fst (GetSchedules sim_env ?h ?w) = Inl (LibError ''failure'')"
    using q3 by (simp add: GetSchedules_held [OF h])
  note T = IsContain_swallows_query_error [where env = sim_env and host = ?h and w = ?w
      and err = "LibError ''failure''" and c = 1 and user = "user_of ''alice'' []"
      and grp = "group_of ''full''" and schedule = "schedule_of ''nightly''"
      and params = "params_of []" and users = "[]" and groups = "[]" and schedules = "[]"]
  show ?thesis using T h q1 q2 q3 g1 g2 g3 by blast
qed

section \<open>Adding twice\<close>

subsection \<open>The skip, for every outside world\<close>

lemma AddGroups_loop_skip:
  "GetGroups env host w = (Inr live, w1) \<Longrightarrow> TGroup.Name grp \<in> TGroup.Name ` set live \<Longrightarrow>
   AddGroups_loop env host (grp # groups) w =
     AddGroups_loop env host groups
       (logln (''['' @ IP host @ ''] host already contain group \"'' @ TGroup.Name grp @ ''\"'') w1)"
  by (simp add: IsContainGroup_def)

lemma AddSchedules_loop_skip:
  "GetSchedules env host w = (Inr live, w1) \<Longrightarrow> TSchedule.Name schedule \<in> TSchedule.Name ` set live \<Longrightarrow>
   AddSchedules_loop env host (schedule # schedules) w =
     AddSchedules_loop env host schedules
       (logln (''['' @ IP host @ ''] host already contain schedule \"'' @ TSchedule.Name schedule @ ''\"'') w1)"
  by (simp add: IsContainSchedule_def)

lemma AddUsers_loop_skip:
  "GetUsers env host w = (Inr live, w1) \<Longrightarrow> TUser.Login user \<in> TUser.Login ` set live \<Longrightarrow>
   AddUsers_loop env params host (user # users) w =
     AddUsers_loop env params host users
       (logln (''['' @ IP host @ ''] host already contain user \"'' @ TUser.Login user @ ''\"'') w1)"
  by (simp add: IsContainUser_def)

subsection \<open>The simulated device answers\<close>

lemma sim_Run_simps:
  "broken d = [] \<Longrightarrow> sim_Run c [''/user/print''] d = (Inr (names_reply (live_users d)), d)"
  "broken d = [] \<Longrightarrow> sim_Run c [''/user/group/print''] d = (Inr (names_reply (live_groups d)), d)"
  "broken d = [] \<Longrightarrow> sim_Run c [''/system/scheduler/print''] d = (Inr (names_reply (live_schedules d)), d)"
  "broken d = [] \<Longrightarrow> sim_Run c (MakeGroup_cmd grp) d =
     (if TGroup.Name grp \<in> set (live_groups d) then (Inl (LibError ''already exists''), d)
      else (Inr [], d\<lparr>live_groups := live_groups d @ [TGroup.Name grp]\<rparr>))"
  "broken d = [] \<Longrightarrow> sim_Run c (MakeSchedule_cmd schedule) d =
     (if TSchedule.Name schedule \<in> set (live_schedules d) then (Inl (LibError ''already exists''), d)
      else (Inr [], d\<lparr>live_schedules := live_schedules d @ [TSchedule.Name schedule]\<rparr>))"
  "broken d = [] \<Longrightarrow> sim_Run c (MakeUser_cmd user) d =
     (if TUser.Login user \<in> set (live_users d) then (Inl (LibError ''already exists''), d)
      else (Inr [], d\<lparr>live_users := live_users d @ [TUser.Login user]\<rparr>))"
  by (simp_all add: sim_Run_def MakeGroup_cmd_def MakeSchedule_cmd_def MakeUser_cmd_def
        arg_value_def sim_add_def sim_err_def)

lemma sim_names [simp]:
  "TGroup.Name ` group_of_sentence ` set (names_reply ns) = set ns"
  "TSchedule.Name ` schedule_of_sentence ` set (names_reply ns) = set ns"
  "TUser.Login ` user_of_sentence ` set (names_reply ns) = set ns"
  by (auto simp: names_reply_def group_of_sentence_def schedule_of_sentence_def
        user_of_sentence_def Map_get_def image_iff)

lemma routeros_Run_sim [simp]: "routeros_Run sim_env = sim_Run"
  by (simp add: sim_env_def)

lemma sim_IsContainGroup:
  "api (connections w) = Some c \<Longrightarrow> broken (dev w) = [] \<Longrightarrow>
   IsContainGroup sim_env host grp w =
     (TGroup.Name grp \<in> set (live_groups (dev w)), emit (Cmd [''/user/group/print''] True) w)"
  by (simp add: IsContainGroup_def GetGroups_held connApi_Run_eq sim_Run_simps)

lemma sim_IsContainSchedule:
  "api (connections w) = Some c \<Longrightarrow> broken (dev w) = [] \<Longrightarrow>
   IsContainSchedule sim_env host schedule w =
     (TSchedule.Name schedule \<in> set (live_schedules (dev w)), emit (Cmd [''/system/scheduler/print''] True) w)"
  by (simp add: IsContainSchedule_def GetSchedules_held connApi_Run_eq sim_Run_simps)

lemma sim_IsContainUser:
  "api (connections w) = Some c \<Longrightarrow> broken (dev w) = [] \<Longrightarrow>
   IsContainUser sim_env host user w =
     (TUser.Login user \<in> set (live_users (dev w)), emit (Cmd [''/user/print''] True) w)"
  by (simp add: IsContainUser_def GetUsers_held connApi_Run_eq sim_Run_simps)

lemma sim_MakeGroup:
  "api (connections w) = Some c \<Longrightarrow> broken (dev w) = [] \<Longrightarrow> TGroup.Name grp \<notin> set (live_groups (dev w)) \<Longrightarrow>
   MakeGroup sim_env host grp w =
     (None, emit (Cmd (MakeGroup_cmd grp) True)
        (logln (''['' @ IP host @ ''] adding group \"'' @ TGroup.Name grp @ ''\"'')
           (w\<lparr>dev := (dev w)\<lparr>live_groups := live_groups (dev w) @ [TGroup.Name grp]\<rparr>\<rparr>)))"
  by (simp add: MakeGroup_held connApi_Run_eq sim_Run_simps logln_def emit_def)

lemma sim_MakeSchedule:
  "api (connections w) = Some c \<Longrightarrow> broken (dev w) = [] \<Longrightarrow>
   TSchedule.Name schedule \<notin> set (live_schedules (dev w)) \<Longrightarrow>
   MakeSchedule sim_env host schedule w =
     (None, emit (Cmd (MakeSchedule_cmd schedule) True)
        (logln (''['' @ IP host @ ''] adding schedule \"'' @ TSchedule.Name schedule @ ''\"'')
           (w\<lparr>dev := (dev w)\<lparr>live_schedules := live_schedules (dev w) @ [TSchedule.Name schedule]\<rparr>\<rparr>)))"
  by (simp add: MakeSchedule_def GetConnectionAPI_cached connApi_Run_eq sim_Run_simps logln_def emit_def Let_def)


subsection \<open>One run on the simulated device\<close>

lemma AddGroups_loop_sim:
  "api (connections w) = Some c \<Longrightarrow> broken (dev w) = [] \<Longrightarrow>
   fst (AddGroups_loop sim_env host groups w) = None
   \<and> dev (snd (AddGroups_loop sim_env host groups w))
       = (dev w)\<lparr>live_groups := add_missing (map TGroup.Name groups) (live_groups (dev w))\<rparr>
   \<and> trace (snd (AddGroups_loop sim_env host groups w))
       = trace w @ expected_adds [''/user/group/print''] TGroup.Name MakeGroup_cmd groups (live_groups (dev w))
   \<and> connections (snd (AddGroups_loop sim_env host groups w)) = connections w"
proof (induction groups arbitrary: w)
  case Nil
  show ?case by simp
next
  case (Cons grp groups)
  let ?w1 = "emit (Cmd [''/user/group/print''] True) w"
  have q: "IsContainGroup sim_env host grp w = (TGroup.Name grp \<in> set (live_groups (dev w)), ?w1)"
    using Cons.prems by (rule sim_IsContainGroup)
  have h1: "api (connections ?w1) = Some c" "broken (dev ?w1) = []" using Cons.prems by simp_all
  show ?case
  proof (cases "TGroup.Name grp \<in> set (live_groups (dev w))")
    case True
    let ?w2 = "logln (''['' @ IP host @ ''] host already contain group \"'' @ TGroup.Name grp @ ''\"'') ?w1"
    have h2: "api (connections ?w2) = Some c" "broken (dev ?w2) = []" using Cons.prems by simp_all
    have s: "AddGroups_loop sim_env host (grp # groups) w = AddGroups_loop sim_env host groups ?w2"
      using q True by simp
    show ?thesis unfolding s using Cons.IH [OF h2] True by simp
  next
    case False
    let ?w2 = "emit (Cmd (MakeGroup_cmd grp) True)
        (logln (''['' @ IP host @ ''] adding group \"'' @ TGroup.Name grp @ ''\"'')
           (?w1\<lparr>dev := (dev ?w1)\<lparr>live_groups := live_groups (dev ?w1) @ [TGroup.Name grp]\<rparr>\<rparr>))"
    have m: "MakeGroup sim_env host grp ?w1 = (None, ?w2)"
      using h1 False by (intro sim_MakeGroup) simp_all
    have h2: "api (connections ?w2) = Some c" "broken (dev ?w2) = []" using Cons.prems by simp_all
    have s: "AddGroups_loop sim_env host (grp # groups) w = AddGroups_loop sim_env host groups ?w2"
      using q False m by simp
    show ?thesis unfolding s using Cons.IH [OF h2] False by simp
  qed
qed

lemma AddSchedules_loop_sim:
  "api (connections w) = Some c \<Longrightarrow> broken (dev w) = [] \<Longrightarrow>
   fst (AddSchedules_loop sim_env host schedules w) = None
   \<and> dev (snd (AddSchedules_loop sim_env host schedules w))
       = (dev w)\<lparr>live_schedules := add_missing (map TSchedule.Name schedules) (live_schedules (dev w))\<rparr>
   \<and> trace (snd (AddSchedules_loop sim_env host schedules w))
       = trace w @ expected_adds [''/system/scheduler/print''] TSchedule.Name MakeSchedule_cmd schedules
                     (live_schedules (dev w))
   \<and> connections (snd (AddSchedules_loop sim_env host schedules w)) = connections w"
proof (induction schedules arbitrary: w)
  case Nil
  show ?case by simp
next
  case (Cons schedule schedules)
  let ?w1 = "emit (Cmd [''/system/scheduler/print''] True) w"
  have q: "IsContainSchedule sim_env host schedule w
             = (TSchedule.Name schedule \<in> set (live_schedules (dev w)), ?w1)"
    using Cons.prems by (rule sim_IsContainSchedule)
  have h1: "api (connections ?w1) = Some c" "broken (dev ?w1) = []" using Cons.prems by simp_all
  show ?case
  proof (cases "TSchedule.Name schedule \<in> set (live_schedules (dev w))")
    case True
    let ?w2 = "logln (''['' @ IP host @ ''] host already contain schedule \"''
                        @ TSchedule.Name schedule @ ''\"'') ?w1"
    have h2: "api (connections ?w2) = Some c" "broken (dev ?w2) = []" using Cons.prems by simp_all
    have s: "AddSchedules_loop sim_env host (schedule # schedules) w
               = AddSchedules_loop sim_env host schedules ?w2"
      using q True by simp
    show ?thesis unfolding s using Cons.IH [OF h2] True by simp
  next
    case False
    let ?w2 = "emit (Cmd (MakeSchedule_cmd schedule) True)
        (logln (''['' @ IP host @ ''] adding schedule \"'' @ TSchedule.Name schedule @ ''\"'')
           (?w1\<lparr>dev := (dev ?w1)\<lparr>live_schedules := live_schedules (dev ?w1) @ [TSchedule.Name schedule]\<rparr>\<rparr>))"
    have m: "MakeSchedule sim_env host schedule ?w1 = (None, ?w2)"
      using h1 False by (intro sim_MakeSchedule) simp_all
    have h2: "api (connections ?w2) = Some c" "broken (dev ?w2) = []" using Cons.prems by simp_all
    have s: "AddSchedules_loop sim_env host (schedule # schedules) w
               = AddSchedules_loop sim_env host schedules ?w2"
      using q False m by simp
    show ?thesis unfolding s using Cons.IH [OF h2] False by simp
  qed
qed

lemma add_missing_superset: "set live \<subseteq> set (add_missing ns live)"
  by (induction ns arbitrary: live) (auto, force+)

lemma add_missing_contains: "set ns \<subseteq> set (add_missing ns live)"
proof (induction ns arbitrary: live)
  case Nil
  show ?case by simp
next
  case (Cons n ns)
  have "n \<in> set (if n \<in> set live then live else live @ [n])" by simp
  then have "n \<in> set (add_missing ns (if n \<in> set live then live else live @ [n]))"
    using add_missing_superset by blast
  then show ?case using Cons.IH [of "if n \<in> set live then live else live @ [n]"] by simp
qed

lemma add_missing_present: "set ns \<subseteq> set live \<Longrightarrow> add_missing ns live = live"
  by (induction ns arbitrary: live) auto

lemma expected_adds_present:
  "name ` set xs \<subseteq> set live \<Longrightarrow>
   expected_adds query name cmd xs live = replicate (length xs) (Cmd query True)"
  by (induction xs arbitrary: live) auto



subsection \<open>Keys leave the names alone\<close>

lemma sim_env_calls [simp]:
  "sftp_Create sim_env = sim_Create_remote"
  "os_Open sim_env = sim_Open_local"
  "io_Copy_upload sim_env = sim_Copy_upload"
  "time_Sleep sim_env = (\<lambda>ns d. d\<lparr>clock_ns := clock_ns d + max 0 ns\<rparr>)"
  "rand_Password sim_env = (\<lambda>n d. (replicate n (CHR ''x''), d))"
  by (simp_all add: sim_env_def)

lemma sim_key_calls_frame [simp]:
  "live_users (snd (sim_Create_remote c p d)) = live_users d"
  "broken (snd (sim_Create_remote c p d)) = broken d"
  "live_users (snd (sim_Open_local q d)) = live_users d"
  "broken (snd (sim_Open_local q d)) = broken d"
  "live_users (snd (sim_Copy_upload p q d)) = live_users d"
  "broken (snd (sim_Copy_upload p q d)) = broken d"
  by (simp_all add: sim_Create_remote_def sim_Open_local_def sim_Copy_upload_def
        split: option.splits fnode.splits)

lemma sim_dials [simp]:
  "ssh_Dial sim_env addr config d =
     (if ssh_up d then (Inr 2, d) else (Inl (sim_err ''connection refused''), d))"
  "sftp_NewClient sim_env c d =
     (if sftp_up d then (Inr 3, d) else (Inl (sim_err ''subsystem request failed''), d))"
  by (simp_all add: sim_env_def)

lemma sim_GetConnectionSSH_frame:
  "dev (snd (GetConnectionSSH sim_env host w)) = dev w
   \<and> api (connections (snd (GetConnectionSSH sim_env host w))) = api (connections w)"
  by (simp add: GetConnectionSSH_def Let_def split: option.splits)

lemma sim_GetConnectionSFTP_frame:
  "GetConnectionSFTP sim_env host w = (r, w') \<Longrightarrow>
   dev w' = dev w \<and> api (connections w') = api (connections w)"
proof -
  assume g: "GetConnectionSFTP sim_env host w = (r, w')"
  obtain r1 w1 where s: "GetConnectionSSH sim_env host w = (r1, w1)"
    by (cases "GetConnectionSSH sim_env host w")
  have f: "dev w1 = dev w" "api (connections w1) = api (connections w)"
    using sim_GetConnectionSSH_frame [of host w] unfolding s by simp_all
  show ?thesis
    using g s f
    by (auto simp: GetConnectionSFTP_def Let_def split: option.splits sum.splits if_splits)
qed

lemma sim_UploadKey_frame:
  "live_users (dev (snd (UploadKey sim_env params host key w))) = live_users (dev w)
   \<and> broken (dev (snd (UploadKey sim_env params host key w))) = broken (dev w)
   \<and> api (connections (snd (UploadKey sim_env params host key w))) = api (connections w)"
proof -
  let ?w1 = "logln (''['' @ IP host @ ''] uploading key \"'' @ key @ ''\"'') w"
  obtain r w2 where g: "GetConnectionSFTP sim_env host ?w1 = (r, w2)"
    by (cases "GetConnectionSFTP sim_env host ?w1")
  have f: "dev w2 = dev w" "api (connections w2) = api (connections w)"
    using sim_GetConnectionSFTP_frame [OF g] by simp_all
  show ?thesis
    using g f
    by (auto simp: UploadKey_def call_eq Let_def split: prod.splits sum.splits option.splits)
qed

lemma sim_Run_import_frame [simp]:
  "live_users (snd (sim_Run c (ImportSshKey_cmd user) d)) = live_users d"
  "broken (snd (sim_Run c (ImportSshKey_cmd user) d)) = broken d"
  by (simp_all add: sim_Run_def ImportSshKey_cmd_def Let_def)

lemma sim_ImportSshKey_loop_frame:
  "api (connections w) = Some c \<Longrightarrow>
   live_users (dev (snd (ImportSshKey_loop sim_env host user delay attempts i w))) = live_users (dev w)
   \<and> broken (dev (snd (ImportSshKey_loop sim_env host user delay attempts i w))) = broken (dev w)
   \<and> api (connections (snd (ImportSshKey_loop sim_env host user delay attempts i w))) = Some c"
proof (induction sim_env host user delay attempts i w rule: ImportSshKey_loop.induct)
  case (1 host user delay attempts i w)
  show ?case
  proof (cases "i \<le> attempts")
    case False
    then show ?thesis using "1.prems"
      by (simp add: ImportSshKey_loop.simps [of sim_env host user delay attempts i w])
  next
    case True
    have g: "GetConnectionAPI sim_env host w = (Inr c, w)"
      using "1.prems" by (rule GetConnectionAPI_cached)
    obtain r2 w2 where r: "connApi_Run sim_env c (ImportSshKey_cmd user)
                        (Sleep_ns sim_env (int64 (delay * 1000000)) w) = (r2, w2)"
      by (cases "connApi_Run sim_env c (ImportSshKey_cmd user)
                        (Sleep_ns sim_env (int64 (delay * 1000000)) w)")
    have "live_users (dev (snd (connApi_Run sim_env c (ImportSshKey_cmd user)
                        (Sleep_ns sim_env (int64 (delay * 1000000)) w)))) = live_users (dev w)"
         "broken (dev (snd (connApi_Run sim_env c (ImportSshKey_cmd user)
                        (Sleep_ns sim_env (int64 (delay * 1000000)) w)))) = broken (dev w)"
         "connections (snd (connApi_Run sim_env c (ImportSshKey_cmd user)
                        (Sleep_ns sim_env (int64 (delay * 1000000)) w))) = connections w"
      by simp_all
    then have f2: "live_users (dev w2) = live_users (dev w)" "broken (dev w2) = broken (dev w)"
        "connections w2 = connections w"
      unfolding r by simp_all
    show ?thesis
    proof (cases r2)
      case (Inl err)
      let ?w3 = "logln (''['' @ IP host @ ''] '' @ Itoa i @ '' try and ''
                                @ Itoa (int64 (i * delay)) @ '' milisecond later'')
                          (logln (''['' @ IP host @ ''] ['' @ TUser.Login user @ ''] error: \"''
                                   @ Error err @ ''\"'') w2)"
      have h3: "api (connections ?w3) = Some c" using f2 "1.prems" by simp
      have "live_users (dev (snd (ImportSshKey_loop sim_env host user delay attempts (i + 1) ?w3)))
              = live_users (dev ?w3)
        \<and> broken (dev (snd (ImportSshKey_loop sim_env host user delay attempts (i + 1) ?w3)))
              = broken (dev ?w3)
        \<and> api (connections (snd (ImportSshKey_loop sim_env host user delay attempts (i + 1) ?w3))) = Some c"
        using "1.hyps" [OF True g [symmetric] refl r [symmetric] Inl h3] .
      then show ?thesis using True g r Inl f2
        by (simp add: ImportSshKey_loop.simps [of sim_env host user delay attempts i w])
    next
      case (Inr res)
      then show ?thesis using True g r f2 "1.prems"
        by (simp add: ImportSshKey_loop.simps [of sim_env host user delay attempts i w])
    qed
  qed
qed

lemma sim_ImportSshKey_frame:
  "api (connections w) = Some c \<Longrightarrow>
   live_users (dev (snd (ImportSshKey sim_env host user delay attempts w))) = live_users (dev w)
   \<and> broken (dev (snd (ImportSshKey sim_env host user delay attempts w))) = broken (dev w)
   \<and> api (connections (snd (ImportSshKey sim_env host user delay attempts w))) = Some c"
  using sim_ImportSshKey_loop_frame [of "logln (''['' @ IP host @ ''] try import key \"'' @ Key user
       @ ''\" for user \"'' @ TUser.Login user @ ''\"'') w" c host user delay attempts 1]
  by (simp add: ImportSshKey_def)



subsection \<open>Users on the simulated device\<close>

lemma sim_MakeUser:
  assumes h: "api (connections w) = Some c" and b: "broken (dev w) = []"
    and n: "TUser.Login user \<notin> set (live_users (dev w))"
  shows "fst (MakeUser sim_env host user w) = None
   \<and> live_users (dev (snd (MakeUser sim_env host user w))) = live_users (dev w) @ [TUser.Login user]
   \<and> broken (dev (snd (MakeUser sim_env host user w))) = []
   \<and> api (connections (snd (MakeUser sim_env host user w))) = Some c"
proof (cases "TUser.Pass user = []")
  case True
  show ?thesis
    using h b n True
    by (simp add: MakeUser_def MakeUser_password_eq GetConnectionAPI_cached connApi_Run_eq
          sim_Run_simps)
next
  case False
  show ?thesis
    using h b n False
    by (simp add: MakeUser_def MakeUser_password_eq GetConnectionAPI_cached connApi_Run_eq
          sim_Run_simps)
qed

lemma AddUsers_loop_sim_first:
  "api (connections w) = Some c \<Longrightarrow> broken (dev w) = [] \<Longrightarrow>
   api (connections (snd (AddUsers_loop sim_env params host users w))) = Some c
   \<and> broken (dev (snd (AddUsers_loop sim_env params host users w))) = []
   \<and> set (live_users (dev w)) \<subseteq> set (live_users (dev (snd (AddUsers_loop sim_env params host users w))))
   \<and> (fst (AddUsers_loop sim_env params host users w) = None \<longrightarrow>
        TUser.Login ` set users \<subseteq> set (live_users (dev (snd (AddUsers_loop sim_env params host users w)))))"
proof (induction users arbitrary: w)
  case Nil
  then show ?case by simp
next
  case (Cons user users)
  let ?w1 = "emit (Cmd [''/user/print''] True) w"
  have q: "IsContainUser sim_env host user w = (TUser.Login user \<in> set (live_users (dev w)), ?w1)"
    using Cons.prems by (rule sim_IsContainUser)
  have h1: "api (connections ?w1) = Some c" "broken (dev ?w1) = []" using Cons.prems by simp_all
  show ?case
  proof (cases "TUser.Login user \<in> set (live_users (dev w))")
    case True
    let ?w2 = "logln (''['' @ IP host @ ''] host already contain user \"'' @ TUser.Login user @ ''\"'') ?w1"
    have h2: "api (connections ?w2) = Some c" "broken (dev ?w2) = []" using Cons.prems by simp_all
    have s: "AddUsers_loop sim_env params host (user # users) w = AddUsers_loop sim_env params host users ?w2"
      using q True by simp
    show ?thesis unfolding s using Cons.IH [OF h2] True by auto
  next
    case False
    obtain r2 w2 where m: "MakeUser sim_env host user ?w1 = (r2, w2)"
      by (cases "MakeUser sim_env host user ?w1")
    have n1: "TUser.Login user \<notin> set (live_users (dev ?w1))" using False by simp
    have f2: "r2 = None" "live_users (dev w2) = live_users (dev w) @ [TUser.Login user]"
        "broken (dev w2) = []" "api (connections w2) = Some c"
      using sim_MakeUser [OF h1 n1, of host] unfolding m by simp_all
    show ?thesis
    proof (cases "Key user = []")
      case True
      have s: "AddUsers_loop sim_env params host (user # users) w = AddUsers_loop sim_env params host users w2"
        using q False m f2(1) True by simp
      show ?thesis unfolding s using Cons.IH [OF f2(4) f2(3)] f2(2) by auto
    next
      case k: False
      obtain r3 w3 where u: "UploadKey sim_env params host (Key user) w2 = (r3, w3)"
        by (cases "UploadKey sim_env params host (Key user) w2")
      have f3: "live_users (dev w3) = live_users (dev w2)" "broken (dev w3) = []"
          "api (connections w3) = Some c"
        using sim_UploadKey_frame [of params host "Key user" w2] f2 unfolding u by simp_all
      show ?thesis
      proof (cases r3)
        case (Some err)
        have s: "AddUsers_loop sim_env params host (user # users) w = (Some err, w3)"
          using q False m f2(1) k u Some by simp
        show ?thesis unfolding s using f3 f2(2) by auto
      next
        case None
        obtain r4 w4 where i: "ImportSshKey sim_env host user 5000 10 w3 = (r4, w4)"
          by (cases "ImportSshKey sim_env host user 5000 10 w3")
        have f4: "live_users (dev w4) = live_users (dev w3)" "broken (dev w4) = []"
            "api (connections w4) = Some c"
          using sim_ImportSshKey_frame [OF f3(3), of host user 5000 10] f3 unfolding i by simp_all
        show ?thesis
        proof (cases r4)
          case (Some err)
          have s: "AddUsers_loop sim_env params host (user # users) w = (Some err, w4)"
            using q False m f2(1) k u None i Some by simp
          show ?thesis unfolding s using f4 f3 f2(2) by auto
        next
          case n4: None
          have s: "AddUsers_loop sim_env params host (user # users) w
                     = AddUsers_loop sim_env params host users w4"
            using q False m f2(1) k u None i n4 by simp
          show ?thesis unfolding s using Cons.IH [OF f4(3) f4(2)] f4 f3 f2(2) by auto
        qed
      qed
    qed
  qed
qed

lemma AddUsers_loop_sim_again:
  "api (connections w) = Some c \<Longrightarrow> broken (dev w) = [] \<Longrightarrow>
   TUser.Login ` set users \<subseteq> set (live_users (dev w)) \<Longrightarrow>
   fst (AddUsers_loop sim_env params host users w) = None
   \<and> dev (snd (AddUsers_loop sim_env params host users w)) = dev w
   \<and> trace (snd (AddUsers_loop sim_env params host users w))
       = trace w @ replicate (length users) (Cmd [''/user/print''] True)
   \<and> connections (snd (AddUsers_loop sim_env params host users w)) = connections w"
proof (induction users arbitrary: w)
  case Nil
  then show ?case by simp
next
  case (Cons user users)
  let ?w1 = "emit (Cmd [''/user/print''] True) w"
  let ?w2 = "logln (''['' @ IP host @ ''] host already contain user \"'' @ TUser.Login user @ ''\"'') ?w1"
  have q: "IsContainUser sim_env host user w = (True, ?w1)"
    using sim_IsContainUser [OF Cons.prems(1,2), of host user] Cons.prems(3) by simp
  have h2: "api (connections ?w2) = Some c" "broken (dev ?w2) = []"
      "TUser.Login ` set users \<subseteq> set (live_users (dev ?w2))"
    using Cons.prems by simp_all
  have s: "AddUsers_loop sim_env params host (user # users) w = AddUsers_loop sim_env params host users ?w2"
    using q by simp
  show ?case unfolding s using Cons.IH [OF h2] by (simp add: replicate_append_same)
qed



text \<open>
  Claim C7. In every outside world, a declared group, user or schedule whose name (for a
  user: login) is among the entries the device reports is skipped: the add operation
  writes the log line and goes on with the remaining declared entries, from the state
  the query left; nothing is created and no error is returned for it. On the simulated
  device, which answers every command, with the control-plane session held: one run of
  \<open>AddGroups\<close> (of \<open>AddSchedules\<close>) returns without error, leaves the device with the
  missing declared names appended once each to the live names and nothing else changed,
  having sent the query before every declared entry and the creation command after it
  for exactly the entries that were not live; a second run right after it returns
  without error, sends the queries only and leaves the device as it was. The same holds
  for a second run of \<open>AddUsers\<close> after a first run that returned without error.
\<close>

theorem Add_twice_creates_nothing_twice:
  "(GetGroups env host w = (Inr lg, wg) \<and> TGroup.Name grp \<in> TGroup.Name ` set lg \<longrightarrow>
      AddGroups_loop env host (grp # groups) w =
        AddGroups_loop env host groups
          (logln (''['' @ IP host @ ''] host already contain group \"'' @ TGroup.Name grp @ ''\"'') wg))
   \<and> (GetUsers env host w = (Inr lu, wu) \<and> TUser.Login user \<in> TUser.Login ` set lu \<longrightarrow>
      AddUsers_loop env params host (user # users) w =
        AddUsers_loop env params host users
          (logln (''['' @ IP host @ ''] host already contain user \"'' @ TUser.Login user @ ''\"'') wu))
   \<and> (GetSchedules env host w = (Inr ls, ws) \<and> TSchedule.Name schedule \<in> TSchedule.Name ` set ls \<longrightarrow>
      AddSchedules_loop env host (schedule # schedules) w =
        AddSchedules_loop env host schedules
          (logln (''['' @ IP host @ ''] host already contain schedule \"'' @ TSchedule.Name schedule @ ''\"'') ws))
   \<and> (api (connections v) = Some c \<and> broken (dev v) = [] \<longrightarrow>
        fst (AddGroups sim_env host v) = None
      \<and> dev (snd (AddGroups sim_env host v))
          = (dev v)\<lparr>live_groups := add_missing (map TGroup.Name (Groups host)) (live_groups (dev v))\<rparr>
      \<and> new_events v (snd (AddGroups sim_env host v))
          = expected_adds [''/user/group/print''] TGroup.Name MakeGroup_cmd (Groups host) (live_groups (dev v))
      \<and> fst (AddGroups sim_env host (snd (AddGroups sim_env host v))) = None
      \<and> dev (snd (AddGroups sim_env host (snd (AddGroups sim_env host v))))
          = dev (snd (AddGroups sim_env host v))
      \<and> new_events (snd (AddGroups sim_env host v))
            (snd (AddGroups sim_env host (snd (AddGroups sim_env host v))))
          = replicate (length (Groups host)) (Cmd [''/user/group/print''] True)
      \<and> fst (AddSchedules sim_env host v) = None
      \<and> dev (snd (AddSchedules sim_env host v))
          = (dev v)\<lparr>live_schedules := add_missing (map TSchedule.Name (Schedules host)) (live_schedules (dev v))\<rparr>
      \<and> new_events v (snd (AddSchedules sim_env host v))
          = expected_adds [''/system/scheduler/print''] TSchedule.Name MakeSchedule_cmd (Schedules host)
              (live_schedules (dev v))
      \<and> fst (AddSchedules sim_env host (snd (AddSchedules sim_env host v))) = None
      \<and> dev (snd (AddSchedules sim_env host (snd (AddSchedules sim_env host v))))
          = dev (snd (AddSchedules sim_env host v))
      \<and> new_events (snd (AddSchedules sim_env host v))
            (snd (AddSchedules sim_env host (snd (AddSchedules sim_env host v))))
          = replicate (length (Schedules host)) (Cmd [''/system/scheduler/print''] True)
      \<and> (fst (AddUsers sim_env params host v) = None \<longrightarrow>
            fst (AddUsers sim_env params host (snd (AddUsers sim_env params host v))) = None
          \<and> dev (snd (AddUsers sim_env params host (snd (AddUsers sim_env params host v))))
              = dev (snd (AddUsers sim_env params host v))
          \<and> new_events (snd (AddUsers sim_env params host v))
                (snd (AddUsers sim_env params host (snd (AddUsers sim_env params host v))))
              = replicate (length (Users host)) (Cmd [''/user/print''] True)))"
proof (intro conjI)
  show "GetGroups env host w = (Inr lg, wg) \<and> TGroup.Name grp \<in> TGroup.Name ` set lg \<longrightarrow>
      AddGroups_loop env host (grp # groups) w =
        AddGroups_loop env host groups
          (logln (''['' @ IP host @ ''] host already contain group \"'' @ TGroup.Name grp @ ''\"'') wg)"
    using AddGroups_loop_skip by blast
  show "GetUsers env host w = (Inr lu, wu) \<and> TUser.Login user \<in> TUser.Login ` set lu \<longrightarrow>
      AddUsers_loop env params host (user # users) w =
        AddUsers_loop env params host users
          (logln (''['' @ IP host @ ''] host already contain user \"'' @ TUser.Login user @ ''\"'') wu)"
    using AddUsers_loop_skip by blast
  show "GetSchedules env host w = (Inr ls, ws) \<and> TSchedule.Name schedule \<in> TSchedule.Name ` set ls \<longrightarrow>
      AddSchedules_loop env host (schedule # schedules) w =
        AddSchedules_loop env host schedules
          (logln (''['' @ IP host @ ''] host already contain schedule \"'' @ TSchedule.Name schedule @ ''\"'') ws)"
    using AddSchedules_loop_skip by blast
  show "api (connections v) = Some c \<and> broken (dev v) = [] \<longrightarrow>
        fst (AddGroups sim_env host v) = None
      \<and> dev (snd (AddGroups sim_env host v))
          = (dev v)\<lparr>live_groups := add_missing (map TGroup.Name (Groups host)) (live_groups (dev v))\<rparr>
      \<and> new_events v (snd (AddGroups sim_env host v))
          = expected_adds [''/user/group/print''] TGroup.Name MakeGroup_cmd (Groups host) (live_groups (dev v))
      \<and> fst (AddGroups sim_env host (snd (AddGroups sim_env host v))) = None
      \<and> dev (snd (AddGroups sim_env host (snd (AddGroups sim_env host v))))
          = dev (snd (AddGroups sim_env host v))
      \<and> new_events (snd (AddGroups sim_env host v))
            (snd (AddGroups sim_env host (snd (AddGroups sim_env host v))))
          = replicate (length (Groups host)) (Cmd [''/user/group/print''] True)
      \<and> fst (AddSchedules sim_env host v) = None
      \<and> dev (snd (AddSchedules sim_env host v))
          = (dev v)\<lparr>live_schedules := add_missing (map TSchedule.Name (Schedules host)) (live_schedules (dev v))\<rparr>
      \<and> new_events v (snd (AddSchedules sim_env host v))
          = expected_adds [''/system/scheduler/print''] TSchedule.Name MakeSchedule_cmd (Schedules host)
              (live_schedules (dev v))
      \<and> fst (AddSchedules sim_env host (snd (AddSchedules sim_env host v))) = None
      \<and> dev (snd (AddSchedules sim_env host (snd (AddSchedules sim_env host v))))
          = dev (snd (AddSchedules sim_env host v))
      \<and> new_events (snd (AddSchedules sim_env host v))
            (snd (AddSchedules sim_env host (snd (AddSchedules sim_env host v))))
          = replicate (length (Schedules host)) (Cmd [''/system/scheduler/print''] True)
      \<and> (fst (AddUsers sim_env params host v) = None \<longrightarrow>
            fst (AddUsers sim_env params host (snd (AddUsers sim_env params host v))) = None
          \<and> dev (snd (AddUsers sim_env params host (snd (AddUsers sim_env params host v))))
              = dev (snd (AddUsers sim_env params host v))
          \<and> new_events (snd (AddUsers sim_env params host v))
                (snd (AddUsers sim_env params host (snd (AddUsers sim_env params host v))))
              = replicate (length (Users host)) (Cmd [''/user/print''] True))"
  proof (intro impI, elim conjE)
    assume h: "api (connections v) = Some c" and b: "broken (dev v) = []"
    let ?g = "snd (AddGroups_loop sim_env host (Groups host) v)"
    let ?s = "snd (AddSchedules_loop sim_env host (Schedules host) v)"
    let ?u = "snd (AddUsers_loop sim_env params host (Users host) v)"
    note g1 = AddGroups_loop_sim [OF h b, of host "Groups host"]
    have gh: "api (connections ?g) = Some c" "broken (dev ?g) = []"
        "TGroup.Name ` set (Groups host) \<subseteq> set (live_groups (dev ?g))"
      using g1 h b add_missing_contains [of "map TGroup.Name (Groups host)" "live_groups (dev v)"]
      by simp_all
    note g2 = AddGroups_loop_sim [OF gh(1,2), of host "Groups host"]
    have g3: "add_missing (map TGroup.Name (Groups host)) (live_groups (dev ?g)) = live_groups (dev ?g)"
      using gh(3) by (intro add_missing_present) simp
    have g4: "expected_adds [''/user/group/print''] TGroup.Name MakeGroup_cmd (Groups host) (live_groups (dev ?g))
              = replicate (length (Groups host)) (Cmd [''/user/group/print''] True)"
      using gh(3) by (rule expected_adds_present)
    note s1 = AddSchedules_loop_sim [OF h b, of host "Schedules host"]
    have sh: "api (connections ?s) = Some c" "broken (dev ?s) = []"
        "TSchedule.Name ` set (Schedules host) \<subseteq> set (live_schedules (dev ?s))"
      using s1 h b add_missing_contains [of "map TSchedule.Name (Schedules host)" "live_schedules (dev v)"]
      by simp_all
    note s2 = AddSchedules_loop_sim [OF sh(1,2), of host "Schedules host"]
    have s3: "add_missing (map TSchedule.Name (Schedules host)) (live_schedules (dev ?s)) = live_schedules (dev ?s)"
      using sh(3) by (intro add_missing_present) simp
    have s4: "expected_adds [''/system/scheduler/print''] TSchedule.Name MakeSchedule_cmd (Schedules host)
                (live_schedules (dev ?s))
              = replicate (length (Schedules host)) (Cmd [''/system/scheduler/print''] True)"
      using sh(3) by (rule expected_adds_present)
    note u1 = AddUsers_loop_sim_first [OF h b, of params host "Users host"]
    have u2: "fst (AddUsers_loop sim_env params host (Users host) ?u) = None
       \<and> dev (snd (AddUsers_loop sim_env params host (Users host) ?u)) = dev ?u
       \<and> new_events ?u (snd (AddUsers_loop sim_env params host (Users host) ?u))
           = replicate (length (Users host)) (Cmd [''/user/print''] True)"
      if "fst (AddUsers_loop sim_env params host (Users host) v) = None"
      using AddUsers_loop_sim_again [of ?u c "Users host" params host] u1 that by simp
    show "fst (AddGroups sim_env host v) = None
      \<and> dev (snd (AddGroups sim_env host v))
          = (dev v)\<lparr>live_groups := add_missing (map TGroup.Name (Groups host)) (live_groups (dev v))\<rparr>
      \<and> new_events v (snd (AddGroups sim_env host v))
          = expected_adds [''/user/group/print''] TGroup.Name MakeGroup_cmd (Groups host) (live_groups (dev v))
      \<and> fst (AddGroups sim_env host (snd (AddGroups sim_env host v))) = None
      \<and> dev (snd (AddGroups sim_env host (snd (AddGroups sim_env host v))))
          = dev (snd (AddGroups sim_env host v))
      \<and> new_events (snd (AddGroups sim_env host v))
            (snd (AddGroups sim_env host (snd (AddGroups sim_env host v))))
          = replicate (length (Groups host)) (Cmd [''/user/group/print''] True)
      \<and> fst (AddSchedules sim_env host v) = None
      \<and> dev (snd (AddSchedules sim_env host v))
          = (dev v)\<lparr>live_schedules := add_missing (map TSchedule.Name (Schedules host)) (live_schedules (dev v))\<rparr>
      \<and> new_events v (snd (AddSchedules sim_env host v))
          = expected_adds [''/system/scheduler/print''] TSchedule.Name MakeSchedule_cmd (Schedules host)
              (live_schedules (dev v))
      \<and> fst (AddSchedules sim_env host (snd (AddSchedules sim_env host v))) = None
      \<and> dev (snd (AddSchedules sim_env host (snd (AddSchedules sim_env host v))))
          = dev (snd (AddSchedules sim_env host v))
      \<and> new_events (snd (AddSchedules sim_env host v))
            (snd (AddSchedules sim_env host (snd (AddSchedules sim_env host v))))
          = replicate (length (Schedules host)) (Cmd [''/system/scheduler/print''] True)
      \<and> (fst (AddUsers sim_env params host v) = None \<longrightarrow>
            fst (AddUsers sim_env params host (snd (AddUsers sim_env params host v))) = None
          \<and> dev (snd (AddUsers sim_env params host (snd (AddUsers sim_env params host v))))
              = dev (snd (AddUsers sim_env params host v))
          \<and> new_events (snd (AddUsers sim_env params host v))
                (snd (AddUsers sim_env params host (snd (AddUsers sim_env params host v))))
              = replicate (length (Users host)) (Cmd [''/user/print''] True))"
      unfolding AddGroups_def AddSchedules_def AddUsers_def
      using g1 g2 g3 g4 s1 s2 s3 s4 u2 by simp
  qed
qed

lemma sim_keys_queries:
  "GetGroups sim_env host_keys (world_with_api sim_keys)
     = (Inr (map group_of_sentence (names_reply [''full''])),
        emit (Cmd [''/user/group/print''] True) (world_with_api sim_keys))"
  "GetUsers sim_env host_keys (world_with_api sim_keys)
     = (Inr (map user_of_sentence (names_reply [''admin'', ''bob''])),
        emit (Cmd [''/user/print''] True) (world_with_api sim_keys))"
  "GetSchedules sim_env host_keys (world_with_api sim_keys)
     = (Inr (map schedule_of_sentence (names_reply [''nightly''])),
        emit (Cmd [''/system/scheduler/print''] True) (world_with_api sim_keys))"
  by (simp_all add: eval_simps sim_keys_def host_keys_def keys_tree_def)

lemma sim_keys_users:
  "fst (AddUsers sim_env (params_of ''backups/'') host_keys (world_with_api sim_keys)) = None"
  "live_users (dev (snd (AddUsers sim_env (params_of ''backups/'') host_keys (world_with_api sim_keys))))
     = [''admin'', ''bob'', ''alice'']"
  by (simp_all add: eval_simps sim_keys_def host_keys_def keys_tree_def)

theorem Add_twice_creates_nothing_twice_witness:
  "AddGroups_loop sim_env host_keys [group_of ''full'', group_of ''ops''] (world_with_api sim_keys)
     = AddGroups_loop sim_env host_keys [group_of ''ops'']
         (logln ''[10.0.0.1] host already contain group \"full\"''
            (emit (Cmd [''/user/group/print''] True) (world_with_api sim_keys)))
   \<and> AddUsers_loop sim_env (params_of ''backups/'') host_keys
         [user_of ''bob'' '''', user_of ''alice'' ''alice.pub''] (world_with_api sim_keys)
     = AddUsers_loop sim_env (params_of ''backups/'') host_keys [user_of ''alice'' ''alice.pub'']
         (logln ''[10.0.0.1] host already contain user \"bob\"''
            (emit (Cmd [''/user/print''] True) (world_with_api sim_keys)))
   \<and> AddSchedules_loop sim_env host_keys [schedule_of ''nightly'', schedule_of ''weekly'']
         (world_with_api sim_keys)
     = AddSchedules_loop sim_env host_keys [schedule_of ''weekly'']
         (logln ''[10.0.0.1] host already contain schedule \"nightly\"''
            (emit (Cmd [''/system/scheduler/print''] True) (world_with_api sim_keys)))
   \<and> dev (snd (AddGroups sim_env host_keys (world_with_api sim_keys)))
       = sim_keys\<lparr>live_groups := [''full'', ''ops'']\<rparr>
   \<and> new_events (world_with_api sim_keys) (snd (AddGroups sim_env host_keys (world_with_api sim_keys)))
       = [Cmd [''/user/group/print''] True, Cmd [''/user/group/print''] True,
          Cmd (MakeGroup_cmd (group_of ''ops'')) True]
   \<and> dev (snd (AddGroups sim_env host_keys (snd (AddGroups sim_env host_keys (world_with_api sim_keys)))))
       = sim_keys\<lparr>live_groups := [''full'', ''ops'']\<rparr>
   \<and> new_events (snd (AddGroups sim_env host_keys (world_with_api sim_keys)))
         (snd (AddGroups sim_env host_keys (snd (AddGroups sim_env host_keys (world_with_api sim_keys)))))
       = [Cmd [''/user/group/print''] True, Cmd [''/user/group/print''] True]
   \<and> dev (snd (AddSchedules sim_env host_keys (world_with_api sim_keys)))
       = sim_keys\<lparr>live_schedules := [''nightly'', ''weekly'']\<rparr>
   \<and> new_events (world_with_api sim_keys) (snd (AddSchedules sim_env host_keys (world_with_api sim_keys)))
       = [Cmd [''/system/scheduler/print''] True, Cmd [''/system/scheduler/print''] True,
          Cmd (MakeSchedule_cmd (schedule_of ''weekly'')) True]
   \<and> dev (snd (AddSchedules sim_env host_keys
               (snd (AddSchedules sim_env host_keys (world_with_api sim_keys)))))
       = sim_keys\<lparr>live_schedules := [''nightly'', ''weekly'']\<rparr>
   \<and> new_events (snd (AddSchedules sim_env host_keys (world_with_api sim_keys)))
         (snd (AddSchedules sim_env host_keys
                (snd (AddSchedules sim_env host_keys (world_with_api sim_keys)))))
       = [Cmd [''/system/scheduler/print''] True, Cmd [''/system/scheduler/print''] True]
   \<and> live_users (dev (snd (AddUsers sim_env (params_of ''backups/'') host_keys (world_with_api sim_keys))))
       = [''admin'', ''bob'', ''alice'']
   \<and> fst (AddUsers sim_env (params_of ''backups/'') host_keys
            (snd (AddUsers sim_env (params_of ''backups/'') host_keys (world_with_api sim_keys)))) = None
   \<and> dev (snd (AddUsers sim_env (params_of ''backups/'') host_keys
            (snd (AddUsers sim_env (params_of ''backups/'') host_keys (world_with_api sim_keys)))))
       = dev (snd (AddUsers sim_env (params_of ''backups/'') host_keys (world_with_api sim_keys)))
   \<and> new_events (snd (AddUsers sim_env (params_of ''backups/'') host_keys (world_with_api sim_keys)))
         (snd (AddUsers sim_env (params_of ''backups/'') host_keys
            (snd (AddUsers sim_env (params_of ''backups/'') host_keys (world_with_api sim_keys)))))
       = [Cmd [''/user/print''] True, Cmd [''/user/print''] True]"
proof -
  let ?v = "world_with_api sim_keys"
  let ?p = "params_of ''backups/''"
  note T = Add_twice_creates_nothing_twice [where env = sim_env and host = host_keys and w = ?v
      and v = ?v and c = 1 and params = ?p
      and grp = "group_of ''full''" and groups = "[group_of ''ops'']"
      and lg = "map group_of_sentence (names_reply [''full''])"
      and wg = "emit (Cmd [''/user/group/print''] True) ?v"
      and user = "user_of ''bob'' ''''" and users = "[user_of ''alice'' ''alice.pub'']"
      and lu = "map user_of_sentence (names_reply [''admin'', ''bob''])"
      and wu = "emit (Cmd [''/user/print''] True) ?v"
      and schedule = "schedule_of ''nightly''" and schedules = "[schedule_of ''weekly'']"
      and ls = "map schedule_of_sentence (names_reply [''nightly''])"
      and ws = "emit (Cmd [''/system/scheduler/print''] True) ?v"]
  have m: "TGroup.Name (group_of ''full'') \<in> TGroup.Name ` set (map group_of_sentence (names_reply [''full'']))"
    "TUser.Login (user_of ''bob'' '''') \<in> TUser.Login ` set (map user_of_sentence (names_reply [''admin'', ''bob'']))"
    "TSchedule.Name (schedule_of ''nightly'')
       \<in> TSchedule.Name ` set (map schedule_of_sentence (names_reply [''nightly'']))"
    by (simp_all add: group_of_def user_of_def schedule_of_def)
  have h: "api (connections ?v) = Some 1 \<and> broken (dev ?v) = []"
    by (simp add: world_with_api_def sim_keys_def sim_of_def)
  have a: "AddGroups_loop sim_env host_keys (group_of ''full'' # [group_of ''ops'']) ?v
     = AddGroups_loop sim_env host_keys [group_of ''ops'']
         (logln (''['' @ IP host_keys @ ''] host already contain group \"'' @ TGroup.Name (group_of ''full'') @ ''\"'')
            (emit (Cmd [''/user/group/print''] True) ?v))"
    "AddUsers_loop sim_env ?p host_keys (user_of ''bob'' '''' # [user_of ''alice'' ''alice.pub'']) ?v
     = AddUsers_loop sim_env ?p host_keys [user_of ''alice'' ''alice.pub'']
         (logln (''['' @ IP host_keys @ ''] host already contain user \"'' @ TUser.Login (user_of ''bob'' '''') @ ''\"'')
            (emit (Cmd [''/user/print''] True) ?v))"
    "AddSchedules_loop sim_env host_keys (schedule_of ''nightly'' # [schedule_of ''weekly'']) ?v
     = AddSchedules_loop sim_env host_keys [schedule_of ''weekly'']
         (logln (''['' @ IP host_keys @ ''] host already contain schedule \"''
                   @ TSchedule.Name (schedule_of ''nightly'') @ ''\"'')
            (emit (Cmd [''/system/scheduler/print''] True) ?v))"
    using T sim_keys_queries m by blast+
  have n: "IP host_keys = ''10.0.0.1''" "TGroup.Name (group_of ''full'') = ''full''"
    "TUser.Login (user_of ''bob'' '''') = ''bob''" "TSchedule.Name (schedule_of ''nightly'') = ''nightly''"
    by (simp_all add: host_keys_def host_of_def group_of_def user_of_def schedule_of_def)
  have g: "dev (snd (AddGroups sim_env host_keys ?v))
          = (dev ?v)\<lparr>live_groups := add_missing (map TGroup.Name (Groups host_keys)) (live_groups (dev ?v))\<rparr>"
    "new_events ?v (snd (AddGroups sim_env host_keys ?v))
          = expected_adds [''/user/group/print''] TGroup.Name MakeGroup_cmd (Groups host_keys) (live_groups (dev ?v))"
    "dev (snd (AddGroups sim_env host_keys (snd (AddGroups sim_env host_keys ?v))))
          = dev (snd (AddGroups sim_env host_keys ?v))"
    "new_events (snd (AddGroups sim_env host_keys ?v))
            (snd (AddGroups sim_env host_keys (snd (AddGroups sim_env host_keys ?v))))
          = replicate (length (Groups host_keys)) (Cmd [''/user/group/print''] True)"
    using T h by blast+
  have s: "dev (snd (AddSchedules sim_env host_keys ?v))
          = (dev ?v)\<lparr>live_schedules := add_missing (map TSchedule.Name (Schedules host_keys)) (live_schedules (dev ?v))\<rparr>"
    "new_events ?v (snd (AddSchedules sim_env host_keys ?v))
          = expected_adds [''/system/scheduler/print''] TSchedule.Name MakeSchedule_cmd (Schedules host_keys)
              (live_schedules (dev ?v))"
    "dev (snd (AddSchedules sim_env host_keys (snd (AddSchedules sim_env host_keys ?v))))
          = dev (snd (AddSchedules sim_env host_keys ?v))"
    "new_events (snd (AddSchedules sim_env host_keys ?v))
            (snd (AddSchedules sim_env host_keys (snd (AddSchedules sim_env host_keys ?v))))
          = replicate (length (Schedules host_keys)) (Cmd [''/system/scheduler/print''] True)"
    using T h by blast+
  have u: "fst (AddUsers sim_env ?p host_keys (snd (AddUsers sim_env ?p host_keys ?v))) = None"
    "dev (snd (AddUsers sim_env ?p host_keys (snd (AddUsers sim_env ?p host_keys ?v))))
              = dev (snd (AddUsers sim_env ?p host_keys ?v))"
    "new_events (snd (AddUsers sim_env ?p host_keys ?v))
                (snd (AddUsers sim_env ?p host_keys (snd (AddUsers sim_env ?p host_keys ?v))))
              = replicate (length (Users host_keys)) (Cmd [''/user/print''] True)"
    using T h sim_keys_users(1) by blast+
  have e: "dev ?v = sim_keys" "live_groups sim_keys = [''full'']" "live_schedules sim_keys = [''nightly'']"
    "Groups host_keys = [group_of ''full'', group_of ''ops'']"
    "Schedules host_keys = [schedule_of ''nightly'', schedule_of ''weekly'']"
    "Users host_keys = [user_of ''bob'' '''', user_of ''alice'' ''alice.pub'']"
    by (simp_all add: world_with_api_def sim_keys_def sim_of_def host_keys_def host_of_def)
  have e2: "TGroup.Name (group_of x) = x" "TSchedule.Name (schedule_of x) = x" for x
    by (simp_all add: group_of_def schedule_of_def)
  show ?thesis
    using a [unfolded n] sim_keys_users(2)
    unfolding g s u e
    by (simp add: e2 del: AddGroups_loop.simps AddUsers_loop.simps AddSchedules_loop.simps)
qed


end
